theory Spec2Isabelle
  imports Main "HOL-Library.Word" "HOL-Library.Signed_Division" "HOL-Library.Sublist"
begin

section \<open>Data model (api/v1alpha1/modelserve\_types.go)\<close>

text \<open>
  Go's \<open>int32\<close> and \<open>int64\<close> are words read as two's complement (\<open>sint\<close>);
  a Go \<open>string\<close> is a byte string. \<open>map[string]string\<close> (labels, annotations) is an
  association list looked up with \<open>map_of\<close>. A \<open>metav1.Time\<close> is its Unix time.
\<close>

type_synonym int32 = "32 word"
type_synonym int64 = "64 word"

record ObjectMeta =
  Name :: string
  Namespace :: string
  Labels :: "(string \<times> string) list"
  Annotations :: "(string \<times> string) list"

record ModelServeSpec =
  ModelName :: string
  ModelUUID :: string
  MinIOPath :: string
  MinIOEndpoint :: string
  MinIOBucket :: string
  Image :: string
  Replicas :: "int32 option"
  RuntimeParams :: string
  MemoryLimit :: int32
  CPULimit :: int32

record ModelServeStatus =
  AvailableReplicas :: int32
  Phase :: string
  GatewayURL :: string
  ServiceName :: string
  PodName :: string
  StartedAt :: "int64 option"
  Message :: string

record ModelServe =
  Meta :: ObjectMeta
  Spec :: ModelServeSpec
  Status :: ModelServeStatus

section \<open>The process environment and the standard library\<close>

text \<open>
  What the code reads from outside the repository is a parameter of the model:
  \<open>os.Getenv\<close> (the empty string when the variable is unset), the clock
  (\<open>time.Now().Unix()\<close>), \<open>base64.RawURLEncoding\<close>, HMAC-SHA256 (key first, then
  message) and \<open>json.Unmarshal\<close> into \<open>JWTClaims\<close>.
\<close>

record JWTClaims =
  Sub :: string
  Type :: string
  Exp :: int64
  Iat :: int64

record platform =
  getenv :: "string \<Rightarrow> string"
  time_now :: int64
  b64_decode :: "string \<Rightarrow> string option"
  b64_encode :: "string \<Rightarrow> string"
  hmac_sha256 :: "string \<Rightarrow> string \<Rightarrow> string"
  json_unmarshal :: "string \<Rightarrow> JWTClaims option"

section \<open>Admission webhook (api/v1alpha1/modelserve\_webhook.go)\<close>

datatype admission_error =
    InvalidJWTFormat
  | InvalidJWTHeader
  | InvalidJWTPayload
  | InvalidJWTClaims
  | InvalidJWTSignature
  | JWTExpired
  | InvalidTokenType string
  | ModelNameRequired
  | ModelUuidRequired
  | MinioPathRequired
  | ReplicasExceed
  | MemoryLimitExceed
  | CPULimitExceed

text \<open>\<open>Default\<close>: each \<open>if\<close> of the source in its order.\<close>

definition Default :: "ModelServe \<Rightarrow> ModelServe" where
  "Default r =
    (let s0 = Spec r;
         s1 = (if Replicas s0 = None then s0\<lparr>Replicas := Some 1\<rparr> else s0);
         s2 = (if MemoryLimit s1 = 0 then s1\<lparr>MemoryLimit := 4096\<rparr> else s1);
         s3 = (if CPULimit s2 = 0 then s2\<lparr>CPULimit := 2000\<rparr> else s2);
         s4 = (if MinIOBucket s3 = [] then s3\<lparr>MinIOBucket := ''inference-models''\<rparr> else s3);
         s5 = (if MinIOEndpoint s4 = [] then s4\<lparr>MinIOEndpoint := ''minio:9000''\<rparr> else s4);
         s6 = (if Image s5 = [] then s5\<lparr>Image := ''ghcr.io/ggerganov/llama.cpp:server''\<rparr> else s5)
     in r\<lparr>Spec := s6\<rparr>)"

text \<open>\<open>strings.Split(token, ".")\<close>: the pieces between the separators; one empty piece
  for the empty string.\<close>

fun split_on :: "char \<Rightarrow> string \<Rightarrow> string list" where
  "split_on c [] = [[]]"
| "split_on c (x # xs) =
     (if x = c then [] # split_on c xs
      else (case split_on c xs of
              [] \<Rightarrow> [[x]]
            | p # ps \<Rightarrow> (x # p) # ps))"

text \<open>The shared secret of \<open>validateJWT\<close>: the environment's, or the built-in one.\<close>

definition jwtSecret :: "platform \<Rightarrow> string" where
  "jwtSecret P =
     (if getenv P ''JWT_SECRET'' = [] then ''your-secret-key-change-in-production''
      else getenv P ''JWT_SECRET'')"

text \<open>\<open>validateJWT\<close>: \<open>None\<close> is Go's \<open>nil\<close> error.\<close>

definition validateJWT :: "platform \<Rightarrow> ModelServe \<Rightarrow> admission_error option" where
  "validateJWT P r =
    (case map_of (Annotations (Meta r)) ''model.example.com/auth-token'' of
       None \<Rightarrow> None
     | Some token \<Rightarrow>
         (case split_on (CHR ''.'') token of
            [p0, p1, p2] \<Rightarrow>
              (case b64_decode P p0 of
                 None \<Rightarrow> Some InvalidJWTHeader
               | Some _ \<Rightarrow>
                  (case b64_decode P p1 of
                     None \<Rightarrow> Some InvalidJWTPayload
                   | Some payloadBytes \<Rightarrow>
                      (case json_unmarshal P payloadBytes of
                         None \<Rightarrow> Some InvalidJWTClaims
                       | Some claims \<Rightarrow>
                          (let signatureInput = p0 @ ''.'' @ p1;
                               expectedSignature =
                                 b64_encode P (hmac_sha256 P (jwtSecret P) signatureInput)
                           in if p2 \<noteq> expectedSignature then Some InvalidJWTSignature
                              else if sint (Exp claims) < sint (time_now P) then Some JWTExpired
                              else if Type claims \<noteq> ''internal'' \<and> Type claims \<noteq> ''user''
                                then Some (InvalidTokenType (Type claims))
                              else None))))
          | _ \<Rightarrow> Some InvalidJWTFormat))"

text \<open>The token check as the specification words it: three segments that each decode, the
  signature segment equal to the encoded HMAC-SHA256 of \<open>header.payload\<close> under the shared
  secret, an expiry that is not in the past and a type that is \<open>internal\<close> or \<open>user\<close>.\<close>

definition spec_token_ok :: "platform \<Rightarrow> string \<Rightarrow> bool" where
  "spec_token_ok P token =
    (case split_on (CHR ''.'') token of
       [header, payload, signature] \<Rightarrow>
         b64_decode P header \<noteq> None \<and> b64_decode P payload \<noteq> None
         \<and> b64_decode P signature \<noteq> None
         \<and> signature = b64_encode P (hmac_sha256 P (jwtSecret P) (header @ ''.'' @ payload))
         \<and> (case Option.bind (b64_decode P payload) (json_unmarshal P) of
               None \<Rightarrow> False
             | Some claims \<Rightarrow>
                 sint (time_now P) \<le> sint (Exp claims)
                 \<and> (Type claims = ''internal'' \<or> Type claims = ''user''))
     | _ \<Rightarrow> False)"

definition spec_admits :: "platform \<Rightarrow> ModelServe \<Rightarrow> bool" where
  "spec_admits P r =
    (case map_of (Annotations (Meta r)) ''model.example.com/auth-token'' of
       None \<Rightarrow> True
     | Some token \<Rightarrow> spec_token_ok P token)"

definition ValidateCreate :: "platform \<Rightarrow> ModelServe \<Rightarrow> admission_error option" where
  "ValidateCreate P r =
    (case validateJWT P r of
       Some err \<Rightarrow> Some err
     | None \<Rightarrow>
        if ModelName (Spec r) = [] then Some ModelNameRequired
        else if ModelUUID (Spec r) = [] then Some ModelUuidRequired
        else if MinIOPath (Spec r) = [] then Some MinioPathRequired
        else if (case Replicas (Spec r) of None \<Rightarrow> False | Some n \<Rightarrow> 5 < sint n)
          then Some ReplicasExceed
        else if 32768 < sint (MemoryLimit (Spec r)) then Some MemoryLimitExceed
        else if 16000 < sint (CPULimit (Spec r)) then Some CPULimitExceed
        else None)"

text \<open>\<open>ValidateUpdate\<close>: the old object is not read.\<close>

definition ValidateUpdate :: "platform \<Rightarrow> ModelServe \<Rightarrow> ModelServe \<Rightarrow> admission_error option" where
  "ValidateUpdate P r old =
    (case validateJWT P r of
       Some err \<Rightarrow> Some err
     | None \<Rightarrow>
        if (case Replicas (Spec r) of None \<Rightarrow> False | Some n \<Rightarrow> 5 < sint n)
          then Some ReplicasExceed
        else None)"

definition ValidateDelete :: "platform \<Rightarrow> ModelServe \<Rightarrow> admission_error option" where
  "ValidateDelete P r = validateJWT P r"

section \<open>Child objects (the fields of the Kubernetes API types that the builders set)\<close>

datatype EnvVarSource = SecretKeyRef string string | ConfigMapKeyRef string string

record EnvVar =
  env_Name :: string
  env_Value :: string
  env_ValueFrom :: "EnvVarSource option"

record ContainerPort =
  ContainerPort :: int32
  port_Name :: string

record VolumeMount =
  mount_Name :: string
  MountPath :: string

text \<open>A \<open>ResourceList\<close> maps a resource name to the text handed to
  \<open>resource.MustParse\<close>.\<close>

record ResourceRequirements =
  Requests :: "(string \<times> string) list"
  Limits :: "(string \<times> string) list"

record Probe =
  HTTPGet_Path :: string
  HTTPGet_Port :: int
  InitialDelaySeconds :: int32
  PeriodSeconds :: int32

record Container =
  container_Name :: string
  container_Image :: string
  Command :: "string list"
  Args :: "string list"
  Env :: "EnvVar list"
  Ports :: "ContainerPort list"
  VolumeMounts :: "VolumeMount list"
  Resources :: ResourceRequirements
  ReadinessProbe :: "Probe option"
  LivenessProbe :: "Probe option"

datatype VolumeSource = EmptyDir int | ConfigMapVolume string

record Volume =
  volume_Name :: string
  VolumeSource :: VolumeSource

record PodSpec =
  ShareProcessNamespace :: "bool option"
  InitContainers :: "Container list"
  Containers :: "Container list"
  Volumes :: "Volume list"

record PodTemplateSpec =
  template_Meta :: ObjectMeta
  template_Spec :: PodSpec

record DeploymentSpec =
  deployment_Replicas :: "int32 option"
  Selector :: "(string \<times> string) list"
  Template :: PodTemplateSpec

record Deployment =
  deployment_Meta :: ObjectMeta
  deployment_Spec :: DeploymentSpec
  deployment_AvailableReplicas :: int32

record ServicePort =
  Port :: int32
  TargetPort :: int

record Service =
  service_Meta :: ObjectMeta
  service_Selector :: "(string \<times> string) list"
  service_Ports :: "ServicePort list"
  service_Type :: string

record HTTPIngressPath =
  Path :: string
  PathType :: string
  backend_Service :: string
  backend_Port :: int32

record Ingress =
  ingress_Meta :: ObjectMeta
  IngressClassName :: "string option"
  Rules :: "HTTPIngressPath list list"

record ConfigMap =
  configmap_Meta :: ObjectMeta
  Data :: "(string \<times> string) list"

record Pod =
  pod_Meta :: ObjectMeta
  pod_Phase :: string

section \<open>Builders (internal/controller/modelserve\_controller.go)\<close>

text \<open>\<open>fmt.Sprintf("%d", n)\<close>: the decimal digits, with a minus sign below zero.\<close>

fun digit_chars :: "nat \<Rightarrow> string" where
  "digit_chars n =
     (if n < 10 then [char_of (48 + n)]
      else digit_chars (n div 10) @ [char_of (48 + n mod 10)])"

declare digit_chars.simps [simp del]

definition show_int :: "int \<Rightarrow> string" where
  "show_int i = (if i < 0 then CHR ''-'' # digit_chars (nat (- i)) else digit_chars (nat i))"

text \<open>\<open>strings.Fields\<close> splits around each run of white space, as \<open>unicode.IsSpace\<close>
  defines it. A string is the list of its UTF-8 bytes: the white-space characters are the six
  ASCII ones and U+0085, U+00A0, U+1680, U+2000 to U+200A, U+2028, U+2029, U+202F, U+205F
  and U+3000 in their encodings. \<open>space_width s\<close> is the number of bytes of the white-space
  character that \<open>s\<close> begins with, 0 when it begins with none. None of the encodings
  begins with a continuation byte, so that reading byte by byte finds the same characters
  as decoding does.\<close>

definition unicode_spaces :: "string list" where
  "unicode_spaces =
     [[CHR 0x09], [CHR 0x0A], [CHR 0x0B], [CHR 0x0C], [CHR 0x0D], [CHR 0x20],
      [CHR 0xC2, CHR 0x85], [CHR 0xC2, CHR 0xA0], [CHR 0xE1, CHR 0x9A, CHR 0x80],
      [CHR 0xE2, CHR 0x80, CHR 0x80], [CHR 0xE2, CHR 0x80, CHR 0x81],
      [CHR 0xE2, CHR 0x80, CHR 0x82], [CHR 0xE2, CHR 0x80, CHR 0x83],
      [CHR 0xE2, CHR 0x80, CHR 0x84], [CHR 0xE2, CHR 0x80, CHR 0x85],
      [CHR 0xE2, CHR 0x80, CHR 0x86], [CHR 0xE2, CHR 0x80, CHR 0x87],
      [CHR 0xE2, CHR 0x80, CHR 0x88], [CHR 0xE2, CHR 0x80, CHR 0x89],
      [CHR 0xE2, CHR 0x80, CHR 0x8A], [CHR 0xE2, CHR 0x80, CHR 0xA8],
      [CHR 0xE2, CHR 0x80, CHR 0xA9], [CHR 0xE2, CHR 0x80, CHR 0xAF],
      [CHR 0xE2, CHR 0x81, CHR 0x9F], [CHR 0xE3, CHR 0x80, CHR 0x80]]"

definition space_width :: "string \<Rightarrow> nat" where
  "space_width s = (case find (\<lambda>p. prefix p s) unicode_spaces of None \<Rightarrow> 0 | Some p \<Rightarrow> length p)"

function Fields_from :: "string \<Rightarrow> string \<Rightarrow> string list" where
  "Fields_from cur [] = (if cur = [] then [] else [cur])"
| "Fields_from cur (c # cs) =
     (if 0 < space_width (c # cs)
      then (if cur = [] then [] else [cur])
           @ Fields_from [] (drop (space_width (c # cs)) (c # cs))
      else Fields_from (cur @ [c]) cs)"
  by pat_completeness auto

termination
  by (relation "measure (\<lambda>(cur, s). length s)") auto

definition Fields :: "string \<Rightarrow> string list" where
  "Fields s = Fields_from [] s"

definition getEnvOrDefault :: "platform \<Rightarrow> string \<Rightarrow> string \<Rightarrow> string" where
  "getEnvOrDefault P key defaultValue =
     (if getenv P key \<noteq> [] then getenv P key else defaultValue)"

definition labelsForModelServe :: "string \<Rightarrow> (string \<times> string) list" where
  "labelsForModelServe name = [(''app'', ''model-serve''), (''model_serve_cr'', name)]"

definition nl :: string where
  "nl = [CHR 0x0A]"

text \<open>The \<open>ConfigMap\<close> that \<open>createStripPrefixMiddleware\<close> builds.\<close>

definition stripPrefixMiddleware :: "ModelServe \<Rightarrow> ConfigMap" where
  \<open>stripPrefixMiddleware m =
    \<lparr>configmap_Meta =
       \<lparr>Name = Name (Meta m) @ ''-stripprefix'', Namespace = Namespace (Meta m),
        Labels = labelsForModelServe (Name (Meta m)), Annotations = []\<rparr>,
     Data = [(''middleware.yaml'',
       nl @ ''apiVersion: traefik.containo.us/v1alpha1'' @ nl @
       ''kind: Middleware'' @ nl @
       ''metadata:'' @ nl @
       ''  name: '' @ Name (Meta m) @ ''-stripprefix'' @ nl @
       ''  namespace: '' @ Namespace (Meta m) @ nl @
       ''spec:'' @ nl @
       ''  stripPrefix:'' @ nl @
       ''    prefixes:'' @ nl @
       ''      - /'' @ Name (Meta m) @ nl)]\<rparr>\<close>

definition downloadScript :: "string \<Rightarrow> string \<Rightarrow> string \<Rightarrow> string \<Rightarrow> string" where
  \<open>downloadScript minioEndpoint minioBucket minioPath modelName =
     nl @ ''set -e'' @ nl @
     ''echo "Configuring MinIO client..."'' @ nl @
     ''mc alias set minio http://'' @ minioEndpoint @ '' $MINIO_ACCESS_KEY $MINIO_SECRET_KEY'' @ nl @
     nl @
     ''echo "Downloading model from MinIO..."'' @ nl @
     ''mc cp minio/'' @ minioBucket @ ''/'' @ minioPath @ '' /models/'' @ modelName @ nl @
     nl @
     ''echo "Model downloaded successfully"'' @ nl @
     ''ls -la /models/'' @ nl\<close>

definition healthProbe :: "int32 \<Rightarrow> int32 \<Rightarrow> Probe" where
  "healthProbe delay period =
     \<lparr>HTTPGet_Path = ''/health'', HTTPGet_Port = 8080,
      InitialDelaySeconds = delay, PeriodSeconds = period\<rparr>"

text \<open>\<open>deploymentForModelServe\<close>. Go's \<open>/\<close> on \<open>int32\<close> truncates towards zero
  (\<open>sdiv\<close>).\<close>

definition deploymentForModelServe :: "platform \<Rightarrow> ModelServe \<Rightarrow> Deployment" where
  "deploymentForModelServe P m =
    (let ls = labelsForModelServe (Name (Meta m));
         replicas = (case Replicas (Spec m) of None \<Rightarrow> Some 1 | Some n \<Rightarrow> Some n);
         image = (if Image (Spec m) = [] then ''ghcr.io/ggerganov/llama.cpp:server''
                  else Image (Spec m));
         minioEndpoint = (if MinIOEndpoint (Spec m) = []
                          then getEnvOrDefault P ''MINIO_ENDPOINT'' ''minio:9000''
                          else MinIOEndpoint (Spec m));
         minioBucket = (if MinIOBucket (Spec m) = []
                        then getEnvOrDefault P ''MINIO_BUCKET'' ''inference-models''
                        else MinIOBucket (Spec m));
         minioPath = (if MinIOPath (Spec m) = [] then ''models/'' @ ModelName (Spec m)
                      else MinIOPath (Spec m));
         memoryLimit = (if MemoryLimit (Spec m) = 0 then 4096 else MemoryLimit (Spec m));
         cpuLimit = (if CPULimit (Spec m) = 0 then 2000 else CPULimit (Spec m));
         llamaArgs = [''-m'', ''/models/'' @ ModelName (Spec m),
                      ''--host'', ''0.0.0.0'', ''--port'', ''8080'']
                     @ (if RuntimeParams (Spec m) \<noteq> [] then Fields (RuntimeParams (Spec m))
                        else [])
     in \<lparr>deployment_Meta =
           \<lparr>Name = Name (Meta m), Namespace = Namespace (Meta m), Labels = ls,
            Annotations = []\<rparr>,
         deployment_Spec =
           \<lparr>deployment_Replicas = replicas,
            Selector = ls,
            Template =
              \<lparr>template_Meta =
                 \<lparr>Name = [], Namespace = [], Labels = ls,
                  Annotations = [(''model-uuid'', ModelUUID (Spec m))]\<rparr>,
               template_Spec =
                 \<lparr>ShareProcessNamespace = Some True,
                  InitContainers =
                    [\<lparr>container_Name = ''download-model'',
                      container_Image = ''minio/mc:latest'',
                      Command = [''/bin/sh'', ''-c''],
                      Args = [downloadScript minioEndpoint minioBucket minioPath
                                (ModelName (Spec m))],
                      Env =
                        [\<lparr>env_Name = ''MINIO_ACCESS_KEY'', env_Value = [],
                          env_ValueFrom =
                            Some (SecretKeyRef ''inference-secrets'' ''MINIO_ACCESS_KEY'')\<rparr>,
                         \<lparr>env_Name = ''MINIO_SECRET_KEY'', env_Value = [],
                          env_ValueFrom =
                            Some (SecretKeyRef ''inference-secrets'' ''MINIO_SECRET_KEY'')\<rparr>],
                      Ports = [],
                      VolumeMounts = [\<lparr>mount_Name = ''model-volume'', MountPath = ''/models''\<rparr>],
                      Resources = \<lparr>Requests = [], Limits = []\<rparr>,
                      ReadinessProbe = None,
                      LivenessProbe = None\<rparr>],
                  Containers =
                    [\<lparr>container_Name = ''llama-server'',
                      container_Image = image,
                      Command = [],
                      Args = llamaArgs,
                      Env = [],
                      Ports = [\<lparr>ContainerPort = 8080, port_Name = ''http''\<rparr>],
                      VolumeMounts = [\<lparr>mount_Name = ''model-volume'', MountPath = ''/models''\<rparr>],
                      Resources =
                        \<lparr>Requests =
                           [(''memory'', show_int (sint memoryLimit sdiv 2) @ ''Mi''),
                            (''cpu'', show_int (sint cpuLimit sdiv 2) @ ''m'')],
                         Limits =
                           [(''memory'', show_int (sint memoryLimit) @ ''Mi''),
                            (''cpu'', show_int (sint cpuLimit) @ ''m'')]\<rparr>,
                      ReadinessProbe = Some (healthProbe 30 10),
                      LivenessProbe = Some (healthProbe 60 30)\<rparr>,
                     \<lparr>container_Name = ''monitor-sidecar'',
                      container_Image = ''python:3.9-slim'',
                      Command = [''/bin/sh'', ''-c''],
                      Args = [''pip install psycopg2-binary psutil requests && python /scripts/monitor.py''],
                      Env =
                        [\<lparr>env_Name = ''SERVER_UUID'', env_Value = Name (Meta m),
                          env_ValueFrom = None\<rparr>,
                         \<lparr>env_Name = ''MODEL_UUID'', env_Value = ModelUUID (Spec m),
                          env_ValueFrom = None\<rparr>,
                         \<lparr>env_Name = ''MODEL_NAME'', env_Value = ModelName (Spec m),
                          env_ValueFrom = None\<rparr>,
                         \<lparr>env_Name = ''DATABASE_URL'', env_Value = [],
                          env_ValueFrom =
                            Some (ConfigMapKeyRef ''inference-config'' ''DATABASE_URL'')\<rparr>],
                      Ports = [],
                      VolumeMounts = [\<lparr>mount_Name = ''monitor-script'', MountPath = ''/scripts''\<rparr>],
                      Resources =
                        \<lparr>Requests = [(''memory'', ''64Mi''), (''cpu'', ''50m'')],
                         Limits = [(''memory'', ''128Mi''), (''cpu'', ''100m'')]\<rparr>,
                      ReadinessProbe = None,
                      LivenessProbe = None\<rparr>],
                  Volumes =
                    [\<lparr>volume_Name = ''model-volume'',
                      VolumeSource = EmptyDir (10 * 1024 * 1024 * 1024)\<rparr>,
                     \<lparr>volume_Name = ''monitor-script'',
                      VolumeSource = ConfigMapVolume ''monitor-script''\<rparr>]\<rparr>\<rparr>\<rparr>,
         deployment_AvailableReplicas = 0\<rparr>)"

definition serviceForModelServe :: "ModelServe \<Rightarrow> Service" where
  "serviceForModelServe m =
    (let ls = labelsForModelServe (Name (Meta m))
     in \<lparr>service_Meta =
           \<lparr>Name = Name (Meta m), Namespace = Namespace (Meta m), Labels = ls,
            Annotations = []\<rparr>,
         service_Selector = ls,
         service_Ports = [\<lparr>Port = 80, TargetPort = 8080\<rparr>],
         service_Type = ''ClusterIP''\<rparr>)"

definition ingressForModelServe :: "ModelServe \<Rightarrow> Ingress" where
  "ingressForModelServe m =
    (let ls = labelsForModelServe (Name (Meta m));
         middlewares = Namespace (Meta m) @ ''-jwt-auth@kubernetescrd,'' @ Namespace (Meta m)
                       @ ''-'' @ Name (Meta m) @ ''-stripprefix@kubernetescrd''
     in \<lparr>ingress_Meta =
           \<lparr>Name = Name (Meta m), Namespace = Namespace (Meta m), Labels = ls,
            Annotations =
              [(''traefik.ingress.kubernetes.io/router.middlewares'', middlewares)]\<rparr>,
         IngressClassName = Some ''traefik'',
         Rules =
           [[\<lparr>Path = ''/'' @ Name (Meta m), PathType = ''Prefix'',
              backend_Service = Name (Meta m), backend_Port = 80\<rparr>]]\<rparr>)"

section \<open>The object store behind \<open>client.Client\<close>\<close>

text \<open>
  The reconciler talks to the cluster through the \<open>client.Client\<close> interface. The model
  is an in-memory store keyed by \<open>types.NamespacedName\<close>. Every call first asks the
  environment for a fault: an injected error makes the call fail and leaves the store as it
  is (a timeout, a conflicting writer, a stale read). Without a fault, \<open>Get\<close> of a missing
  object fails with \<open>NotFound\<close>, \<open>Create\<close> of an existing name fails with
  \<open>AlreadyExists\<close>, and \<open>Status().Update\<close> replaces the stored status only. Each call
  is recorded in order with the error it returned (\<open>None\<close> for success); a status update
  records the object it was given. The text of these two errors is the API's: the resource
  with its group, the name in double quotes, and \<open>not found\<close> or \<open>already exists\<close>.
\<close>

type_synonym key = "string \<times> string"

datatype status_reason = NotFound | AlreadyExists | Conflict | Unknown

datatype api_error = APIError (Reason: status_reason) (ErrorText: string)

definition IsNotFound :: "api_error \<Rightarrow> bool" where
  "IsNotFound err = (Reason err = NotFound)"

record cluster =
  modelserves :: "key \<rightharpoonup> ModelServe"
  configmaps :: "key \<rightharpoonup> ConfigMap"
  deployments :: "key \<rightharpoonup> Deployment"
  services :: "key \<rightharpoonup> Service"
  ingresses :: "key \<rightharpoonup> Ingress"
  pods :: "Pod list"

datatype resource = ModelServes | ConfigMaps | Deployments | Services | Ingresses | Pods

definition qualifiedResource :: "resource \<Rightarrow> string" where
  "qualifiedResource res =
     (case res of
        ModelServes \<Rightarrow> ''modelserves.model.example.com''
      | ConfigMaps \<Rightarrow> ''configmaps''
      | Deployments \<Rightarrow> ''deployments.apps''
      | Services \<Rightarrow> ''services''
      | Ingresses \<Rightarrow> ''ingresses.networking.k8s.io''
      | Pods \<Rightarrow> ''pods'')"

definition NewNotFound :: "resource \<Rightarrow> string \<Rightarrow> api_error" where
  "NewNotFound res name =
     APIError NotFound
       (qualifiedResource res @ '' '' @ [CHR 0x22] @ name @ [CHR 0x22] @ '' not found'')"

definition NewAlreadyExists :: "resource \<Rightarrow> string \<Rightarrow> api_error" where
  "NewAlreadyExists res name =
     APIError AlreadyExists
       (qualifiedResource res @ '' '' @ [CHR 0x22] @ name @ [CHR 0x22] @ '' already exists'')"

datatype call =
    Get resource key
  | Create resource key
  | StatusUpdate ModelServe
  | List resource string "(string \<times> string) list"

record client =
  store :: cluster
  faults :: "api_error option list"
  calls :: "(call \<times> api_error option) list"

definition key_of :: "ObjectMeta \<Rightarrow> key" where
  "key_of meta = (Namespace meta, Name meta)"

definition next_fault :: "client \<Rightarrow> api_error option \<times> client" where
  "next_fault c =
     (case faults c of
        [] \<Rightarrow> (None, c)
      | f # fs \<Rightarrow> (f, c\<lparr>faults := fs\<rparr>))"

definition record_call :: "call \<Rightarrow> api_error option \<Rightarrow> client \<Rightarrow> client" where
  "record_call cl response c = c\<lparr>calls := calls c @ [(cl, response)]\<rparr>"

definition client_Get ::
  "resource \<Rightarrow> (cluster \<Rightarrow> key \<rightharpoonup> 'a) \<Rightarrow> key \<Rightarrow> client \<Rightarrow> (api_error + 'a) \<times> client" where
  "client_Get res table k c =
     (case next_fault c of
        (Some err, c1) \<Rightarrow> (Inl err, record_call (Get res k) (Some err) c1)
      | (None, c1) \<Rightarrow>
          (case table (store c1) k of
             None \<Rightarrow>
               (let err = NewNotFound res (snd k)
                in (Inl err, record_call (Get res k) (Some err) c1))
           | Some obj \<Rightarrow> (Inr obj, record_call (Get res k) None c1)))"

definition client_Create ::
  "resource \<Rightarrow> (cluster \<Rightarrow> key \<rightharpoonup> 'a) \<Rightarrow> (((key \<rightharpoonup> 'a) \<Rightarrow> (key \<rightharpoonup> 'a)) \<Rightarrow> cluster \<Rightarrow> cluster)
     \<Rightarrow> key \<Rightarrow> 'a \<Rightarrow> client \<Rightarrow> api_error option \<times> client" where
  "client_Create res table table_update k obj c =
     (case next_fault c of
        (Some err, c1) \<Rightarrow> (Some err, record_call (Create res k) (Some err) c1)
      | (None, c1) \<Rightarrow>
          (case table (store c1) k of
             Some _ \<Rightarrow>
               (let err = NewAlreadyExists res (snd k)
                in (Some err, record_call (Create res k) (Some err) c1))
           | None \<Rightarrow>
               (None, record_call (Create res k) None
                        (c1\<lparr>store := table_update (\<lambda>t. t(k \<mapsto> obj)) (store c1)\<rparr>))))"

definition client_Status_Update :: "ModelServe \<Rightarrow> client \<Rightarrow> api_error option \<times> client" where
  "client_Status_Update m c =
     (case next_fault c of
        (Some err, c1) \<Rightarrow> (Some err, record_call (StatusUpdate m) (Some err) c1)
      | (None, c1) \<Rightarrow>
          (case modelserves (store c1) (key_of (Meta m)) of
             None \<Rightarrow>
               (let err = NewNotFound ModelServes (Name (Meta m))
                in (Some err, record_call (StatusUpdate m) (Some err) c1))
           | Some stored \<Rightarrow>
               (None, record_call (StatusUpdate m) None
                        (c1\<lparr>store := modelserves_update
                           (\<lambda>t. t(key_of (Meta m) \<mapsto> stored\<lparr>Status := Status m\<rparr>)) (store c1)\<rparr>))))"

definition matchesLabels :: "(string \<times> string) list \<Rightarrow> Pod \<Rightarrow> bool" where
  "matchesLabels ls pod = list_all (\<lambda>(k, v). map_of (Labels (pod_Meta pod)) k = Some v) ls"

definition client_List_Pods ::
  "string \<Rightarrow> (string \<times> string) list \<Rightarrow> client \<Rightarrow> (api_error + Pod list) \<times> client" where
  "client_List_Pods ns ls c =
     (case next_fault c of
        (Some err, c1) \<Rightarrow> (Inl err, record_call (List Pods ns ls) (Some err) c1)
      | (None, c1) \<Rightarrow>
          (Inr (filter (\<lambda>pod. Namespace (pod_Meta pod) = ns \<and> matchesLabels ls pod)
                  (pods (store c1))), record_call (List Pods ns ls) None c1))"

section \<open>The reconciler (internal/controller/modelserve\_controller.go)\<close>

datatype Result = Result (Requeue: bool)

type_synonym outcome = "(Result \<times> api_error option) \<times> client"

text \<open>\<open>createStripPrefixMiddleware\<close>.\<close>

definition createStripPrefixMiddleware :: "ModelServe \<Rightarrow> client \<Rightarrow> api_error option \<times> client" where
  "createStripPrefixMiddleware m c =
    (let middleware = stripPrefixMiddleware m
     in case client_Get ConfigMaps configmaps (key_of (configmap_Meta middleware)) c of
          (Inl err, c1) \<Rightarrow>
            if IsNotFound err
            then client_Create ConfigMaps configmaps configmaps_update
                   (key_of (configmap_Meta middleware)) middleware c1
            else (Some err, c1)
        | (Inr found, c1) \<Rightarrow> (None, c1))"

text \<open>\<open>Reconcile\<close>, last part ("Update Status based on deployment state"). Each group of
  assignments is a function on the pair of \<open>modelServe.Status\<close> and \<open>needsStatusUpdate\<close>:
  the three observed fields, the phase \<open>Running\<close> with its start time, the name of the
  first running pod (the loop with its \<open>break\<close>), and the phase \<open>Pending\<close>.\<close>

definition observedFields :: "ModelServe \<Rightarrow> Deployment \<Rightarrow> Service \<Rightarrow> ModelServeStatus \<times> bool" where
  "observedFields m found svc =
    (let st0 = Status m;
         (st1, needs1) =
           (if deployment_AvailableReplicas found \<noteq> AvailableReplicas st0
            then (st0\<lparr>AvailableReplicas := deployment_AvailableReplicas found\<rparr>, True)
            else (st0, False));
         (st2, needs2) =
           (if ServiceName st1 \<noteq> Name (service_Meta svc)
            then (st1\<lparr>ServiceName := Name (service_Meta svc)\<rparr>, True)
            else (st1, needs1));
         gatewayURL = ''http://localhost/'' @ Name (Meta m)
     in if GatewayURL st2 \<noteq> gatewayURL
        then (st2\<lparr>GatewayURL := gatewayURL\<rparr>, True)
        else (st2, needs2))"

definition markRunning :: "platform \<Rightarrow> ModelServeStatus \<times> bool \<Rightarrow> ModelServeStatus \<times> bool" where
  "markRunning P x =
    (case x of (st, needs) \<Rightarrow>
       if Phase st \<noteq> ''Running''
       then (st\<lparr>Phase := ''Running'', Message := ''Model server is running'',
                StartedAt := Some (time_now P)\<rparr>, True)
       else (st, needs))"

definition recordPodName :: "Pod list \<Rightarrow> ModelServeStatus \<times> bool \<Rightarrow> ModelServeStatus \<times> bool" where
  "recordPodName items x =
    (case x of (st, needs) \<Rightarrow>
       (case find (\<lambda>pod. pod_Phase pod = ''Running'') items of
          None \<Rightarrow> (st, needs)
        | Some pod \<Rightarrow>
            if PodName st \<noteq> Name (pod_Meta pod)
            then (st\<lparr>PodName := Name (pod_Meta pod)\<rparr>, True)
            else (st, needs)))"

definition markPending :: "ModelServeStatus \<times> bool \<Rightarrow> ModelServeStatus \<times> bool" where
  "markPending x =
    (case x of (st, needs) \<Rightarrow>
       if Phase st \<noteq> ''Downloading'' \<and> Phase st \<noteq> ''Failed''
       then (st\<lparr>Phase := ''Pending'', Message := ''Waiting for pod to be ready''\<rparr>, True)
       else (st, needs))"

definition reconcileStatus :: "platform \<Rightarrow> ModelServe \<Rightarrow> Deployment \<Rightarrow> Service \<Rightarrow> client \<Rightarrow> outcome" where
  "reconcileStatus P m found svc c =
    (let x3 = observedFields m found svc;
         (x5, c5) =
           (if 0 < sint (deployment_AvailableReplicas found) then
              (let x4 = markRunning P x3
               in case client_List_Pods (Namespace (Meta m))
                         (labelsForModelServe (Name (Meta m))) c of
                    (Inl err, c4) \<Rightarrow> (x4, c4)
                  | (Inr items, c4) \<Rightarrow> (recordPodName items x4, c4))
            else (markPending x3, c))
     in if snd x5 then
          (case client_Status_Update (m\<lparr>Status := fst x5\<rparr>) c5 of
             (Some err, c6) \<Rightarrow> ((Result False, Some err), c6)
           | (None, c6) \<Rightarrow> ((Result False, None), c6))
        else ((Result False, None), c5))"

text \<open>\<open>Reconcile\<close>, the ingress step.\<close>

definition reconcileIngress :: "platform \<Rightarrow> ModelServe \<Rightarrow> Deployment \<Rightarrow> Service \<Rightarrow> client \<Rightarrow> outcome" where
  "reconcileIngress P m found svc c =
    (let ing = ingressForModelServe m
     in case client_Get Ingresses ingresses (key_of (ingress_Meta ing)) c of
          (Inl err, c1) \<Rightarrow>
            if IsNotFound err then
              (case client_Create Ingresses ingresses ingresses_update
                      (key_of (ingress_Meta ing)) ing c1 of
                 (Some err', c2) \<Rightarrow> ((Result False, Some err'), c2)
               | (None, c2) \<Rightarrow> ((Result True, None), c2))
            else ((Result False, Some err), c1)
        | (Inr foundIng, c1) \<Rightarrow> reconcileStatus P m found svc c1)"

text \<open>\<open>Reconcile\<close>, the service step.\<close>

definition reconcileService :: "platform \<Rightarrow> ModelServe \<Rightarrow> Deployment \<Rightarrow> client \<Rightarrow> outcome" where
  "reconcileService P m found c =
    (let svc = serviceForModelServe m
     in case client_Get Services services (key_of (service_Meta svc)) c of
          (Inl err, c1) \<Rightarrow>
            if IsNotFound err then
              (case client_Create Services services services_update
                      (key_of (service_Meta svc)) svc c1 of
                 (Some err', c2) \<Rightarrow> ((Result False, Some err'), c2)
               | (None, c2) \<Rightarrow> ((Result True, None), c2))
            else ((Result False, Some err), c1)
        | (Inr foundSvc, c1) \<Rightarrow> reconcileIngress P m found svc c1)"

text \<open>\<open>Reconcile\<close>, the deployment step. The error of the status update to
  \<open>Downloading\<close> is only logged, and that of the update to \<open>Failed\<close> is dropped.\<close>

definition reconcileDeployment :: "platform \<Rightarrow> ModelServe \<Rightarrow> client \<Rightarrow> outcome" where
  "reconcileDeployment P m c =
    (let dep = deploymentForModelServe P m
     in case client_Get Deployments deployments (key_of (deployment_Meta dep)) c of
          (Inl err, c1) \<Rightarrow>
            if IsNotFound err then
              (let m1 = m\<lparr>Status := (Status m)\<lparr>Phase := ''Downloading'',
                                               Message := ''Downloading model from MinIO''\<rparr>\<rparr>;
                   c2 = snd (client_Status_Update m1 c1)
               in case client_Create Deployments deployments deployments_update
                         (key_of (deployment_Meta dep)) dep c2 of
                    (Some err', c3) \<Rightarrow>
                      (let m2 = m1\<lparr>Status := (Status m1)\<lparr>Phase := ''Failed'',
                                      Message := ''Failed to create deployment: '' @ ErrorText err'\<rparr>\<rparr>;
                           c4 = snd (client_Status_Update m2 c3)
                       in ((Result False, Some err'), c4))
                  | (None, c3) \<Rightarrow> ((Result True, None), c3))
            else ((Result False, Some err), c1)
        | (Inr found, c1) \<Rightarrow> reconcileService P m found c1)"

text \<open>\<open>Reconcile\<close>, from the top: fetch the object, set the initial phase, create the
  middleware, then the steps above.\<close>

definition Reconcile :: "platform \<Rightarrow> key \<Rightarrow> client \<Rightarrow> outcome" where
  "Reconcile P req c =
    (case client_Get ModelServes modelserves req c of
       (Inl err, c1) \<Rightarrow>
         if IsNotFound err then ((Result False, None), c1)
         else ((Result False, Some err), c1)
     | (Inr modelServe, c1) \<Rightarrow>
         (case (if Phase (Status modelServe) = [] then
                  (let m1 = modelServe\<lparr>Status := (Status modelServe)
                              \<lparr>Phase := ''Pending'', Message := ''Initializing model server''\<rparr>\<rparr>
                   in case client_Status_Update m1 c1 of
                        (Some err, c2) \<Rightarrow> (Inl err, c2)
                      | (None, c2) \<Rightarrow> (Inr m1, c2))
                else (Inr modelServe, c1)) of
            (Inl err, c2) \<Rightarrow> ((Result False, Some err), c2)
          | (Inr m, c2) \<Rightarrow>
              (case createStripPrefixMiddleware m c2 of
                 (Some err, c3) \<Rightarrow> ((Result False, Some err), c3)
               | (None, c3) \<Rightarrow> reconcileDeployment P m c3)))"

text \<open>For the proofs: the status and the \<open>needsStatusUpdate\<close> flag that the last part
  of \<open>Reconcile\<close> arrives at, as a function of the pods it was given by the listing (none
  when the listing failed).\<close>

definition observedStatus ::
  "platform \<Rightarrow> ModelServe \<Rightarrow> Deployment \<Rightarrow> Service \<Rightarrow> Pod list \<Rightarrow> ModelServeStatus \<times> bool" where
  "observedStatus P m found svc items =
    (if 0 < sint (deployment_AvailableReplicas found)
     then recordPodName items (markRunning P (observedFields m found svc))
     else markPending (observedFields m found svc))"

section \<open>Runs and external events\<close>

text \<open>A run of \<open>Reconcile\<close> on a store, with the faults the environment injects into
  its calls, one after the other (no fault once the list is used up).\<close>

definition reconcile_run :: "platform \<Rightarrow> key \<Rightarrow> api_error option list \<Rightarrow> cluster \<Rightarrow> outcome" where
  "reconcile_run P req fs s = Reconcile P req \<lparr>store = s, faults = fs, calls = []\<rparr>"

definition is_Create :: "call \<times> api_error option \<Rightarrow> bool" where
  "is_Create x = (case fst x of Create res k \<Rightarrow> True | _ \<Rightarrow> False)"

definition is_StatusUpdate :: "call \<times> api_error option \<Rightarrow> bool" where
  "is_StatusUpdate x = (case fst x of StatusUpdate m \<Rightarrow> True | _ \<Rightarrow> False)"

text \<open>The phases that reached the store: those of the status updates that succeeded.\<close>

fun phases_written :: "(call \<times> api_error option) list \<Rightarrow> string list" where
  "phases_written [] = []"
| "phases_written ((StatusUpdate m, None) # xs) = Phase (Status m) # phases_written xs"
| "phases_written (x # xs) = phases_written xs"

text \<open>What happens to the cluster between reconciles: the workload controller reports the
  number of available replicas of the deployment, and the pods change. A reconcile is
  an event too, with the clock value it reads; in this history it meets no fault.\<close>

datatype event = Reconciled int64 | Available int32 | PodsChanged "Pod list"

definition reportAvailable :: "key \<Rightarrow> int32 \<Rightarrow> cluster \<Rightarrow> cluster" where
  "reportAvailable k n s =
     (case deployments s k of
        None \<Rightarrow> s
      | Some d \<Rightarrow> s\<lparr>deployments := (deployments s)(k \<mapsto> d\<lparr>deployment_AvailableReplicas := n\<rparr>)\<rparr>)"

fun history :: "platform \<Rightarrow> key \<Rightarrow> event list \<Rightarrow> cluster \<times> (call \<times> api_error option) list
                  \<Rightarrow> cluster \<times> (call \<times> api_error option) list" where
  "history P req [] acc = acc"
| "history P req (Reconciled t # evs) (s, tr) =
     (let c = snd (reconcile_run (P\<lparr>time_now := t\<rparr>) req [] s)
      in history P req evs (store c, tr @ calls c))"
| "history P req (Available n # evs) (s, tr) = history P req evs (reportAvailable req n s, tr)"
| "history P req (PodsChanged ps # evs) (s, tr) = history P req evs (s\<lparr>pods := ps\<rparr>, tr)"

section \<open>Concrete objects for evaluating the definitions\<close>

definition emptyStatus :: ModelServeStatus where
  "emptyStatus =
     \<lparr>AvailableReplicas = 0, Phase = [], GatewayURL = [], ServiceName = [], PodName = [],
      StartedAt = None, Message = []\<rparr>"

text \<open>The request of the end-to-end scenario: only the three required fields are given.\<close>

definition demo :: ModelServe where
  "demo =
     \<lparr>Meta = \<lparr>Name = ''demo'', Namespace = ''default'', Labels = [], Annotations = []\<rparr>,
      Spec = \<lparr>ModelName = ''demo'', ModelUUID = ''u-1'', MinIOPath = ''models/demo.bin'',
              MinIOEndpoint = [], MinIOBucket = [], Image = [], Replicas = None,
              RuntimeParams = [], MemoryLimit = 0, CPULimit = 0\<rparr>,
      Status = emptyStatus\<rparr>"

definition demo_key :: key where
  "demo_key = (''default'', ''demo'')"

definition emptyCluster :: cluster where
  "emptyCluster =
     \<lparr>modelserves = Map.empty, configmaps = Map.empty, deployments = Map.empty,
      services = Map.empty, ingresses = Map.empty, pods = []\<rparr>"

definition demoCluster :: cluster where
  "demoCluster = emptyCluster\<lparr>modelserves := [demo_key \<mapsto> demo]\<rparr>"

text \<open>A stand-in platform: no environment variable set, the clock at 1000, the identity as
  base64 codec, the key followed by the message without its dots as MAC, and a JSON reader
  that knows two payloads.\<close>

definition stub_platform :: platform where
  "stub_platform =
     \<lparr>getenv = (\<lambda>name. []),
      time_now = 1000,
      b64_decode = (\<lambda>s. Some s),
      b64_encode = (\<lambda>s. s),
      hmac_sha256 = (\<lambda>k msg. filter (\<lambda>c. c \<noteq> CHR ''.'') (k @ msg)),
      json_unmarshal = (\<lambda>s.
        if s = ''internal-2000'' then Some \<lparr>Sub = ''gateway'', Type = ''internal'', Exp = 2000, Iat = 0\<rparr>
        else if s = ''guest-2000'' then Some \<lparr>Sub = ''visitor'', Type = ''guest'', Exp = 2000, Iat = 0\<rparr>
        else None)\<rparr>"

text \<open>The demo request carrying an auth-token annotation.\<close>

definition with_token :: "string \<Rightarrow> ModelServe \<Rightarrow> ModelServe" where
  "with_token token r =
     r\<lparr>Meta := (Meta r)\<lparr>Annotations := [(''model.example.com/auth-token'', token)]\<rparr>\<rparr>"

definition good_token :: string where
  "good_token = ''hdr.internal-2000.your-secret-key-change-in-productionhdrinternal-2000''"

definition guest_token :: string where
  "guest_token = ''hdr.guest-2000.your-secret-key-change-in-productionhdrguest-2000''"

text \<open>A platform whose environment sets \<open>MINIO_ENDPOINT\<close>.\<close>

definition minio_platform :: platform where
  "minio_platform =
     stub_platform\<lparr>getenv := (\<lambda>name. if name = ''MINIO_ENDPOINT'' then ''s3.internal:9000'' else [])\<rparr>"

text \<open>The scenario of the demo request: the cluster after the first reconcile (the
  deployment is created), with the three children, with a running pod and one available
  replica, with the status that the reconciler then writes at clock value \<open>t\<close>, and
  after the workload has gone back to zero replicas.\<close>

definition demoPod :: Pod where
  "demoPod =
     \<lparr>pod_Meta = \<lparr>Name = ''demo-5c8f7b-x2k4q'', Namespace = ''default'',
                  Labels = [(''app'', ''model-serve''), (''model_serve_cr'', ''demo''),
                            (''pod-template-hash'', ''5c8f7b'')],
                  Annotations = []\<rparr>,
      pod_Phase = ''Running''\<rparr>"

definition downloadingCluster :: cluster where
  "downloadingCluster =
     \<lparr>modelserves = [demo_key \<mapsto> demo\<lparr>Status := emptyStatus
          \<lparr>Phase := ''Downloading'', Message := ''Downloading model from MinIO''\<rparr>\<rparr>],
      configmaps = [(''default'', ''demo-stripprefix'') \<mapsto> stripPrefixMiddleware demo],
      deployments = [demo_key \<mapsto> deploymentForModelServe stub_platform demo],
      services = Map.empty, ingresses = Map.empty, pods = []\<rparr>"

definition deployedCluster :: cluster where
  "deployedCluster =
     downloadingCluster\<lparr>services := [demo_key \<mapsto> serviceForModelServe demo],
                        ingresses := [demo_key \<mapsto> ingressForModelServe demo]\<rparr>"

definition readyCluster :: cluster where
  "readyCluster =
     deployedCluster\<lparr>deployments := [demo_key \<mapsto> (deploymentForModelServe stub_platform demo)
                                        \<lparr>deployment_AvailableReplicas := 1\<rparr>],
                     pods := [demoPod]\<rparr>"

definition servingStatus :: "int64 \<Rightarrow> ModelServeStatus" where
  "servingStatus t =
     \<lparr>AvailableReplicas = 1, Phase = ''Running'', GatewayURL = ''http://localhost/demo'',
      ServiceName = ''demo'', PodName = ''demo-5c8f7b-x2k4q'', StartedAt = Some t,
      Message = ''Model server is running''\<rparr>"

definition servingCluster :: "int64 \<Rightarrow> cluster" where
  "servingCluster t = readyCluster\<lparr>modelserves := [demo_key \<mapsto> demo\<lparr>Status := servingStatus t\<rparr>]\<rparr>"

definition idleCluster :: "int64 \<Rightarrow> cluster" where
  "idleCluster t =
     (servingCluster t)
       \<lparr>modelserves := [demo_key \<mapsto> demo\<lparr>Status := (servingStatus t)
            \<lparr>AvailableReplicas := 0, Phase := ''Pending'',
             Message := ''Waiting for pod to be ready''\<rparr>\<rparr>],
        deployments := [demo_key \<mapsto> (deploymentForModelServe stub_platform demo)
                                        \<lparr>deployment_AvailableReplicas := 0\<rparr>]\<rparr>"

text \<open>A new parent beside the children of an earlier object of the same name: the
  builders set no owner reference, so the children of a deleted \<open>ModelServe\<close> stay.\<close>

definition survivingCluster :: cluster where
  "survivingCluster = readyCluster\<lparr>modelserves := [demo_key \<mapsto> demo]\<rparr>"

section \<open>Auxiliary definitions for the proofs\<close>

text \<open>The pods that the listing of \<open>Reconcile\<close> returns when it meets no fault.\<close>

definition listedPods :: "ModelServe \<Rightarrow> cluster \<Rightarrow> Pod list" where
  "listedPods m s =
     filter (\<lambda>pod. Namespace (pod_Meta pod) = Namespace (Meta m)
                   \<and> matchesLabels (labelsForModelServe (Name (Meta m))) pod) (pods s)"

text \<open>The object in memory after the initial phase has been set, and the client after the
  first calls of a run without faults: the fetch with the initial status update, and the
  lookup of the middleware with its creation.\<close>

definition initPhase :: "ModelServe \<Rightarrow> ModelServe" where
  "initPhase m =
     (if Phase (Status m) = []
      then m\<lparr>Status := (Status m)\<lparr>Phase := ''Pending'', Message := ''Initializing model server''\<rparr>\<rparr>
      else m)"

definition afterInit :: "key \<Rightarrow> ModelServe \<Rightarrow> cluster \<Rightarrow> client" where
  "afterInit req m0 s =
    (let c1 = record_call (Get ModelServes req) None \<lparr>store = s, faults = [], calls = []\<rparr>
     in if Phase (Status m0) = []
        then record_call (StatusUpdate (initPhase m0)) None
               (c1\<lparr>store := modelserves_update (\<lambda>t. t(req \<mapsto> initPhase m0)) s\<rparr>)
        else c1)"

definition afterMiddleware :: "ModelServe \<Rightarrow> client \<Rightarrow> client" where
  "afterMiddleware m c =
    (let k = (Namespace (Meta m), Name (Meta m) @ ''-stripprefix'')
     in case configmaps (store c) k of
          None \<Rightarrow>
            record_call (Create ConfigMaps k) None
              ((record_call (Get ConfigMaps k)
                  (Some (NewNotFound ConfigMaps (Name (Meta m) @ ''-stripprefix''))) c)
               \<lparr>store := configmaps_update (\<lambda>t. t(k \<mapsto> stripPrefixMiddleware m)) (store c)\<rparr>)
        | Some found \<Rightarrow> record_call (Get ConfigMaps k) None c)"

text \<open>What every status update of a run that started from the store \<open>s\<close> with the parent
  \<open>m0\<close> carries: the parent's metadata and spec; the parent's start time, or the clock
  value when the update moves the phase into \<open>Running\<close>; and the phase \<open>Pending\<close> only
  for a parent without a phase or a workload without an available replica.\<close>

definition write_ok :: "platform \<Rightarrow> cluster \<Rightarrow> ModelServe \<Rightarrow> ModelServe \<Rightarrow> bool" where
  "write_ok P s m0 m =
    (Meta m = Meta m0 \<and> Spec m = Spec m0
     \<and> StartedAt (Status m) =
          (if Phase (Status m) = ''Running'' \<and> Phase (Status m0) \<noteq> ''Running''
           then Some (time_now P) else StartedAt (Status m0))
     \<and> (Phase (Status m) = ''Pending'' \<longrightarrow>
          Phase (Status m0) = []
          \<or> (\<exists>d. deployments s (key_of (Meta m0)) = Some d
                  \<and> \<not> 0 < sint (deployment_AvailableReplicas d))))"

text \<open>The invariant of a run: each status update sent is of that kind, no \<open>ModelServe\<close> is
  created, and the stored objects are those of \<open>s\<close>, but for the status of the parent when
  an update went through.\<close>

definition run_inv :: "platform \<Rightarrow> cluster \<Rightarrow> ModelServe \<Rightarrow> client \<Rightarrow> bool" where
  "run_inv P s m0 c =
    ((\<forall>m e. (StatusUpdate m, e) \<in> set (calls c) \<longrightarrow> write_ok P s m0 m)
     \<and> (\<forall>k e. (Create ModelServes k, e) \<notin> set (calls c))
     \<and> (modelserves (store c) = modelserves s
        \<or> (\<exists>m stored. (StatusUpdate m, None) \<in> set (calls c)
              \<and> modelserves s (key_of (Meta m0)) = Some stored
              \<and> modelserves (store c) =
                  (modelserves s)(key_of (Meta m0) \<mapsto> stored\<lparr>Status := Status m\<rparr>))))"

text \<open>What is known of the object in memory on the way to the status step.\<close>

definition in_memory :: "ModelServe \<Rightarrow> ModelServe \<Rightarrow> bool" where
  "in_memory m0 m =
    (Meta m = Meta m0 \<and> Spec m = Spec m0
     \<and> StartedAt (Status m) = StartedAt (Status m0)
     \<and> Phase (Status m) = (if Phase (Status m0) = [] then ''Pending'' else Phase (Status m0)))"

text \<open>A call that leaves the parent's metadata and spec alone: it is no creation of a
  \<open>ModelServe\<close>, and a status update carries the metadata and spec of the stored parent.\<close>

definition parent_write_ok :: "ModelServe option \<Rightarrow> call \<times> api_error option \<Rightarrow> bool" where
  "parent_write_ok parent x =
    (case fst x of
       Create res k \<Rightarrow> res \<noteq> ModelServes
     | StatusUpdate m \<Rightarrow>
         (case parent of
            None \<Rightarrow> False
          | Some m0 \<Rightarrow> Meta m = Meta m0 \<and> Spec m = Spec m0)
     | _ \<Rightarrow> True)"

text \<open>A create that the store rejected, and what a run has done about it: the error is
  the result of the run, without requeue; after a rejected deployment the last call is a
  status update to \<open>Failed\<close>, after any other rejected create nothing follows.\<close>

definition rejected_create :: "call \<times> api_error option \<Rightarrow> bool" where
  "rejected_create x = (case x of (Create res k, Some e) \<Rightarrow> True | _ \<Rightarrow> False)"

definition create_rejection_handled :: "outcome \<Rightarrow> bool" where
  "create_rejection_handled out =
    (\<forall>res k e. (Create res k, Some e) \<in> set (calls (snd out)) \<longrightarrow>
       snd (fst out) = Some e \<and> \<not> Requeue (fst (fst out))
       \<and> (if res = Deployments
           then \<exists>m x. last (calls (snd out)) = (StatusUpdate m, x)
                  \<and> Phase (Status m) = ''Failed''
                  \<and> Message (Status m) = ''Failed to create deployment: '' @ ErrorText e
                  \<and> (x = None \<longrightarrow>
                       map_option (Phase \<circ> Status) (modelserves (store (snd out)) (key_of (Meta m)))
                         = Some ''Failed'')
           else last (calls (snd out)) = (Create res k, Some e)))"

text \<open>A history in which the workload, once it has reported an available replica, does
  not report zero again: \<open>up\<close> tells whether it has reported one.\<close>

fun steady :: "bool \<Rightarrow> event list \<Rightarrow> bool" where
  "steady up [] = True"
| "steady up (Available n # evs) =
     (if 0 < sint n then steady True evs else \<not> up \<and> steady False evs)"
| "steady up (Reconciled t # evs) = steady up evs"
| "steady up (PodsChanged ps # evs) = steady up evs"

text \<open>The number of reconciles in a history.\<close>

fun reconciles :: "event list \<Rightarrow> nat" where
  "reconciles [] = 0"
| "reconciles (Reconciled t # evs) = Suc (reconciles evs)"
| "reconciles (Available n # evs) = reconciles evs"
| "reconciles (PodsChanged ps # evs) = reconciles evs"

text \<open>What the reconciler waits for before it sets \<open>Running\<close>: the workload has an
  available replica, and the network endpoint and the route exist.\<close>

definition childrenReady :: "key \<Rightarrow> cluster \<Rightarrow> bool" where
  "childrenReady req s =
     ((case deployments s req of
         None \<Rightarrow> False
       | Some d \<Rightarrow> 0 < sint (deployment_AvailableReplicas d))
      \<and> services s req \<noteq> None \<and> ingresses s req \<noteq> None)"

text \<open>How many of the workload, the network endpoint and the route exist, in the order
  in which the reconciler creates them.\<close>

definition children :: "key \<Rightarrow> cluster \<Rightarrow> nat" where
  "children req s =
     (if deployments s req = None then 0
      else if services s req = None then 1
      else if ingresses s req = None then 2 else 3)"

text \<open>The stages of a fresh object along such a history: the parent has no phase yet and
  no deployment; or it is \<open>Downloading\<close> and has one; or it is \<open>Running\<close> and its
  children are ready. The phases written so far are, up to repetition, the corresponding
  prefix of Pending, Downloading, Running.\<close>

definition lifecycle :: "key \<Rightarrow> bool \<Rightarrow> cluster \<times> (call \<times> api_error option) list \<Rightarrow> bool" where
  "lifecycle req up acc =
    (case modelserves (fst acc) req of
       None \<Rightarrow> False
     | Some m \<Rightarrow>
         key_of (Meta m) = req
         \<and> (case deployments (fst acc) req of
               None \<Rightarrow> True
             | Some d \<Rightarrow> up \<or> \<not> 0 < sint (deployment_AvailableReplicas d))
         \<and> (Phase (Status m) = [] \<and> deployments (fst acc) req = None
               \<and> phases_written (snd acc) = []
            \<or> Phase (Status m) = ''Downloading'' \<and> deployments (fst acc) req \<noteq> None
               \<and> remdups_adj (phases_written (snd acc)) = [''Pending'', ''Downloading'']
            \<or> Phase (Status m) = ''Running'' \<and> childrenReady req (fst acc)
               \<and> remdups_adj (phases_written (snd acc))
                    = [''Pending'', ''Downloading'', ''Running'']))"


section \<open>Admission: defaulting and validation\<close>

lemmas demo_defs =
  demo_def emptyStatus_def stub_platform_def with_token_def good_token_def guest_token_def

subsection \<open>What \<open>Default\<close> does to each field\<close>

lemma Default_Meta: "Meta (Default m) = Meta m"
  by (simp add: Default_def Let_def)

lemma Default_Status: "Status (Default m) = Status m"
  by (simp add: Default_def Let_def)

lemma Default_kept:
  "ModelName (Spec (Default m)) = ModelName (Spec m)"
  "ModelUUID (Spec (Default m)) = ModelUUID (Spec m)"
  "MinIOPath (Spec (Default m)) = MinIOPath (Spec m)"
  "RuntimeParams (Spec (Default m)) = RuntimeParams (Spec m)"
  by (simp_all add: Default_def Let_def)

lemma Default_Replicas:
  "Replicas (Spec (Default m)) = (case Replicas (Spec m) of None \<Rightarrow> Some 1 | Some n \<Rightarrow> Some n)"
  by (simp add: Default_def Let_def split: option.splits)

lemma Default_filled:
  "Image (Spec (Default m)) =
     (if Image (Spec m) = [] then ''ghcr.io/ggerganov/llama.cpp:server'' else Image (Spec m))"
  "MinIOEndpoint (Spec (Default m)) =
     (if MinIOEndpoint (Spec m) = [] then ''minio:9000'' else MinIOEndpoint (Spec m))"
  "MinIOBucket (Spec (Default m)) =
     (if MinIOBucket (Spec m) = [] then ''inference-models'' else MinIOBucket (Spec m))"
  "MemoryLimit (Spec (Default m)) = (if MemoryLimit (Spec m) = 0 then 4096 else MemoryLimit (Spec m))"
  "CPULimit (Spec (Default m)) = (if CPULimit (Spec m) = 0 then 2000 else CPULimit (Spec m))"
  by (simp_all add: Default_def Let_def)

text \<open>Defaulting precedes validation: the demo request is admitted with replicas 1, memory
  limit 4096 and CPU limit 2000.\<close>

lemma Default_demo_admitted:
  "ValidateCreate stub_platform (Default demo) = None"
  "Replicas (Spec (Default demo)) = Some 1"
  "MemoryLimit (Spec (Default demo)) = 4096"
  "CPULimit (Spec (Default demo)) = 2000"
  by (simp_all add: ValidateCreate_def validateJWT_def Default_Replicas Default_filled
        Default_kept Default_Meta demo_defs)

subsection \<open>Bounds\<close>

text \<open>On create, each of the three bounds is enforced; on update, only the one on replicas.\<close>

lemma ValidateCreate_rejects_over_bound:
  assumes "(case Replicas (Spec r) of None \<Rightarrow> False | Some n \<Rightarrow> 5 < sint n)
           \<or> 32768 < sint (MemoryLimit (Spec r)) \<or> 16000 < sint (CPULimit (Spec r))"
  shows "ValidateCreate P r \<noteq> None"
  using assms by (auto simp: ValidateCreate_def split: option.splits)

lemma ValidateUpdate_rejects_replicas:
  assumes "Replicas (Spec r) = Some n" and "5 < sint n"
  shows "ValidateUpdate P r old \<noteq> None"
  using assms by (auto simp: ValidateUpdate_def split: option.splits)

text \<open>
  C1 (the code departs from the claim). Validation should reject a candidate with
  \<open>memoryLimit > 32768\<close> or \<open>cpuLimit > 16000\<close> on update as on create.
  \<open>ValidateUpdate\<close> checks the token and the replicas only: an update that raises the
  memory limit to 40000, or the CPU limit to 20000, is accepted, while \<open>ValidateCreate\<close>
  rejects the very same object.
\<close>

theorem ValidateUpdate_accepts_memoryLimit_40000:
  "ValidateUpdate stub_platform (Default (demo\<lparr>Spec := (Spec demo)\<lparr>MemoryLimit := 40000\<rparr>\<rparr>))
     (Default demo) = None
   \<and> ValidateCreate stub_platform (Default (demo\<lparr>Spec := (Spec demo)\<lparr>MemoryLimit := 40000\<rparr>\<rparr>))
     = Some MemoryLimitExceed
   \<and> ValidateUpdate stub_platform (Default (demo\<lparr>Spec := (Spec demo)\<lparr>CPULimit := 20000\<rparr>\<rparr>))
     (Default demo) = None
   \<and> ValidateCreate stub_platform (Default (demo\<lparr>Spec := (Spec demo)\<lparr>CPULimit := 20000\<rparr>\<rparr>))
     = Some CPULimitExceed"
  by (simp add: ValidateUpdate_def ValidateCreate_def validateJWT_def Default_Replicas
        Default_filled Default_kept Default_Meta demo_defs)

subsection \<open>Replicas after admission\<close>

lemma ValidateCreate_None_replicas:
  assumes "ValidateCreate P r = None"
  shows "\<not> (case Replicas (Spec r) of None \<Rightarrow> False | Some n \<Rightarrow> 5 < sint n)"
  using assms by (simp add: ValidateCreate_def split: option.splits if_splits)

text \<open>
  C4, as claimed, fails: a request that sets \<open>replicas\<close> to 0 passes defaulting (which
  fills in 1 only when the field is unset) and create-time validation (which has an upper
  bound only), and keeps \<open>replicas = 0\<close>.
\<close>

theorem replicas_zero_admitted:
  "ValidateCreate stub_platform (Default (demo\<lparr>Spec := (Spec demo)\<lparr>Replicas := Some 0\<rparr>\<rparr>)) = None
   \<and> Replicas (Spec (Default (demo\<lparr>Spec := (Spec demo)\<lparr>Replicas := Some 0\<rparr>\<rparr>))) = Some 0
   \<and> \<not> (1 \<le> sint (0 :: int32))"
  by (simp add: ValidateCreate_def validateJWT_def Default_Replicas Default_filled
        Default_kept Default_Meta demo_defs)

text \<open>
  C4 (amended). For every candidate that passes defaulting followed by create-time
  validation, \<open>replicas\<close> is set and is at most 5; it is 1 when the candidate left it
  unset, and the candidate's own value otherwise (no lower bound is enforced on it).
\<close>

theorem admitted_replicas_at_most_5:
  assumes "ValidateCreate P (Default r) = None"
  shows "\<exists>n. Replicas (Spec (Default r)) = Some n \<and> sint n \<le> 5
             \<and> (case Replicas (Spec r) of None \<Rightarrow> n = 1 | Some k \<Rightarrow> n = k)"
proof (cases "Replicas (Spec r)")
  case None
  then show ?thesis by (simp add: Default_Replicas)
next
  case (Some k)
  with ValidateCreate_None_replicas [OF assms] show ?thesis
    by (simp add: Default_Replicas)
qed

text \<open>The hypothesis holds at the demo request, which ends with one replica.\<close>

theorem admitted_replicas_at_most_5_witness:
  "ValidateCreate stub_platform (Default demo) = None
   \<and> (\<exists>n. Replicas (Spec (Default demo)) = Some n \<and> sint n \<le> 5 \<and> n = 1)"
proof -
  have h: "ValidateCreate stub_platform (Default demo) = None"
    by (rule Default_demo_admitted)
  have "Replicas (Spec demo) = None" by (simp add: demo_def)
  with admitted_replicas_at_most_5 [OF h] h show ?thesis by simp
qed

subsection \<open>The signed token\<close>

text \<open>
  C7. \<open>validateJWT\<close> accepts exactly when the auth-token annotation is absent or the token
  is one the specification admits (\<open>spec_admits\<close>): three decodable segments, the
  signature segment equal to the encoded HMAC-SHA256 of \<open>header.payload\<close> under the shared
  secret, expiry not in the past, type \<open>internal\<close> or \<open>user\<close>. Every other token is
  rejected. The code compares the signature segment as text and never decodes it; that it
  decodes follows from the codec decoding what it encoded.
\<close>

theorem validateJWT_accepts_iff:
  assumes "\<And>x. b64_decode P (b64_encode P x) \<noteq> None"
  shows "(validateJWT P r = None) = spec_admits P r"
  using assms
  by (auto simp: validateJWT_def spec_admits_def spec_token_ok_def Let_def
           split: option.splits list.splits)

text \<open>On the stand-in platform the codec round-trips; a well-signed \<open>internal\<close> token is
  accepted and a well-signed \<open>guest\<close> token is rejected, by the code and by the
  specification alike.\<close>

theorem validateJWT_accepts_iff_witness:
  "(\<forall>x. b64_decode stub_platform (b64_encode stub_platform x) \<noteq> None)
   \<and> validateJWT stub_platform (with_token good_token demo) = None
   \<and> spec_admits stub_platform (with_token good_token demo)
   \<and> validateJWT stub_platform (with_token guest_token demo) = Some (InvalidTokenType ''guest'')
   \<and> \<not> spec_admits stub_platform (with_token guest_token demo)"
proof -
  have rt: "\<And>x. b64_decode stub_platform (b64_encode stub_platform x) \<noteq> None"
    by (simp add: stub_platform_def)
  have a: "validateJWT stub_platform (with_token good_token demo) = None"
    by (simp add: validateJWT_def jwtSecret_def demo_defs)
  have b: "validateJWT stub_platform (with_token guest_token demo)
             = Some (InvalidTokenType ''guest'')"
    by (simp add: validateJWT_def jwtSecret_def demo_defs)
  from validateJWT_accepts_iff [of stub_platform "with_token good_token demo", OF rt]
       validateJWT_accepts_iff [of stub_platform "with_token guest_token demo", OF rt] a b rt
  show ?thesis by simp
qed

text \<open>The rejections of the specification's test list, one by one: a signature that does
  not match, an expiry in the past, a token that is not three segments; and the acceptance
  of a request without the annotation.\<close>

lemma validateJWT_examples:
  "validateJWT stub_platform (with_token ''hdr.internal-2000.forged'' demo)
     = Some InvalidJWTSignature"
  "validateJWT (stub_platform\<lparr>time_now := 2001\<rparr>) (with_token good_token demo) = Some JWTExpired"
  "validateJWT stub_platform (with_token ''hdr.internal-2000'' demo) = Some InvalidJWTFormat"
  "validateJWT stub_platform demo = None"
  by (simp_all add: validateJWT_def jwtSecret_def demo_defs)

section \<open>The workload builder and defaulting\<close>

text \<open>
  C9, as claimed, fails: the builder fills an empty MinIO endpoint from the environment
  variable \<open>MINIO_ENDPOINT\<close> (and an empty bucket from \<open>MINIO_BUCKET\<close>), while \<open>Default\<close>
  fills in the constants \<open>minio:9000\<close> and \<open>inference-models\<close>. With the variable set to
  another value, the deployment of the demo request differs from that of its defaulted
  form.
\<close>

theorem deployment_differs_under_MINIO_ENDPOINT:
  "deploymentForModelServe minio_platform demo
     \<noteq> deploymentForModelServe minio_platform (Default demo)"
  by (simp add: deploymentForModelServe_def Default_filled Default_kept Default_Meta
        Default_Replicas demo_defs minio_platform_def getEnvOrDefault_def downloadScript_def
        Let_def)

text \<open>
  C9 (amended). The workload builder produces the same Deployment whether or not
  defaulting ran first, provided that each of the MinIO endpoint and bucket is either set
  in the object or resolved by the builder's environment lookup to the constant that
  \<open>Default\<close> fills in (as it is when the variable is unset). The other defaults (replicas 1,
  runtime image, memory limit 4096, CPU limit 2000) are re-applied identically.
\<close>

theorem deployment_after_Default:
  assumes e: "MinIOEndpoint (Spec m) = []
              \<Longrightarrow> getEnvOrDefault P ''MINIO_ENDPOINT'' ''minio:9000'' = ''minio:9000''"
      and b: "MinIOBucket (Spec m) = []
              \<Longrightarrow> getEnvOrDefault P ''MINIO_BUCKET'' ''inference-models'' = ''inference-models''"
  shows "deploymentForModelServe P (Default m) = deploymentForModelServe P m"
proof -
  let ?d = "Default m"
  have replicas: "(case Replicas (Spec ?d) of None \<Rightarrow> Some 1 | Some n \<Rightarrow> Some n)
                = (case Replicas (Spec m) of None \<Rightarrow> Some 1 | Some n \<Rightarrow> Some n)"
    by (simp add: Default_Replicas split: option.splits)
  have image:
    "(if Image (Spec ?d) = [] then ''ghcr.io/ggerganov/llama.cpp:server'' else Image (Spec ?d))
   = (if Image (Spec m) = [] then ''ghcr.io/ggerganov/llama.cpp:server'' else Image (Spec m))"
    by (simp add: Default_filled)
  have endpoint:
    "(if MinIOEndpoint (Spec ?d) = [] then getEnvOrDefault P ''MINIO_ENDPOINT'' ''minio:9000''
      else MinIOEndpoint (Spec ?d))
   = (if MinIOEndpoint (Spec m) = [] then getEnvOrDefault P ''MINIO_ENDPOINT'' ''minio:9000''
      else MinIOEndpoint (Spec m))"
    using e by (simp add: Default_filled)
  have bucket:
    "(if MinIOBucket (Spec ?d) = [] then getEnvOrDefault P ''MINIO_BUCKET'' ''inference-models''
      else MinIOBucket (Spec ?d))
   = (if MinIOBucket (Spec m) = [] then getEnvOrDefault P ''MINIO_BUCKET'' ''inference-models''
      else MinIOBucket (Spec m))"
    using b by (simp add: Default_filled)
  have memory: "(if MemoryLimit (Spec ?d) = 0 then 4096 else MemoryLimit (Spec ?d))
              = (if MemoryLimit (Spec m) = 0 then 4096 else MemoryLimit (Spec m))"
    by (simp add: Default_filled)
  have cpu: "(if CPULimit (Spec ?d) = 0 then 2000 else CPULimit (Spec ?d))
           = (if CPULimit (Spec m) = 0 then 2000 else CPULimit (Spec m))"
    by (simp add: Default_filled)
  show ?thesis
    unfolding deploymentForModelServe_def
    by (simp only: replicas image endpoint bucket memory cpu Default_Meta Default_kept)
qed

text \<open>With no environment variable set, both hypotheses hold for the demo request, whose
  endpoint and bucket are empty.\<close>

theorem deployment_after_Default_witness:
  "MinIOEndpoint (Spec demo) = [] \<and> MinIOBucket (Spec demo) = []
   \<and> getEnvOrDefault stub_platform ''MINIO_ENDPOINT'' ''minio:9000'' = ''minio:9000''
   \<and> getEnvOrDefault stub_platform ''MINIO_BUCKET'' ''inference-models'' = ''inference-models''
   \<and> deploymentForModelServe stub_platform (Default demo)
       = deploymentForModelServe stub_platform demo"
proof -
  have e: "getEnvOrDefault stub_platform ''MINIO_ENDPOINT'' ''minio:9000'' = ''minio:9000''"
    by (simp add: getEnvOrDefault_def stub_platform_def)
  have b: "getEnvOrDefault stub_platform ''MINIO_BUCKET'' ''inference-models''
             = ''inference-models''"
    by (simp add: getEnvOrDefault_def stub_platform_def)
  have "MinIOEndpoint (Spec demo) = []" and "MinIOBucket (Spec demo) = []"
    by (simp_all add: demo_def)
  with deployment_after_Default [of demo stub_platform, OF e b] e b show ?thesis by simp
qed

text \<open>\<open>strings.Fields\<close> at a few inputs: ASCII white space, U+00A0 and U+2028, and a
  lone lead byte.\<close>

lemma Fields_examples:
  "Fields [] = []"
  "Fields ''--ctx-size  2048 --threads 4 '' = [''--ctx-size'', ''2048'', ''--threads'', ''4'']"
  "Fields [CHR ''a'', CHR 0xC2, CHR 0xA0, CHR ''b'', CHR 0xE2, CHR 0x80, CHR 0xA8, CHR 0x20,
           CHR ''c'', CHR 0xC2] = [''a'', ''b'', [CHR ''c'', CHR 0xC2]]"
  by (simp_all add: Fields_def space_width_def unicode_spaces_def)

section \<open>The client: what a call does to the store and to the record of calls\<close>

lemma child_keys [simp]:
  "key_of (deployment_Meta (deploymentForModelServe P m)) = key_of (Meta m)"
  "key_of (service_Meta (serviceForModelServe m)) = key_of (Meta m)"
  "key_of (ingress_Meta (ingressForModelServe m)) = key_of (Meta m)"
  "key_of (configmap_Meta (stripPrefixMiddleware m)) = (Namespace (Meta m), Name (Meta m) @ ''-stripprefix'')"
  "Name (service_Meta (serviceForModelServe m)) = Name (Meta m)"
  by (simp_all add: key_of_def deploymentForModelServe_def serviceForModelServe_def
        ingressForModelServe_def stripPrefixMiddleware_def Let_def)

lemma api_error_Reason [simp]:
  "Reason (NewNotFound res name) = NotFound"
  "Reason (NewAlreadyExists res name) = AlreadyExists"
  "IsNotFound (NewNotFound res name)"
  by (simp_all add: NewNotFound_def NewAlreadyExists_def IsNotFound_def)

lemma key_of_proj [simp]: "fst (key_of meta) = Namespace meta" "snd (key_of meta) = Name meta"
  by (simp_all add: key_of_def)

lemma record_call_simps [simp]:
  "store (record_call cl r c) = store c"
  "faults (record_call cl r c) = faults c"
  "calls (record_call cl r c) = calls c @ [(cl, r)]"
  by (simp_all add: record_call_def)

lemma update_frames [simp]:
  "modelserves (configmaps_update f st) = modelserves st"
  "modelserves (deployments_update g st) = modelserves st"
  "modelserves (services_update h st) = modelserves st"
  "modelserves (ingresses_update i st) = modelserves st"
  by simp_all

lemma deployment_AvailableReplicas_0 [simp]:
  "deployment_AvailableReplicas (deploymentForModelServe P m) = 0"
  by (simp add: deploymentForModelServe_def Let_def)

text \<open>Whatever the faults, a call leaves the store alone or changes it in one known way,
  and appends itself with its response to the calls.\<close>

lemma Get_effect:
  assumes "client_Get res table k c = (r, c1)"
  shows "store c1 = store c"
    and "calls c1 = calls c @ [(Get res k, case r of Inl e \<Rightarrow> Some e | Inr obj \<Rightarrow> None)]"
    and "\<And>obj. r = Inr obj \<Longrightarrow> table (store c) k = Some obj"
  using assms
  by (auto simp: client_Get_def next_fault_def record_call_def Let_def
        split: list.splits option.splits)

lemma Create_effect:
  assumes "client_Create res table table_update k obj c = (r, c1)"
  shows "calls c1 = calls c @ [(Create res k, r)]"
    and "store c1 = (case r of None \<Rightarrow> table_update (\<lambda>t. t(k \<mapsto> obj)) (store c) | Some e \<Rightarrow> store c)"
  using assms
  by (auto simp: client_Create_def next_fault_def record_call_def Let_def
        split: list.splits option.splits)

lemma Status_Update_effect:
  assumes "client_Status_Update m c = (r, c1)"
  shows "calls c1 = calls c @ [(StatusUpdate m, r)]"
    and "store c1 =
          (case r of
             None \<Rightarrow> modelserves_update (\<lambda>t. t(key_of (Meta m) \<mapsto>
                        (the (modelserves (store c) (key_of (Meta m))))\<lparr>Status := Status m\<rparr>)) (store c)
           | Some e \<Rightarrow> store c)"
    and "r = None \<Longrightarrow> modelserves (store c) (key_of (Meta m)) \<noteq> None"
  using assms
  by (auto simp: client_Status_Update_def next_fault_def record_call_def Let_def
        split: list.splits option.splits)

lemma List_Pods_effect:
  assumes "client_List_Pods ns ls c = (r, c1)"
  shows "store c1 = store c"
    and "calls c1 = calls c @ [(List Pods ns ls, case r of Inl e \<Rightarrow> Some e | Inr xs \<Rightarrow> None)]"
  using assms
  by (auto simp: client_List_Pods_def next_fault_def record_call_def
        split: list.splits option.splits)

text \<open>Without a pending fault, the response is decided by the store.\<close>

lemma Get_nofault:
  assumes "faults c = []"
  shows "client_Get res table k c =
    (case table (store c) k of
       None \<Rightarrow> (Inl (NewNotFound res (snd k)),
                record_call (Get res k) (Some (NewNotFound res (snd k))) c)
     | Some obj \<Rightarrow> (Inr obj, record_call (Get res k) None c))"
  using assms by (simp add: client_Get_def next_fault_def Let_def split: option.splits)

lemma Create_nofault:
  assumes "faults c = []" and "table (store c) k = None"
  shows "client_Create res table table_update k obj c =
    (None, record_call (Create res k) None (c\<lparr>store := table_update (\<lambda>t. t(k \<mapsto> obj)) (store c)\<rparr>))"
  using assms by (simp add: client_Create_def next_fault_def)

lemma Status_Update_nofault:
  assumes "faults c = []" and "modelserves (store c) (key_of (Meta m)) = Some stored"
  shows "client_Status_Update m c =
    (None, record_call (StatusUpdate m) None
       (c\<lparr>store := modelserves_update
              (\<lambda>t. t(key_of (Meta m) \<mapsto> stored\<lparr>Status := Status m\<rparr>)) (store c)\<rparr>))"
  using assms by (simp add: client_Status_Update_def next_fault_def)

lemma List_Pods_nofault:
  assumes "faults c = []"
  shows "client_List_Pods ns ls c =
    (Inr (filter (\<lambda>pod. Namespace (pod_Meta pod) = ns \<and> matchesLabels ls pod) (pods (store c))),
     record_call (List Pods ns ls) None c)"
  using assms by (simp add: client_List_Pods_def next_fault_def)

section \<open>The status that a reconcile computes\<close>

text \<open>\<open>reconcileStatus\<close> lists the pods when the workload has an available replica,
  computes \<open>observedStatus\<close>, and writes it when \<open>needsStatusUpdate\<close> is set.\<close>

lemma recordPodName_Nil [simp]: "recordPodName [] x = x"
  by (simp add: recordPodName_def split: prod.splits)

lemma reconcileStatus_alt:
  "reconcileStatus P m found svc c =
    (let (r, c5) =
           (if 0 < sint (deployment_AvailableReplicas found)
            then client_List_Pods (Namespace (Meta m)) (labelsForModelServe (Name (Meta m))) c
            else (Inr [], c));
         x5 = observedStatus P m found svc (case r of Inl e \<Rightarrow> [] | Inr items \<Rightarrow> items)
     in if snd x5 then
          (case client_Status_Update (m\<lparr>Status := fst x5\<rparr>) c5 of
             (Some err, c6) \<Rightarrow> ((Result False, Some err), c6)
           | (None, c6) \<Rightarrow> ((Result False, None), c6))
        else ((Result False, None), c5))"
  by (auto simp: reconcileStatus_def observedStatus_def Let_def
        split: prod.splits sum.splits)

lemma observedFields_frame:
  "StartedAt (fst (observedFields m found svc)) = StartedAt (Status m)"
  "Phase (fst (observedFields m found svc)) = Phase (Status m)"
  "PodName (fst (observedFields m found svc)) = PodName (Status m)"
  "Message (fst (observedFields m found svc)) = Message (Status m)"
  by (simp_all add: observedFields_def Let_def split: prod.splits)

lemma observedFields_sets:
  "AvailableReplicas (fst (observedFields m found svc)) = deployment_AvailableReplicas found"
  "ServiceName (fst (observedFields m found svc)) = Name (service_Meta svc)"
  "GatewayURL (fst (observedFields m found svc)) = ''http://localhost/'' @ Name (Meta m)"
  by (simp_all add: observedFields_def Let_def split: prod.splits)

lemma observedFields_unchanged:
  "\<not> snd (observedFields m found svc) \<Longrightarrow> fst (observedFields m found svc) = Status m"
  by (simp add: observedFields_def Let_def split: prod.splits if_splits)

lemma observedFields_idem:
  assumes "AvailableReplicas (Status m) = deployment_AvailableReplicas found"
      and "ServiceName (Status m) = Name (service_Meta svc)"
      and "GatewayURL (Status m) = ''http://localhost/'' @ Name (Meta m)"
  shows "observedFields m found svc = (Status m, False)"
  using assms by (simp add: observedFields_def Let_def)

lemma observedStatus_Phase:
  "Phase (fst (observedStatus P m found svc items)) =
     (if 0 < sint (deployment_AvailableReplicas found) then ''Running''
      else if Phase (Status m) \<noteq> ''Downloading'' \<and> Phase (Status m) \<noteq> ''Failed'' then ''Pending''
      else Phase (Status m))"
  using observedFields_frame [of m found svc]
  by (cases "observedFields m found svc")
     (auto simp: observedStatus_def markRunning_def recordPodName_def markPending_def
           split: option.splits)

lemma observedStatus_StartedAt_raw:
  "StartedAt (fst (observedStatus P m found svc items)) =
     (if 0 < sint (deployment_AvailableReplicas found) \<and> Phase (Status m) \<noteq> ''Running''
      then Some (time_now P) else StartedAt (Status m))"
  using observedFields_frame [of m found svc]
  by (cases "observedFields m found svc")
     (auto simp: observedStatus_def markRunning_def recordPodName_def markPending_def
           split: option.splits)

lemma observedStatus_StartedAt:
  "StartedAt (fst (observedStatus P m found svc items)) =
     (if Phase (fst (observedStatus P m found svc items)) = ''Running''
         \<and> Phase (Status m) \<noteq> ''Running''
      then Some (time_now P) else StartedAt (Status m))"
proof -
  have "(Phase (fst (observedStatus P m found svc items)) = ''Running''
          \<and> Phase (Status m) \<noteq> ''Running'')
      = (0 < sint (deployment_AvailableReplicas found) \<and> Phase (Status m) \<noteq> ''Running'')"
    by (simp add: observedStatus_Phase)
  then show ?thesis by (simp only: observedStatus_StartedAt_raw)
qed

lemma observedStatus_sets:
  "AvailableReplicas (fst (observedStatus P m found svc items)) = deployment_AvailableReplicas found"
  "ServiceName (fst (observedStatus P m found svc items)) = Name (service_Meta svc)"
  "GatewayURL (fst (observedStatus P m found svc items)) = ''http://localhost/'' @ Name (Meta m)"
  using observedFields_sets [of m found svc]
  by (cases "observedFields m found svc";
      auto simp: observedStatus_def markRunning_def recordPodName_def markPending_def
           split: option.splits)+

lemma observedStatus_unchanged:
  "\<not> snd (observedStatus P m found svc items)
   \<Longrightarrow> fst (observedStatus P m found svc items) = Status m"
  using observedFields_unchanged [of m found svc]
  by (cases "observedFields m found svc")
     (auto simp: observedStatus_def markRunning_def recordPodName_def markPending_def
           split: option.splits if_splits)

lemma observedStatus_not_ready:
  "\<not> 0 < sint (deployment_AvailableReplicas found)
   \<Longrightarrow> observedStatus P m found svc items = observedStatus P m found svc []"
  by (simp add: observedStatus_def)

lemma observedStatus_Phase_nonempty:
  "Phase (Status m) \<noteq> [] \<Longrightarrow> Phase (fst (observedStatus P m found svc items)) \<noteq> []"
  by (simp add: observedStatus_Phase)

text \<open>Computed again from its own result, the status is the same; and no update is
  asked for, unless the phase is \<open>Pending\<close>: that branch sets the flag each time.\<close>

lemma observedStatus_fixpoint:
  assumes "0 < sint (deployment_AvailableReplicas found)
           \<or> Phase (fst (observedStatus P m found svc items)) = ''Downloading''
           \<or> Phase (fst (observedStatus P m found svc items)) = ''Failed''"
  shows "observedStatus P' (m\<lparr>Status := fst (observedStatus P m found svc items)\<rparr>) found svc items
           = (fst (observedStatus P m found svc items), False)"
proof -
  let ?st = "fst (observedStatus P m found svc items)"
  let ?m = "m\<lparr>Status := ?st\<rparr>"
  have f: "observedFields ?m found svc = (?st, False)"
    by (rule observedFields_idem [of ?m found svc, simplified])
       (simp_all add: observedStatus_sets)
  show ?thesis
  proof (cases "0 < sint (deployment_AvailableReplicas found)")
    case True
    then have ph: "Phase ?st = ''Running''" by (simp add: observedStatus_Phase)
    have pod: "recordPodName items (?st, False) = (?st, False)"
      using True observedFields_frame [of m found svc]
      by (cases "observedFields m found svc")
         (auto simp: observedStatus_def markRunning_def recordPodName_def
               split: option.splits if_splits)
    show ?thesis
      using True ph pod by (simp add: observedStatus_def [of P' ?m] f markRunning_def)
  next
    case False
    with assms have "Phase ?st = ''Downloading'' \<or> Phase ?st = ''Failed''" by simp
    with False show ?thesis
      by (auto simp: observedStatus_def [of P' ?m] f markPending_def)
  qed
qed

lemma observedStatus_idem:
  "fst (observedStatus P' (m\<lparr>Status := fst (observedStatus P m found svc items)\<rparr>) found svc items)
     = fst (observedStatus P m found svc items)"
proof -
  let ?st = "fst (observedStatus P m found svc items)"
  let ?m = "m\<lparr>Status := ?st\<rparr>"
  show ?thesis
  proof (cases "0 < sint (deployment_AvailableReplicas found)
           \<or> Phase ?st = ''Downloading'' \<or> Phase ?st = ''Failed''")
    case True
    from observedStatus_fixpoint [OF True] show ?thesis by simp
  next
    case False
    then have nr: "\<not> 0 < sint (deployment_AvailableReplicas found)" by simp
    have f: "observedFields ?m found svc = (?st, False)"
      by (rule observedFields_idem [of ?m found svc, simplified])
         (simp_all add: observedStatus_sets)
    from False have ph: "Phase (Status m) \<noteq> ''Downloading'' \<and> Phase (Status m) \<noteq> ''Failed''"
      by (auto simp: observedStatus_Phase split: if_splits)
    have first: "?st = (fst (observedFields m found svc))
                   \<lparr>Phase := ''Pending'', Message := ''Waiting for pod to be ready''\<rparr>"
      using nr ph observedFields_frame(2) [of m found svc]
      by (cases "observedFields m found svc") (simp add: observedStatus_def markPending_def)
    have "?st\<lparr>Phase := ''Pending'', Message := ''Waiting for pod to be ready''\<rparr> = ?st"
      unfolding first by simp
    with nr show ?thesis
      by (simp add: observedStatus_def [of P' ?m] f markPending_def)
  qed
qed

lemma observedStatus_quiet:
  assumes "Phase (fst (observedStatus P m found svc items)) \<noteq> ''Pending''"
  shows "\<not> snd (observedStatus P' (m\<lparr>Status := fst (observedStatus P m found svc items)\<rparr>)
                  found svc items)"
proof -
  from assms have "0 < sint (deployment_AvailableReplicas found)
           \<or> Phase (fst (observedStatus P m found svc items)) = ''Downloading''
           \<or> Phase (fst (observedStatus P m found svc items)) = ''Failed''"
    by (auto simp: observedStatus_Phase split: if_splits)
  from observedStatus_fixpoint [OF this] show ?thesis by simp
qed

section \<open>An invariant of every run, whatever the faults\<close>

lemma inv_Get:
  assumes "run_inv P s m0 c" and "client_Get res table k c = (r, c1)"
  shows "run_inv P s m0 c1"
  using assms(1) Get_effect(1,2) [OF assms(2)]
  by (auto simp: run_inv_def)

lemma inv_List:
  assumes "run_inv P s m0 c" and "client_List_Pods ns ls c = (r, c1)"
  shows "run_inv P s m0 c1"
  using assms(1) List_Pods_effect [OF assms(2)]
  by (auto simp: run_inv_def)

lemma inv_Create:
  assumes "run_inv P s m0 c" and "client_Create res table table_update k obj c = (r, c1)"
      and "res \<noteq> ModelServes" and "\<And>f st. modelserves (table_update f st) = modelserves st"
  shows "run_inv P s m0 c1"
  using assms(1,3,4) Create_effect [OF assms(2)]
  by (auto simp: run_inv_def split: option.splits)

lemma inv_Status_Update:
  assumes inv: "run_inv P s m0 c" and ok: "write_ok P s m0 m"
      and upd: "client_Status_Update m c = (r, c1)"
  shows "run_inv P s m0 c1"
proof -
  note eff = Status_Update_effect [OF upd]
  have key: "key_of (Meta m) = key_of (Meta m0)" using ok by (simp add: write_ok_def)
  have writes: "\<forall>m' e. (StatusUpdate m', e) \<in> set (calls c1) \<longrightarrow> write_ok P s m0 m'"
    using inv ok by (auto simp: eff(1) run_inv_def)
  have creates: "\<forall>k e. (Create ModelServes k, e) \<notin> set (calls c1)"
    using inv by (auto simp: eff(1) run_inv_def)
  show ?thesis
  proof (cases r)
    case (Some e)
    then have "store c1 = store c" by (simp add: eff(2))
    with inv writes creates show ?thesis
      by (auto simp: run_inv_def eff(1))
  next
    case None
    then obtain cur where cur: "modelserves (store c) (key_of (Meta m0)) = Some cur"
      using eff(3) key by auto
    have st: "modelserves (store c1)
                = (modelserves (store c))(key_of (Meta m0) \<mapsto> cur\<lparr>Status := Status m\<rparr>)"
      using None cur key by (simp add: eff(2))
    have last: "(StatusUpdate m, None) \<in> set (calls c1)"
      using None by (simp add: eff(1))
    from inv have disj: "modelserves (store c) = modelserves s
        \<or> (\<exists>mp stored. (StatusUpdate mp, None) \<in> set (calls c)
              \<and> modelserves s (key_of (Meta m0)) = Some stored
              \<and> modelserves (store c) =
                  (modelserves s)(key_of (Meta m0) \<mapsto> stored\<lparr>Status := Status mp\<rparr>))"
      by (simp add: run_inv_def)
    have "\<exists>stored. modelserves s (key_of (Meta m0)) = Some stored
              \<and> modelserves (store c1) =
                  (modelserves s)(key_of (Meta m0) \<mapsto> stored\<lparr>Status := Status m\<rparr>)"
      using disj
    proof (elim disjE exE conjE)
      assume same: "modelserves (store c) = modelserves s"
      with cur st show ?thesis by auto
    next
      fix mp stored
      assume s0: "modelserves s (key_of (Meta m0)) = Some stored"
        and sc: "modelserves (store c) =
                  (modelserves s)(key_of (Meta m0) \<mapsto> stored\<lparr>Status := Status mp\<rparr>)"
      from sc cur have "cur = stored\<lparr>Status := Status mp\<rparr>" by simp
      with st sc s0 show ?thesis by simp
    qed
    with writes creates last show ?thesis
      unfolding run_inv_def by blast
  qed
qed

lemma inv_reconcileStatus:
  assumes inv: "run_inv P s m0 c" and mem: "in_memory m0 m"
      and dep: "deployments s (key_of (Meta m0)) = Some found"
  shows "run_inv P s m0 (snd (reconcileStatus P m found svc c))"
proof -
  obtain r c5 where lst:
    "(if 0 < sint (deployment_AvailableReplicas found)
      then client_List_Pods (Namespace (Meta m)) (labelsForModelServe (Name (Meta m))) c
      else (Inr [], c)) = (r, c5)"
    by (cases "(if 0 < sint (deployment_AvailableReplicas found)
      then client_List_Pods (Namespace (Meta m)) (labelsForModelServe (Name (Meta m))) c
      else (Inr [], c))") 
  have inv5: "run_inv P s m0 c5"
    using lst inv inv_List by (auto split: if_splits)
  let ?items = "case r of Inl e \<Rightarrow> [] | Inr items \<Rightarrow> items"
  let ?x = "observedStatus P m found svc ?items"
  have running: "(Phase (Status m) \<noteq> ''Running'') = (Phase (Status m0) \<noteq> ''Running'')"
    using mem by (auto simp: in_memory_def)
  have started: "StartedAt (fst ?x) =
          (if Phase (fst ?x) = ''Running'' \<and> Phase (Status m0) \<noteq> ''Running''
           then Some (time_now P) else StartedAt (Status m0))"
  proof -
    have "StartedAt (Status m) = StartedAt (Status m0)" using mem by (simp add: in_memory_def)
    then show ?thesis by (simp only: observedStatus_StartedAt running)
  qed
  have pending: "Phase (fst ?x) = ''Pending'' \<Longrightarrow> \<not> 0 < sint (deployment_AvailableReplicas found)"
    by (simp add: observedStatus_Phase split: if_splits)
  have ok: "write_ok P s m0 (m\<lparr>Status := fst ?x\<rparr>)"
    unfolding write_ok_def
  proof (intro conjI impI)
    show "Meta (m\<lparr>Status := fst ?x\<rparr>) = Meta m0" using mem by (simp add: in_memory_def)
    show "Spec (m\<lparr>Status := fst ?x\<rparr>) = Spec m0" using mem by (simp add: in_memory_def)
    show "StartedAt (Status (m\<lparr>Status := fst ?x\<rparr>)) =
            (if Phase (Status (m\<lparr>Status := fst ?x\<rparr>)) = ''Running''
                \<and> Phase (Status m0) \<noteq> ''Running''
             then Some (time_now P) else StartedAt (Status m0))"
      using started by simp
    assume "Phase (Status (m\<lparr>Status := fst ?x\<rparr>)) = ''Pending''"
    then have "\<not> 0 < sint (deployment_AvailableReplicas found)" using pending by simp
    with dep show "Phase (Status m0) = []
          \<or> (\<exists>d. deployments s (key_of (Meta m0)) = Some d
                  \<and> \<not> 0 < sint (deployment_AvailableReplicas d))"
      by simp
  qed
  show ?thesis
  proof (cases "snd ?x")
    case False
    then show ?thesis using inv5 lst by (simp add: reconcileStatus_alt Let_def)
  next
    case True
    obtain e c6 where upd: "client_Status_Update (m\<lparr>Status := fst ?x\<rparr>) c5 = (e, c6)"
      by (cases "client_Status_Update (m\<lparr>Status := fst ?x\<rparr>) c5")
    from inv_Status_Update [OF inv5 ok upd] True lst upd show ?thesis
      by (simp add: reconcileStatus_alt Let_def split: option.splits)
  qed
qed

lemma inv_reconcileIngress:
  assumes inv: "run_inv P s m0 c" and mem: "in_memory m0 m"
      and dep: "deployments s (key_of (Meta m0)) = Some found"
  shows "run_inv P s m0 (snd (reconcileIngress P m found svc c))"
proof -
  obtain r c1 where g: "client_Get Ingresses ingresses (key_of (Meta m)) c = (r, c1)"
    by (cases "client_Get Ingresses ingresses (key_of (Meta m)) c")
  have inv1: "run_inv P s m0 c1" by (rule inv_Get [OF inv g])
  show ?thesis
  proof (cases r)
    case (Inr foundIng)
    with g inv_reconcileStatus [OF inv1 mem dep] show ?thesis
      by (simp add: reconcileIngress_def Let_def)
  next
    case (Inl err)
    obtain e c2 where cr: "client_Create Ingresses ingresses ingresses_update (key_of (Meta m))
                             (ingressForModelServe m) c1 = (e, c2)"
      by (cases "client_Create Ingresses ingresses ingresses_update (key_of (Meta m))
                             (ingressForModelServe m) c1")
    have "run_inv P s m0 c2" by (rule inv_Create [OF inv1 cr]) simp_all
    with Inl g cr inv1 show ?thesis
      by (simp add: reconcileIngress_def Let_def split: option.splits)
  qed
qed

lemma inv_reconcileService:
  assumes inv: "run_inv P s m0 c" and mem: "in_memory m0 m"
      and dep: "deployments s (key_of (Meta m0)) = Some found"
  shows "run_inv P s m0 (snd (reconcileService P m found c))"
proof -
  obtain r c1 where g: "client_Get Services services (key_of (Meta m)) c = (r, c1)"
    by (cases "client_Get Services services (key_of (Meta m)) c")
  have inv1: "run_inv P s m0 c1" by (rule inv_Get [OF inv g])
  show ?thesis
  proof (cases r)
    case (Inr foundSvc)
    with g inv_reconcileIngress [OF inv1 mem dep] show ?thesis
      by (simp add: reconcileService_def Let_def)
  next
    case (Inl err)
    obtain e c2 where cr: "client_Create Services services services_update (key_of (Meta m))
                             (serviceForModelServe m) c1 = (e, c2)"
      by (cases "client_Create Services services services_update (key_of (Meta m))
                             (serviceForModelServe m) c1")
    have "run_inv P s m0 c2" by (rule inv_Create [OF inv1 cr]) simp_all
    with Inl g cr inv1 show ?thesis
      by (simp add: reconcileService_def Let_def split: option.splits)
  qed
qed

lemma inv_reconcileDeployment:
  assumes inv: "run_inv P s m0 c" and mem: "in_memory m0 m"
      and deps: "deployments (store c) = deployments s"
  shows "run_inv P s m0 (snd (reconcileDeployment P m c))"
proof -
  have key: "key_of (Meta m) = key_of (Meta m0)" using mem by (simp add: in_memory_def)
  obtain r c1 where g: "client_Get Deployments deployments (key_of (Meta m)) c = (r, c1)"
    by (cases "client_Get Deployments deployments (key_of (Meta m)) c")
  have inv1: "run_inv P s m0 c1" by (rule inv_Get [OF inv g])
  show ?thesis
  proof (cases r)
    case (Inr found)
    from Get_effect(3) [OF g Inr] deps key
    have "deployments s (key_of (Meta m0)) = Some found" by simp
    from inv_reconcileService [OF inv1 mem this] Inr g show ?thesis
      by (simp add: reconcileDeployment_def Let_def)
  next
    case (Inl err)
    let ?m1 = "m\<lparr>Status := (Status m)\<lparr>Phase := ''Downloading'',
                                      Message := ''Downloading model from MinIO''\<rparr>\<rparr>"
    have ok1: "write_ok P s m0 ?m1" using mem by (simp add: write_ok_def in_memory_def)
    obtain e2 c2 where u1: "client_Status_Update ?m1 c1 = (e2, c2)"
      by (cases "client_Status_Update ?m1 c1")
    have inv2: "run_inv P s m0 c2" by (rule inv_Status_Update [OF inv1 ok1 u1])
    obtain e3 c3 where cr: "client_Create Deployments deployments deployments_update
                              (key_of (Meta m)) (deploymentForModelServe P m) c2 = (e3, c3)"
      by (cases "client_Create Deployments deployments deployments_update
                              (key_of (Meta m)) (deploymentForModelServe P m) c2")
    have inv3: "run_inv P s m0 c3" by (rule inv_Create [OF inv2 cr]) simp_all
    show ?thesis
    proof (cases e3)
      case None
      with Inl g u1 cr inv1 inv3 show ?thesis
        by (simp add: reconcileDeployment_def Let_def)
    next
      case (Some err')
      let ?m2 = "?m1\<lparr>Status := (Status ?m1)\<lparr>Phase := ''Failed'',
                    Message := ''Failed to create deployment: '' @ ErrorText err'\<rparr>\<rparr>"
      have ok2: "write_ok P s m0 ?m2" using mem by (simp add: write_ok_def in_memory_def)
      obtain e4 c4 where u2: "client_Status_Update ?m2 c3 = (e4, c4)"
        by (cases "client_Status_Update ?m2 c3")
      have "run_inv P s m0 c4" by (rule inv_Status_Update [OF inv3 ok2 u2])
      with Some Inl g u1 cr u2 inv1 show ?thesis
        by (simp add: reconcileDeployment_def Let_def)
    qed
  qed
qed

lemma inv_createStripPrefixMiddleware:
  assumes inv: "run_inv P s m0 c" and mw: "createStripPrefixMiddleware m c = (r, c1)"
  shows "run_inv P s m0 c1" and "deployments (store c1) = deployments (store c)"
proof -
  let ?k = "(Namespace (Meta m), Name (Meta m) @ ''-stripprefix'')"
  obtain g c' where g: "client_Get ConfigMaps configmaps ?k c = (g, c')"
    by (cases "client_Get ConfigMaps configmaps ?k c")
  have inv': "run_inv P s m0 c'" by (rule inv_Get [OF inv g])
  have st': "store c' = store c" by (rule Get_effect(1) [OF g])
  obtain e c2 where cr: "client_Create ConfigMaps configmaps configmaps_update ?k
                           (stripPrefixMiddleware m) c' = (e, c2)"
    by (cases "client_Create ConfigMaps configmaps configmaps_update ?k
                           (stripPrefixMiddleware m) c'")
  have inv2: "run_inv P s m0 c2" by (rule inv_Create [OF inv' cr]) simp_all
  have st2: "deployments (store c2) = deployments (store c)"
    using Create_effect(2) [OF cr] st' by (simp split: option.splits)
  from mw g cr have "c1 = c' \<or> c1 = c2"
    by (auto simp: createStripPrefixMiddleware_def Let_def split: sum.splits if_splits)
  with inv' inv2 st' st2 show "run_inv P s m0 c1" and "deployments (store c1) = deployments (store c)"
    by auto
qed

lemma run_inv_init: "run_inv P s m0 \<lparr>store = s, faults = fs, calls = []\<rparr>"
  by (simp add: run_inv_def)

lemma inv_Reconcile:
  assumes parent: "modelserves s req = Some m0"
  shows "run_inv P s m0 (snd (reconcile_run P req fs s))"
proof -
  let ?c = "\<lparr>store = s, faults = fs, calls = []\<rparr>"
  obtain r c1 where g: "client_Get ModelServes modelserves req ?c = (r, c1)"
    by (cases "client_Get ModelServes modelserves req ?c")
  have inv1: "run_inv P s m0 c1" by (rule inv_Get [OF run_inv_init g])
  have st1: "store c1 = s" using Get_effect(1) [OF g] by simp
  show ?thesis
  proof (cases r)
    case (Inl err)
    with g inv1 show ?thesis by (simp add: reconcile_run_def Reconcile_def)
  next
    case (Inr modelServe)
    from Get_effect(3) [OF g Inr] parent have ms: "modelServe = m0" by simp
    let ?m1 = "m0\<lparr>Status := (Status m0)\<lparr>Phase := ''Pending'',
                                        Message := ''Initializing model server''\<rparr>\<rparr>"
    obtain e2 c2 where u: "client_Status_Update ?m1 c1 = (e2, c2)"
      by (cases "client_Status_Update ?m1 c1")
    have deps2: "deployments (store c2) = deployments s"
      using Status_Update_effect(2) [OF u] st1 by (simp split: option.splits)
    show ?thesis
    proof (cases "Phase (Status m0) = []")
      case True
      then have ok: "write_ok P s m0 ?m1" by (simp add: write_ok_def)
      have inv2: "run_inv P s m0 c2" by (rule inv_Status_Update [OF inv1 ok u])
      show ?thesis
      proof (cases e2)
        case (Some err)
        with True Inr ms g u inv2 show ?thesis
          by (simp add: reconcile_run_def Reconcile_def Let_def)
      next
        case None
        have mem: "in_memory m0 ?m1" using True by (simp add: in_memory_def)
        obtain e3 c3 where mw: "createStripPrefixMiddleware ?m1 c2 = (e3, c3)"
          by (cases "createStripPrefixMiddleware ?m1 c2")
        note mwf = inv_createStripPrefixMiddleware [OF inv2 mw]
        have "run_inv P s m0 (snd (reconcileDeployment P ?m1 c3))"
          by (rule inv_reconcileDeployment [OF mwf(1) mem]) (simp add: mwf(2) deps2)
        with None True Inr ms g u mw mwf(1) show ?thesis
          by (simp add: reconcile_run_def Reconcile_def Let_def split: option.splits)
      qed
    next
      case False
      then have mem: "in_memory m0 m0" by (simp add: in_memory_def)
      obtain e3 c3 where mw: "createStripPrefixMiddleware m0 c1 = (e3, c3)"
        by (cases "createStripPrefixMiddleware m0 c1")
      note mwf = inv_createStripPrefixMiddleware [OF inv1 mw]
      have "run_inv P s m0 (snd (reconcileDeployment P m0 c3))"
        by (rule inv_reconcileDeployment [OF mwf(1) mem]) (simp add: mwf(2) st1)
      with False Inr ms g mw mwf(1) show ?thesis
        by (simp add: reconcile_run_def Reconcile_def Let_def split: option.splits)
    qed
  qed
qed

lemma Reconcile_absent:
  assumes "modelserves s req = None"
  shows "store (snd (reconcile_run P req fs s)) = s"
    and "\<exists>e. calls (snd (reconcile_run P req fs s)) = [(Get ModelServes req, Some e)]"
proof -
  let ?c = "\<lparr>store = s, faults = fs, calls = []\<rparr>"
  obtain r c1 where g: "client_Get ModelServes modelserves req ?c = (r, c1)"
    by (cases "client_Get ModelServes modelserves req ?c")
  from Get_effect(3) [OF g] assms obtain err where r: "r = Inl err"
    by (cases r) auto
  from g r Get_effect(1,2) [OF g]
  show "store (snd (reconcile_run P req fs s)) = s"
    and "\<exists>e. calls (snd (reconcile_run P req fs s)) = [(Get ModelServes req, Some e)]"
    by (simp_all add: reconcile_run_def Reconcile_def)
qed

lemma run_inv_stored:
  assumes "run_inv P s m0 c"
  shows "modelserves (store c) = modelserves s
         \<or> (\<exists>m stored. write_ok P s m0 m \<and> modelserves s (key_of (Meta m0)) = Some stored
               \<and> modelserves (store c) =
                   (modelserves s)(key_of (Meta m0) \<mapsto> stored\<lparr>Status := Status m\<rparr>))"
  using assms unfolding run_inv_def by blast

lemma phases_written_D:
  "p \<in> set (phases_written tr) \<Longrightarrow> \<exists>m. (StatusUpdate m, None) \<in> set tr \<and> Phase (Status m) = p"
  by (induction tr rule: phases_written.induct) auto

lemma phases_written_append [simp]:
  "phases_written (xs @ ys) = phases_written xs @ phases_written ys"
  by (induction xs rule: phases_written.induct) simp_all

lemma is_Create_simps [simp]:
  "is_Create (Create res k, e)" "\<not> is_Create (Get res k, e)"
  "\<not> is_Create (StatusUpdate m, e)" "\<not> is_Create (List res ns ls, e)"
  by (simp_all add: is_Create_def)

lemma is_StatusUpdate_simps [simp]:
  "is_StatusUpdate (StatusUpdate m, e)" "\<not> is_StatusUpdate (Get res k, e)"
  "\<not> is_StatusUpdate (Create res k, e)" "\<not> is_StatusUpdate (List res ns ls, e)"
  by (simp_all add: is_StatusUpdate_def)

text \<open>
  C10. In every reconcile invocation, whatever the store and the faults, the reconciler
  never modifies the spec or the metadata of a \<open>ModelServe\<close>: the only writes of the parent
  it sends are status updates, which carry the metadata and the spec of the stored parent
  unchanged, and the metadata and spec of every stored \<open>ModelServe\<close> are after the run
  what they were before.
\<close>

theorem Reconcile_writes_status_only:
  "list_all (parent_write_ok (modelserves s req)) (calls (snd (reconcile_run P req fs s)))
   \<and> (\<forall>k. map_option Meta (modelserves (store (snd (reconcile_run P req fs s))) k)
            = map_option Meta (modelserves s k))
   \<and> (\<forall>k. map_option Spec (modelserves (store (snd (reconcile_run P req fs s))) k)
            = map_option Spec (modelserves s k))"
proof (cases "modelserves s req")
  case None
  from Reconcile_absent [OF None, of P fs] show ?thesis
    by (auto simp: parent_write_ok_def)
next
  case (Some m0)
  let ?c = "snd (reconcile_run P req fs s)"
  note inv = inv_Reconcile [OF Some, of P fs]
  have w: "\<And>m e. (StatusUpdate m, e) \<in> set (calls ?c) \<Longrightarrow> write_ok P s m0 m"
    and cr: "\<And>k e. (Create ModelServes k, e) \<notin> set (calls ?c)"
    using inv by (auto simp: run_inv_def)
  have "parent_write_ok (Some m0) x" if "x \<in> set (calls ?c)" for x
  proof (cases x)
    case (Pair cl e)
    show ?thesis
    proof (cases cl)
      case (Create res k)
      with Pair that cr [of k e] show ?thesis by (auto simp: parent_write_ok_def)
    next
      case (StatusUpdate m)
      with Pair that w [of m e] show ?thesis by (simp add: parent_write_ok_def write_ok_def)
    qed (simp_all add: Pair parent_write_ok_def)
  qed
  then have calls: "list_all (parent_write_ok (Some m0)) (calls ?c)"
    by (simp add: list_all_iff)
  from run_inv_stored [OF inv]
  have "\<forall>k. map_option Meta (modelserves (store ?c) k) = map_option Meta (modelserves s k)
           \<and> map_option Spec (modelserves (store ?c) k) = map_option Spec (modelserves s k)"
    by (elim disjE exE conjE) auto
  with calls Some show ?thesis by simp
qed

text \<open>
  C5 (amended). In every reconcile invocation, whatever the faults, the stored
  \<open>startedAt\<close> is after the run the clock value of the run if the run has moved the stored
  phase from another value into \<open>Running\<close>, and what it was before the run otherwise. It
  is written at each such move, not only at the first.
\<close>

theorem StartedAt_written_on_entering_Running:
  assumes "modelserves s req = Some m0" and "key_of (Meta m0) = req"
  shows "\<exists>m'. modelserves (store (snd (reconcile_run P req fs s))) req = Some m'
           \<and> StartedAt (Status m') =
               (if Phase (Status m') = ''Running'' \<and> Phase (Status m0) \<noteq> ''Running''
                then Some (time_now P) else StartedAt (Status m0))"
  using run_inv_stored [OF inv_Reconcile [OF assms(1), of P fs]] assms
  by (elim disjE exE conjE) (auto simp: write_ok_def)

text \<open>A run that finds the phase \<open>Running\<close> and the workload with an available replica
  neither stores nor writes the phase \<open>Pending\<close>, whatever the faults.\<close>

lemma Running_not_Pending:
  assumes "modelserves s req = Some m0" and "key_of (Meta m0) = req"
      and "Phase (Status m0) = ''Running''"
      and "deployments s req = Some d" and "0 < sint (deployment_AvailableReplicas d)"
  shows "\<exists>m'. modelserves (store (snd (reconcile_run P req fs s))) req = Some m'
           \<and> Phase (Status m') \<noteq> ''Pending''"
    and "''Pending'' \<notin> set (phases_written (calls (snd (reconcile_run P req fs s))))"
proof -
  note inv = inv_Reconcile [OF assms(1), of P fs]
  have w: "\<And>m. write_ok P s m0 m \<Longrightarrow> Phase (Status m) \<noteq> ''Pending''"
    using assms by (auto simp: write_ok_def)
  from run_inv_stored [OF inv] assms(1,2,3) w
  show "\<exists>m'. modelserves (store (snd (reconcile_run P req fs s))) req = Some m'
           \<and> Phase (Status m') \<noteq> ''Pending''"
    by (elim disjE exE conjE) auto
  show "''Pending'' \<notin> set (phases_written (calls (snd (reconcile_run P req fs s))))"
  proof
    assume "''Pending'' \<in> set (phases_written (calls (snd (reconcile_run P req fs s))))"
    from phases_written_D [OF this] obtain m
      where "(StatusUpdate m, None) \<in> set (calls (snd (reconcile_run P req fs s)))"
        and "Phase (Status m) = ''Pending''" by blast
    with inv w show False by (auto simp: run_inv_def)
  qed
qed

section \<open>A rejected create\<close>

lemma not_rejected_handled:
  "\<not> list_ex rejected_create (calls c) \<Longrightarrow> create_rejection_handled (r, c)"
  by (auto simp: create_rejection_handled_def list_ex_iff rejected_create_def)

lemma not_rejected_handled':
  "\<not> list_ex rejected_create (calls (snd out)) \<Longrightarrow> create_rejection_handled out"
  by (cases out) (simp add: not_rejected_handled)

lemma rejected_reconcileStatus:
  assumes "\<not> list_ex rejected_create (calls c)"
  shows "\<not> list_ex rejected_create (calls (snd (reconcileStatus P m found svc c)))"
proof -
  obtain r c5 where lst:
    "(if 0 < sint (deployment_AvailableReplicas found)
      then client_List_Pods (Namespace (Meta m)) (labelsForModelServe (Name (Meta m))) c
      else (Inr [], c)) = (r, c5)"
    by (cases "(if 0 < sint (deployment_AvailableReplicas found)
      then client_List_Pods (Namespace (Meta m)) (labelsForModelServe (Name (Meta m))) c
      else (Inr [], c))")
  have c5: "\<not> list_ex rejected_create (calls c5)"
    using lst assms List_Pods_effect(2)
    by (auto simp: rejected_create_def split: if_splits)
  let ?x = "observedStatus P m found svc (case r of Inl e \<Rightarrow> [] | Inr items \<Rightarrow> items)"
  obtain e c6 where upd: "client_Status_Update (m\<lparr>Status := fst ?x\<rparr>) c5 = (e, c6)"
    by (cases "client_Status_Update (m\<lparr>Status := fst ?x\<rparr>) c5")
  have "\<not> list_ex rejected_create (calls c6)"
    using c5 Status_Update_effect(1) [OF upd] by (simp add: rejected_create_def)
  with c5 lst upd show ?thesis
    by (simp add: reconcileStatus_alt Let_def split: option.splits)
qed

lemma handled_child_step:
  assumes nr: "\<not> list_ex rejected_create (calls c)"
      and g: "client_Get res table k c = (r, c1)"
      and cr: "client_Create res table table_update k obj c1 = (e, c2)"
      and res: "res \<noteq> Deployments"
  shows "\<not> list_ex rejected_create (calls c1)"
    and "create_rejection_handled
           (case e of Some err' \<Rightarrow> ((Result False, Some err'), c2)
                    | None \<Rightarrow> ((Result True, None), c2))"
proof -
  show c1: "\<not> list_ex rejected_create (calls c1)"
    using nr Get_effect(2) [OF g] by (simp add: rejected_create_def)
  show "create_rejection_handled
           (case e of Some err' \<Rightarrow> ((Result False, Some err'), c2)
                    | None \<Rightarrow> ((Result True, None), c2))"
  proof (cases e)
    case None
    then have "\<not> list_ex rejected_create (calls c2)"
      using c1 Create_effect(1) [OF cr] by (simp add: rejected_create_def)
    with None show ?thesis by (simp add: not_rejected_handled)
  next
    case (Some err')
    have "\<And>res' k' e'. (Create res' k', Some e') \<in> set (calls c1) \<Longrightarrow> False"
      using c1 by (auto simp: list_ex_iff rejected_create_def)
    with Some res show ?thesis
      by (auto simp: create_rejection_handled_def Create_effect(1) [OF cr])
  qed
qed

lemma handled_reconcileIngress:
  assumes nr: "\<not> list_ex rejected_create (calls c)"
  shows "create_rejection_handled (reconcileIngress P m found svc c)"
proof -
  obtain r c1 where g: "client_Get Ingresses ingresses (key_of (Meta m)) c = (r, c1)"
    by (cases "client_Get Ingresses ingresses (key_of (Meta m)) c")
  obtain e c2 where cr: "client_Create Ingresses ingresses ingresses_update (key_of (Meta m))
                           (ingressForModelServe m) c1 = (e, c2)"
    by (cases "client_Create Ingresses ingresses ingresses_update (key_of (Meta m))
                           (ingressForModelServe m) c1")
  have h1: "\<not> list_ex rejected_create (calls c1)"
    by (rule handled_child_step(1) [OF nr g cr]) simp
  have h2: "create_rejection_handled
           (case e of Some err' \<Rightarrow> ((Result False, Some err'), c2)
                    | None \<Rightarrow> ((Result True, None), c2))"
    by (rule handled_child_step(2) [OF nr g cr]) simp
  note h = h1 h2
  show ?thesis
  proof (cases r)
    case (Inr foundIng)
    have "create_rejection_handled (reconcileStatus P m found svc c1)"
      by (rule not_rejected_handled' [OF rejected_reconcileStatus [OF h(1)]])
    with Inr g show ?thesis by (simp add: reconcileIngress_def Let_def)
  next
    case (Inl err)
    with g cr h show ?thesis
      by (auto simp: reconcileIngress_def Let_def not_rejected_handled split: option.splits)
  qed
qed

lemma handled_reconcileService:
  assumes nr: "\<not> list_ex rejected_create (calls c)"
  shows "create_rejection_handled (reconcileService P m found c)"
proof -
  obtain r c1 where g: "client_Get Services services (key_of (Meta m)) c = (r, c1)"
    by (cases "client_Get Services services (key_of (Meta m)) c")
  obtain e c2 where cr: "client_Create Services services services_update (key_of (Meta m))
                           (serviceForModelServe m) c1 = (e, c2)"
    by (cases "client_Create Services services services_update (key_of (Meta m))
                           (serviceForModelServe m) c1")
  have h1: "\<not> list_ex rejected_create (calls c1)"
    by (rule handled_child_step(1) [OF nr g cr]) simp
  have h2: "create_rejection_handled
           (case e of Some err' \<Rightarrow> ((Result False, Some err'), c2)
                    | None \<Rightarrow> ((Result True, None), c2))"
    by (rule handled_child_step(2) [OF nr g cr]) simp
  note h = h1 h2
  show ?thesis
  proof (cases r)
    case (Inr foundSvc)
    with g handled_reconcileIngress [OF h(1)] show ?thesis
      by (simp add: reconcileService_def Let_def)
  next
    case (Inl err)
    with g cr h show ?thesis
      by (auto simp: reconcileService_def Let_def not_rejected_handled split: option.splits)
  qed
qed

lemma handled_reconcileDeployment:
  assumes nr: "\<not> list_ex rejected_create (calls c)"
  shows "create_rejection_handled (reconcileDeployment P m c)"
proof -
  obtain r c1 where g: "client_Get Deployments deployments (key_of (Meta m)) c = (r, c1)"
    by (cases "client_Get Deployments deployments (key_of (Meta m)) c")
  have c1: "\<not> list_ex rejected_create (calls c1)"
    using nr Get_effect(2) [OF g] by (simp add: rejected_create_def)
  show ?thesis
  proof (cases r)
    case (Inr found)
    with g handled_reconcileService [OF c1] show ?thesis
      by (simp add: reconcileDeployment_def Let_def)
  next
    case (Inl err)
    let ?m1 = "m\<lparr>Status := (Status m)\<lparr>Phase := ''Downloading'',
                                      Message := ''Downloading model from MinIO''\<rparr>\<rparr>"
    obtain e2 c2 where u1: "client_Status_Update ?m1 c1 = (e2, c2)"
      by (cases "client_Status_Update ?m1 c1")
    have c2: "\<not> list_ex rejected_create (calls c2)"
      using c1 Status_Update_effect(1) [OF u1] by (simp add: rejected_create_def)
    obtain e3 c3 where cr: "client_Create Deployments deployments deployments_update
                              (key_of (Meta m)) (deploymentForModelServe P m) c2 = (e3, c3)"
      by (cases "client_Create Deployments deployments deployments_update
                              (key_of (Meta m)) (deploymentForModelServe P m) c2")
    note calls3 = Create_effect(1) [OF cr]
    show ?thesis
    proof (cases e3)
      case None
      then have "\<not> list_ex rejected_create (calls c3)"
        using c2 calls3 by (simp add: rejected_create_def)
      with None Inl g u1 cr c1 show ?thesis
        by (simp add: reconcileDeployment_def Let_def not_rejected_handled)
    next
      case (Some err')
      let ?m2 = "?m1\<lparr>Status := (Status ?m1)\<lparr>Phase := ''Failed'',
                    Message := ''Failed to create deployment: '' @ ErrorText err'\<rparr>\<rparr>"
      obtain e4 c4 where u2: "client_Status_Update ?m2 c3 = (e4, c4)"
        by (cases "client_Status_Update ?m2 c3")
      have none: "\<And>res' k' e'. (Create res' k', Some e') \<in> set (calls c2) \<Longrightarrow> False"
        using c2 by (auto simp: list_ex_iff rejected_create_def)
      have stored: "e4 = None \<Longrightarrow>
              map_option (Phase \<circ> Status) (modelserves (store c4) (key_of (Meta ?m2)))
                = Some ''Failed''"
        using Status_Update_effect(2) [OF u2] by simp
      have "create_rejection_handled ((Result False, Some err'), c4)"
        unfolding create_rejection_handled_def
      proof (intro allI impI)
        fix res k e
        assume "(Create res k, Some e) \<in> set (calls (snd ((Result False, Some err'), c4)))"
        then have eq: "res = Deployments" "e = err'"
          using none [of res k e] Some by (auto simp: Status_Update_effect(1) [OF u2] calls3)
        have "last (calls c4) = (StatusUpdate ?m2, e4)"
          by (simp add: Status_Update_effect(1) [OF u2])
        with stored eq
        show "snd (fst ((Result False, Some err'), c4)) = Some e
            \<and> \<not> Requeue (fst (fst ((Result False, Some err'), c4)))
            \<and> (if res = Deployments
                then \<exists>m x. last (calls (snd ((Result False, Some err'), c4))) = (StatusUpdate m, x)
                  \<and> Phase (Status m) = ''Failed''
                  \<and> Message (Status m) = ''Failed to create deployment: '' @ ErrorText e
                  \<and> (x = None \<longrightarrow>
                       map_option (Phase \<circ> Status)
                         (modelserves (store (snd ((Result False, Some err'), c4))) (key_of (Meta m)))
                         = Some ''Failed'')
                else last (calls (snd ((Result False, Some err'), c4))) = (Create res k, Some e))"
          by (auto simp del: key_of_proj)
      qed
      with Some Inl g u1 cr u2 c1 show ?thesis
        by (simp add: reconcileDeployment_def Let_def not_rejected_handled)
    qed
  qed
qed

lemma handled_createStripPrefixMiddleware:
  assumes nr: "\<not> list_ex rejected_create (calls c)"
      and mw: "createStripPrefixMiddleware m c = (e, c1)"
  shows "case e of
           None \<Rightarrow> \<not> list_ex rejected_create (calls c1)
         | Some err \<Rightarrow> create_rejection_handled ((Result False, Some err), c1)"
proof -
  let ?k = "(Namespace (Meta m), Name (Meta m) @ ''-stripprefix'')"
  obtain r c' where g: "client_Get ConfigMaps configmaps ?k c = (r, c')"
    by (cases "client_Get ConfigMaps configmaps ?k c")
  obtain e2 c2 where cr: "client_Create ConfigMaps configmaps configmaps_update ?k
                           (stripPrefixMiddleware m) c' = (e2, c2)"
    by (cases "client_Create ConfigMaps configmaps configmaps_update ?k
                           (stripPrefixMiddleware m) c'")
  have h1: "\<not> list_ex rejected_create (calls c')"
    by (rule handled_child_step(1) [OF nr g cr]) simp
  have h2: "create_rejection_handled
           (case e2 of Some err' \<Rightarrow> ((Result False, Some err'), c2)
                     | None \<Rightarrow> ((Result True, None), c2))"
    by (rule handled_child_step(2) [OF nr g cr]) simp
  show ?thesis
  proof (cases r)
    case (Inr found)
    with g mw h1 show ?thesis
      by (auto simp: createStripPrefixMiddleware_def Let_def)
  next
    case (Inl err)
    show ?thesis
    proof (cases "IsNotFound err")
      case False
      with Inl g mw h1 show ?thesis
        by (auto simp: createStripPrefixMiddleware_def Let_def not_rejected_handled)
    next
      case True
      with Inl g mw cr have eq: "e = e2" "c1 = c2"
        by (auto simp: createStripPrefixMiddleware_def Let_def)
      show ?thesis
      proof (cases e2)
        case None
        then have "\<not> list_ex rejected_create (calls c2)"
          using h1 Create_effect(1) [OF cr] by (simp add: rejected_create_def)
        with None eq show ?thesis by simp
      next
        case (Some err')
        with h2 eq show ?thesis by simp
      qed
    qed
  qed
qed

lemma handled_Reconcile:
  "create_rejection_handled (reconcile_run P req fs s)"
proof -
  let ?c = "\<lparr>store = s, faults = fs, calls = []\<rparr>"
  obtain r c1 where g: "client_Get ModelServes modelserves req ?c = (r, c1)"
    by (cases "client_Get ModelServes modelserves req ?c")
  have c1: "\<not> list_ex rejected_create (calls c1)"
    using Get_effect(2) [OF g] by (simp add: rejected_create_def)
  show ?thesis
  proof (cases r)
    case (Inl err)
    with g c1 show ?thesis
      by (simp add: reconcile_run_def Reconcile_def not_rejected_handled)
  next
    case (Inr modelServe)
    let ?m1 = "modelServe\<lparr>Status := (Status modelServe)\<lparr>Phase := ''Pending'',
                                        Message := ''Initializing model server''\<rparr>\<rparr>"
    obtain e2 c2 where u: "client_Status_Update ?m1 c1 = (e2, c2)"
      by (cases "client_Status_Update ?m1 c1")
    have c2: "\<not> list_ex rejected_create (calls c2)"
      using c1 Status_Update_effect(1) [OF u] by (simp add: rejected_create_def)
    have rest: "create_rejection_handled
                  (case createStripPrefixMiddleware m c of
                     (Some err, c3) \<Rightarrow> ((Result False, Some err), c3)
                   | (None, c3) \<Rightarrow> reconcileDeployment P m c3)"
      if "\<not> list_ex rejected_create (calls c)" for m c
    proof -
      obtain e3 c3 where mw: "createStripPrefixMiddleware m c = (e3, c3)"
        by (cases "createStripPrefixMiddleware m c")
      from handled_createStripPrefixMiddleware [OF that mw] mw handled_reconcileDeployment
      show ?thesis by (auto split: option.splits)
    qed
    show ?thesis
    proof (cases "Phase (Status modelServe) = []")
      case False
      with Inr g rest [OF c1] show ?thesis
        by (simp add: reconcile_run_def Reconcile_def)
    next
      case True
      show ?thesis
      proof (cases e2)
        case (Some err)
        with True Inr g u c2 show ?thesis
          by (simp add: reconcile_run_def Reconcile_def Let_def not_rejected_handled)
      next
        case None
        with True Inr g u rest [OF c2] show ?thesis
          by (simp add: reconcile_run_def Reconcile_def Let_def)
      qed
    qed
  qed
qed

text \<open>
  C2 (amended). For every reconcile invocation in which a child create request (supporting
  config, workload, network endpoint or route) is rejected by the store, for whatever
  reason, "already exists" included, the reconciler returns that error from the
  invocation, without asking for a requeue. When the rejected child is the workload, it
  first sets the phase to \<open>Failed\<close> with the message "Failed to create deployment: "
  followed by the error, and sends that status (the stored phase is \<open>Failed\<close> when that
  update goes through); after another rejected create it makes no further call and does
  not set the phase.
\<close>

theorem rejected_create_is_propagated:
  assumes "(Create res k, Some e) \<in> set (calls (snd (reconcile_run P req fs s)))"
  shows "snd (fst (reconcile_run P req fs s)) = Some e
       \<and> \<not> Requeue (fst (fst (reconcile_run P req fs s)))
       \<and> (if res = Deployments
           then \<exists>m x. last (calls (snd (reconcile_run P req fs s))) = (StatusUpdate m, x)
                  \<and> Phase (Status m) = ''Failed''
                  \<and> Message (Status m) = ''Failed to create deployment: '' @ ErrorText e
                  \<and> (x = None \<longrightarrow>
                       map_option (Phase \<circ> Status)
                         (modelserves (store (snd (reconcile_run P req fs s))) (key_of (Meta m)))
                         = Some ''Failed'')
           else last (calls (snd (reconcile_run P req fs s))) = (Create res k, Some e))"
  using handled_Reconcile [of P req fs s] assms
  unfolding create_rejection_handled_def by blast

section \<open>Runs without faults\<close>

text \<open>Each step as a function of the store.\<close>

lemma reconcileStatus_nofault:
  assumes nf: "faults c = []" and st: "modelserves (store c) (key_of (Meta m)) = Some stored"
  shows "reconcileStatus P m found svc c =
    (let x = observedStatus P m found svc (listedPods m (store c));
         c5 = (if 0 < sint (deployment_AvailableReplicas found)
               then record_call (List Pods (Namespace (Meta m))
                                   (labelsForModelServe (Name (Meta m)))) None c
               else c)
     in if snd x
        then ((Result False, None),
              record_call (StatusUpdate (m\<lparr>Status := fst x\<rparr>)) None
                (c5\<lparr>store := modelserves_update
                   (\<lambda>t. t(key_of (Meta m) \<mapsto> stored\<lparr>Status := fst x\<rparr>)) (store c)\<rparr>))
        else ((Result False, None), c5))"
proof (cases "0 < sint (deployment_AvailableReplicas found)")
  case True
  then show ?thesis
    using nf st
    by (simp add: reconcileStatus_alt List_Pods_nofault Status_Update_nofault Let_def
          listedPods_def)
next
  case False
  then show ?thesis
    using nf st observedStatus_not_ready [OF False, of P m svc "listedPods m (store c)"]
    by (simp add: reconcileStatus_alt Status_Update_nofault Let_def)
qed

lemma reconcileIngress_nofault:
  assumes nf: "faults c = []"
  shows "reconcileIngress P m found svc c =
    (case ingresses (store c) (key_of (Meta m)) of
       None \<Rightarrow>
         ((Result True, None),
          record_call (Create Ingresses (key_of (Meta m))) None
            ((record_call (Get Ingresses (key_of (Meta m)))
                (Some (NewNotFound Ingresses (Name (Meta m)))) c)
             \<lparr>store := ingresses_update
                 (\<lambda>t. t(key_of (Meta m) \<mapsto> ingressForModelServe m)) (store c)\<rparr>))
     | Some foundIng \<Rightarrow>
         reconcileStatus P m found svc (record_call (Get Ingresses (key_of (Meta m))) None c))"
  using nf
  by (simp add: reconcileIngress_def Get_nofault Create_nofault IsNotFound_def Let_def
        split: option.splits)

lemma reconcileService_nofault:
  assumes nf: "faults c = []"
  shows "reconcileService P m found c =
    (case services (store c) (key_of (Meta m)) of
       None \<Rightarrow>
         ((Result True, None),
          record_call (Create Services (key_of (Meta m))) None
            ((record_call (Get Services (key_of (Meta m)))
                (Some (NewNotFound Services (Name (Meta m)))) c)
             \<lparr>store := services_update
                 (\<lambda>t. t(key_of (Meta m) \<mapsto> serviceForModelServe m)) (store c)\<rparr>))
     | Some foundSvc \<Rightarrow>
         reconcileIngress P m found (serviceForModelServe m)
           (record_call (Get Services (key_of (Meta m))) None c))"
  using nf
  by (simp add: reconcileService_def Get_nofault Create_nofault IsNotFound_def Let_def
        split: option.splits)

lemma reconcileDeployment_nofault:
  assumes nf: "faults c = []" and st: "modelserves (store c) (key_of (Meta m)) = Some stored"
  shows "reconcileDeployment P m c =
    (case deployments (store c) (key_of (Meta m)) of
       None \<Rightarrow>
         ((Result True, None),
          record_call (Create Deployments (key_of (Meta m))) None
            ((record_call (StatusUpdate (m\<lparr>Status := (Status m)\<lparr>Phase := ''Downloading'',
                               Message := ''Downloading model from MinIO''\<rparr>\<rparr>)) None
              (record_call (Get Deployments (key_of (Meta m)))
                (Some (NewNotFound Deployments (Name (Meta m)))) c))
             \<lparr>store := deployments_update
                 (\<lambda>t. t(key_of (Meta m) \<mapsto> deploymentForModelServe P m))
                 (modelserves_update
                   (\<lambda>t. t(key_of (Meta m) \<mapsto> stored\<lparr>Status := (Status m)\<lparr>Phase := ''Downloading'',
                               Message := ''Downloading model from MinIO''\<rparr>\<rparr>)) (store c))\<rparr>))
     | Some found \<Rightarrow>
         reconcileService P m found (record_call (Get Deployments (key_of (Meta m))) None c))"
  using nf st
  by (simp add: reconcileDeployment_def Get_nofault Create_nofault Status_Update_nofault
        IsNotFound_def Let_def split: option.splits)

lemma initPhase_simps [simp]:
  "Meta (initPhase m) = Meta m" "Spec (initPhase m) = Spec m"
  "Phase (Status (initPhase m)) \<noteq> []"
  "Phase (Status m) \<noteq> [] \<Longrightarrow> initPhase m = m"
  by (simp_all add: initPhase_def)

lemma afterMiddleware_simps [simp]:
  "faults (afterMiddleware m c) = faults c"
  "modelserves (store (afterMiddleware m c)) = modelserves (store c)"
  "deployments (store (afterMiddleware m c)) = deployments (store c)"
  "services (store (afterMiddleware m c)) = services (store c)"
  "ingresses (store (afterMiddleware m c)) = ingresses (store c)"
  "pods (store (afterMiddleware m c)) = pods (store c)"
  by (simp_all add: afterMiddleware_def Let_def split: option.splits)

lemma createStripPrefixMiddleware_nofault:
  assumes "faults c = []"
  shows "createStripPrefixMiddleware m c = (None, afterMiddleware m c)"
  using assms
  by (simp add: createStripPrefixMiddleware_def afterMiddleware_def Get_nofault Create_nofault
        IsNotFound_def Let_def split: option.splits)

lemma afterInit_simps [simp]:
  "faults (afterInit req m0 s) = []"
  "deployments (store (afterInit req m0 s)) = deployments s"
  "services (store (afterInit req m0 s)) = services s"
  "ingresses (store (afterInit req m0 s)) = ingresses s"
  "configmaps (store (afterInit req m0 s)) = configmaps s"
  "pods (store (afterInit req m0 s)) = pods s"
  by (simp_all add: afterInit_def Let_def)

lemma afterInit_parent:
  assumes "modelserves s req = Some m0"
  shows "modelserves (store (afterInit req m0 s)) = (modelserves s)(req \<mapsto> initPhase m0)"
  using assms by (auto simp: afterInit_def Let_def initPhase_def)

lemma Reconcile_nofault:
  assumes parent: "modelserves s req = Some m0" and wf: "key_of (Meta m0) = req"
  shows "reconcile_run P req [] s =
           reconcileDeployment P (initPhase m0) (afterMiddleware (initPhase m0) (afterInit req m0 s))"
proof (cases "Phase (Status m0) = []")
  case True
  have "m0\<lparr>Status := Status (initPhase m0)\<rparr> = initPhase m0"
    by (simp add: initPhase_def)
  with True parent wf show ?thesis
    by (simp add: reconcile_run_def Reconcile_def Get_nofault Status_Update_nofault [where stored = m0]
          createStripPrefixMiddleware_nofault afterInit_def Let_def initPhase_def)
next
  case False
  with parent wf show ?thesis
    by (simp add: reconcile_run_def Reconcile_def Get_nofault
          createStripPrefixMiddleware_nofault afterInit_def Let_def)
qed

lemma listedPods_cong:
  "Meta m = Meta m' \<Longrightarrow> pods s = pods s' \<Longrightarrow> listedPods m s = listedPods m' s'"
  by (simp add: listedPods_def)

lemma afterInit_calls:
  "phases_written (calls (afterInit req m0 s)) = (if Phase (Status m0) = [] then [''Pending''] else [])"
  "\<not> list_ex is_Create (calls (afterInit req m0 s))"
  "list_ex is_StatusUpdate (calls (afterInit req m0 s)) = (Phase (Status m0) = [])"
  by (simp_all add: afterInit_def Let_def initPhase_def)

lemma afterMiddleware_calls:
  "phases_written (calls (afterMiddleware m c)) = phases_written (calls c)"
  "list_ex is_StatusUpdate (calls (afterMiddleware m c)) = list_ex is_StatusUpdate (calls c)"
  "list_ex is_Create (calls (afterMiddleware m c))
     = (list_ex is_Create (calls c)
        \<or> configmaps (store c) (Namespace (Meta m), Name (Meta m) @ ''-stripprefix'') = None)"
  by (auto simp: afterMiddleware_def Let_def split: option.splits)

lemma afterMiddleware_configmaps:
  "configmaps (store (afterMiddleware m c)) =
    (case configmaps (store c) (Namespace (Meta m), Name (Meta m) @ ''-stripprefix'') of
       None \<Rightarrow> (configmaps (store c))((Namespace (Meta m), Name (Meta m) @ ''-stripprefix'')
                   \<mapsto> stripPrefixMiddleware m)
     | Some found \<Rightarrow> configmaps (store c))"
  by (simp add: afterMiddleware_def Let_def split: option.splits)

text \<open>A run that finds the three children: it computes the status and returns without
  requeue.\<close>

lemma Reconcile_children_present:
  fixes P :: platform
  assumes parent: "modelserves s req = Some m0" and wf: "key_of (Meta m0) = req"
      and dep: "deployments s req = Some d" and svc: "services s req = Some sv"
      and ing: "ingresses s req = Some ig"
  defines "x \<equiv> observedStatus P (initPhase m0) d (serviceForModelServe m0) (listedPods m0 s)"
  defines "c' \<equiv> snd (reconcile_run P req [] s)"
  shows "fst (reconcile_run P req [] s) = (Result False, None)"
    and "modelserves (store c') = (modelserves s)(req \<mapsto> m0\<lparr>Status := fst x\<rparr>)"
    and "deployments (store c') = deployments s" and "services (store c') = services s"
    and "ingresses (store c') = ingresses s" and "pods (store c') = pods s"
    and "configmaps (store c') =
          (case configmaps s (Namespace (Meta m0), Name (Meta m0) @ ''-stripprefix'') of
             None \<Rightarrow> (configmaps s)((Namespace (Meta m0), Name (Meta m0) @ ''-stripprefix'')
                         \<mapsto> stripPrefixMiddleware m0)
           | Some found \<Rightarrow> configmaps s)"
    and "phases_written (calls c') =
          (if Phase (Status m0) = [] then [''Pending''] else [])
          @ (if snd x then [Phase (fst x)] else [])"
    and "list_ex is_StatusUpdate (calls c') = (Phase (Status m0) = [] \<or> snd x)"
    and "list_ex is_Create (calls c')
          = (configmaps s (Namespace (Meta m0), Name (Meta m0) @ ''-stripprefix'') = None)"
proof -
  let ?m = "initPhase m0"
  let ?c = "afterMiddleware ?m (afterInit req m0 s)"
  let ?c1 = "record_call (Get Deployments req) None ?c"
  let ?c2 = "record_call (Get Services req) None ?c1"
  let ?c3 = "record_call (Get Ingresses req) None ?c2"
  have key: "key_of (Meta ?m) = req" using wf by simp
  have stored: "modelserves (store ?c3) (key_of (Meta ?m)) = Some ?m"
    using parent key by (simp add: afterInit_parent)
  have sv: "serviceForModelServe ?m = serviceForModelServe m0"
    by (simp add: serviceForModelServe_def)
  have pods: "listedPods ?m (store ?c3) = listedPods m0 s"
    by (rule listedPods_cong) simp_all
  have mw: "stripPrefixMiddleware ?m = stripPrefixMiddleware m0"
    by (simp add: stripPrefixMiddleware_def)
  have run: "reconcile_run P req [] s = reconcileStatus P ?m d (serviceForModelServe m0) ?c3"
    using parent wf dep svc ing key
    by (simp add: Reconcile_nofault reconcileDeployment_nofault [where stored = ?m]
          afterInit_parent reconcileService_nofault reconcileIngress_nofault sv)
  note st = reconcileStatus_nofault [of ?c3 ?m ?m P d "serviceForModelServe m0", OF _ stored,
              simplified pods Let_def, folded x_def]
  have same: "\<not> snd x \<Longrightarrow> Status ?m = fst x"
    unfolding x_def by (rule observedStatus_unchanged [symmetric])
  have upd: "?m\<lparr>Status := fst x\<rparr> = m0\<lparr>Status := fst x\<rparr>"
    by (simp add: initPhase_def)
  have keep: "\<not> snd x \<Longrightarrow> ?m = m0\<lparr>Status := fst x\<rparr>"
    using same upd by (metis ModelServe.surjective ModelServe.update_convs(3))
  show "fst (reconcile_run P req [] s) = (Result False, None)"
    by (simp add: run st)
  show "modelserves (store c') = (modelserves s)(req \<mapsto> m0\<lparr>Status := fst x\<rparr>)"
  proof (cases "snd x")
    case True
    then show ?thesis using parent key by (simp add: c'_def run st afterInit_parent upd)
  next
    case False
    then have "modelserves (store c') = (modelserves s)(req \<mapsto> ?m)"
      using parent by (simp add: c'_def run st afterInit_parent)
    with keep [OF False] show ?thesis by simp
  qed
  show "deployments (store c') = deployments s" "services (store c') = services s"
    "ingresses (store c') = ingresses s" "pods (store c') = pods s"
    by (simp_all add: c'_def run st)
  show "configmaps (store c') =
          (case configmaps s (Namespace (Meta m0), Name (Meta m0) @ ''-stripprefix'') of
             None \<Rightarrow> (configmaps s)((Namespace (Meta m0), Name (Meta m0) @ ''-stripprefix'')
                         \<mapsto> stripPrefixMiddleware m0)
           | Some found \<Rightarrow> configmaps s)"
    by (simp add: c'_def run st afterMiddleware_configmaps mw split: option.splits)
  show "phases_written (calls c') =
          (if Phase (Status m0) = [] then [''Pending''] else [])
          @ (if snd x then [Phase (fst x)] else [])"
    by (simp add: c'_def run st afterInit_calls afterMiddleware_calls)
  show "list_ex is_StatusUpdate (calls c') = (Phase (Status m0) = [] \<or> snd x)"
    by (simp add: c'_def run st afterInit_calls afterMiddleware_calls)
  show "list_ex is_Create (calls c')
          = (configmaps s (Namespace (Meta m0), Name (Meta m0) @ ''-stripprefix'') = None)"
    by (simp add: c'_def run st afterInit_calls afterMiddleware_calls)
qed

text \<open>A run that finds a child missing creates it and asks for a requeue: one child per
  run.\<close>

lemma Reconcile_deployment_missing:
  fixes P :: platform
  assumes parent: "modelserves s req = Some m0" and wf: "key_of (Meta m0) = req"
      and dep: "deployments s req = None"
  defines "c' \<equiv> snd (reconcile_run P req [] s)"
  shows "fst (reconcile_run P req [] s) = (Result True, None)"
    and "modelserves (store c') =
           (modelserves s)(req \<mapsto> m0\<lparr>Status := (Status (initPhase m0))\<lparr>Phase := ''Downloading'',
                               Message := ''Downloading model from MinIO''\<rparr>\<rparr>)"
    and "deployments (store c') = (deployments s)(req \<mapsto> deploymentForModelServe P (initPhase m0))"
    and "phases_written (calls c') =
          (if Phase (Status m0) = [] then [''Pending''] else []) @ [''Downloading'']"
    and "list_ex is_Create (calls c')"
proof -
  let ?m = "initPhase m0"
  let ?c = "afterMiddleware ?m (afterInit req m0 s)"
  have key: "key_of (Meta ?m) = req" using wf by simp
  have stored: "modelserves (store ?c) (key_of (Meta ?m)) = Some ?m"
    using parent key by (simp add: afterInit_parent)
  have upd: "?m\<lparr>Status := (Status ?m)\<lparr>Phase := ''Downloading'',
                               Message := ''Downloading model from MinIO''\<rparr>\<rparr>
           = m0\<lparr>Status := (Status ?m)\<lparr>Phase := ''Downloading'',
                               Message := ''Downloading model from MinIO''\<rparr>\<rparr>"
    by (simp add: initPhase_def)
  note run = reconcileDeployment_nofault [of ?c ?m ?m P, OF _ stored, simplified key]
  show "fst (reconcile_run P req [] s) = (Result True, None)"
    using parent wf dep by (simp add: Reconcile_nofault run)
  show "modelserves (store c') =
           (modelserves s)(req \<mapsto> m0\<lparr>Status := (Status (initPhase m0))\<lparr>Phase := ''Downloading'',
                               Message := ''Downloading model from MinIO''\<rparr>\<rparr>)"
    using parent wf dep by (simp add: c'_def Reconcile_nofault run afterInit_parent upd)
  show "deployments (store c') = (deployments s)(req \<mapsto> deploymentForModelServe P (initPhase m0))"
    using parent wf dep by (simp add: c'_def Reconcile_nofault run)
  show "phases_written (calls c') =
          (if Phase (Status m0) = [] then [''Pending''] else []) @ [''Downloading'']"
    using parent wf dep
    by (simp add: c'_def Reconcile_nofault run afterInit_calls afterMiddleware_calls)
  show "list_ex is_Create (calls c')"
    using parent wf dep by (simp add: c'_def Reconcile_nofault run)
qed

lemma Reconcile_child_missing:
  fixes P :: platform
  assumes parent: "modelserves s req = Some m0" and wf: "key_of (Meta m0) = req"
      and dep: "deployments s req = Some d"
      and missing: "services s req = None \<or> ingresses s req = None"
  defines "c' \<equiv> snd (reconcile_run P req [] s)"
  shows "fst (reconcile_run P req [] s) = (Result True, None)"
    and "modelserves (store c') = (modelserves s)(req \<mapsto> initPhase m0)"
    and "deployments (store c') = deployments s"
    and "phases_written (calls c') = (if Phase (Status m0) = [] then [''Pending''] else [])"
    and "list_ex is_Create (calls c')"
proof -
  let ?m = "initPhase m0"
  let ?c = "afterMiddleware ?m (afterInit req m0 s)"
  have key: "key_of (Meta ?m) = req" using wf by simp
  have stored: "modelserves (store ?c) (key_of (Meta ?m)) = Some ?m"
    using parent key by (simp add: afterInit_parent)
  have run: "reconcile_run P req [] s =
               reconcileService P ?m d (record_call (Get Deployments req) None ?c)"
    using parent wf dep key
    by (simp add: Reconcile_nofault reconcileDeployment_nofault [where stored = ?m]
          afterInit_parent)
  note rules = c'_def run reconcileService_nofault reconcileIngress_nofault key wf
    afterInit_parent afterInit_calls afterMiddleware_calls
  show "fst (reconcile_run P req [] s) = (Result True, None)"
    using missing by (auto simp: rules split: option.splits)
  show "modelserves (store c') = (modelserves s)(req \<mapsto> initPhase m0)"
    using missing parent by (auto simp: rules split: option.splits)
  show "deployments (store c') = deployments s"
    using missing by (auto simp: rules split: option.splits)
  show "phases_written (calls c') = (if Phase (Status m0) = [] then [''Pending''] else [])"
    using missing by (auto simp: rules split: option.splits)
  show "list_ex is_Create (calls c')"
    using missing by (auto simp: rules split: option.splits)
qed

lemma Reconcile_no_requeue:
  assumes parent: "modelserves s req = Some m0" and wf: "key_of (Meta m0) = req"
      and first: "fst (reconcile_run P req [] s) = (Result False, None)"
  shows "\<exists>d sv ig. deployments s req = Some d \<and> services s req = Some sv
                   \<and> ingresses s req = Some ig"
proof (cases "deployments s req")
  case None
  from Reconcile_deployment_missing(1) [OF parent wf None, of P] first show ?thesis by simp
next
  case (Some d)
  show ?thesis
  proof (cases "services s req = None \<or> ingresses s req = None")
    case True
    from Reconcile_child_missing(1) [OF parent wf Some True, of P] first show ?thesis by simp
  next
    case False
    with Some show ?thesis by auto
  qed
qed

lemma Reconcile_deployment_missing_frame:
  assumes parent: "modelserves s req = Some m0" and wf: "key_of (Meta m0) = req"
      and dep: "deployments s req = None"
  shows "services (store (snd (reconcile_run P req [] s))) = services s"
    and "ingresses (store (snd (reconcile_run P req [] s))) = ingresses s"
proof -
  let ?m = "initPhase m0"
  let ?c = "afterMiddleware ?m (afterInit req m0 s)"
  have key: "key_of (Meta ?m) = req" using wf by simp
  have stored: "modelserves (store ?c) (key_of (Meta ?m)) = Some ?m"
    using parent key by (simp add: afterInit_parent)
  note run = reconcileDeployment_nofault [of ?c ?m ?m P, OF _ stored, simplified key]
  show "services (store (snd (reconcile_run P req [] s))) = services s"
    using parent wf dep by (simp add: Reconcile_nofault run)
  show "ingresses (store (snd (reconcile_run P req [] s))) = ingresses s"
    using parent wf dep by (simp add: Reconcile_nofault run)
qed

lemma Reconcile_child_missing_creates:
  assumes parent: "modelserves s req = Some m0" and wf: "key_of (Meta m0) = req"
      and dep: "deployments s req = Some d"
      and missing: "services s req = None \<or> ingresses s req = None"
  shows "services (store (snd (reconcile_run P req [] s))) =
           (case services s req of
              None \<Rightarrow> (services s)(req \<mapsto> serviceForModelServe (initPhase m0))
            | Some sv \<Rightarrow> services s)"
    and "ingresses (store (snd (reconcile_run P req [] s))) =
           (case services s req of
              None \<Rightarrow> ingresses s
            | Some sv \<Rightarrow> (ingresses s)(req \<mapsto> ingressForModelServe (initPhase m0)))"
proof -
  let ?m = "initPhase m0"
  let ?c = "afterMiddleware ?m (afterInit req m0 s)"
  have key: "key_of (Meta ?m) = req" using wf by simp
  have stored: "modelserves (store ?c) (key_of (Meta ?m)) = Some ?m"
    using parent key by (simp add: afterInit_parent)
  have run: "reconcile_run P req [] s =
               reconcileService P ?m d (record_call (Get Deployments req) None ?c)"
    using parent wf dep key
    by (simp add: Reconcile_nofault reconcileDeployment_nofault [where stored = ?m]
          afterInit_parent)
  note rules = run reconcileService_nofault reconcileIngress_nofault key wf
    afterInit_parent afterInit_calls afterMiddleware_calls
  show "services (store (snd (reconcile_run P req [] s))) =
           (case services s req of
              None \<Rightarrow> (services s)(req \<mapsto> serviceForModelServe (initPhase m0))
            | Some sv \<Rightarrow> services s)"
    using missing by (auto simp: rules split: option.splits)
  show "ingresses (store (snd (reconcile_run P req [] s))) =
           (case services s req of
              None \<Rightarrow> ingresses s
            | Some sv \<Rightarrow> (ingresses s)(req \<mapsto> ingressForModelServe (initPhase m0)))"
    using missing by (auto simp: rules split: option.splits)
qed

text \<open>
  C8 (amended). \<open>status.gatewayURL\<close> is the text \<open>http://localhost/\<close> followed by the
  parent's name, a function of the name alone, with no slash after the name. A reconcile
  that meets no fault and finds the workload, the network endpoint and the route records
  it in the status, and with it the phase \<open>Running\<close> when the workload has an available
  replica.
\<close>

theorem gatewayURL_recorded:
  assumes parent: "modelserves s req = Some m0" and wf: "key_of (Meta m0) = req"
      and dep: "deployments s req = Some d" and svc: "services s req = Some sv"
      and ing: "ingresses s req = Some ig"
  shows "fst (reconcile_run P req [] s) = (Result False, None)
         \<and> (\<exists>m'. modelserves (store (snd (reconcile_run P req [] s))) req = Some m'
                \<and> GatewayURL (Status m') = ''http://localhost/'' @ Name (Meta m0)
                \<and> (0 < sint (deployment_AvailableReplicas d) \<longrightarrow> Phase (Status m') = ''Running''))"
  using Reconcile_children_present(1,2) [OF assms, of P]
  by (simp add: observedStatus_sets observedStatus_Phase)

text \<open>After a run that found every child, a second run creates nothing and leaves the
  store as it is; it sends no status update either, unless the phase is \<open>Pending\<close>.\<close>

lemma rerun_after_no_requeue:
  assumes wf: "case modelserves s req of None \<Rightarrow> True | Some m0 \<Rightarrow> key_of (Meta m0) = req"
      and first: "fst (reconcile_run P req [] s) = (Result False, None)"
  shows "\<not> list_ex is_Create (calls (snd (reconcile_run P' req [] (store (snd (reconcile_run P req [] s))))))
       \<and> store (snd (reconcile_run P' req [] (store (snd (reconcile_run P req [] s)))))
           = store (snd (reconcile_run P req [] s))
       \<and> ((case modelserves (store (snd (reconcile_run P req [] s))) req of
              None \<Rightarrow> True | Some m1 \<Rightarrow> Phase (Status m1) \<noteq> ''Pending'')
           \<longrightarrow> \<not> list_ex is_StatusUpdate
                  (calls (snd (reconcile_run P' req [] (store (snd (reconcile_run P req [] s)))))))"
proof (cases "modelserves s req")
  case None
  have s1: "store (snd (reconcile_run P req [] s)) = s"
    by (rule Reconcile_absent(1) [OF None])
  from Reconcile_absent [OF None, of P' "[]"] show ?thesis
    by (auto simp: s1)
next
  case (Some m0)
  with wf have key: "key_of (Meta m0) = req" by simp
  from Reconcile_no_requeue [OF Some key first] obtain d sv ig
    where dep: "deployments s req = Some d" and svc: "services s req = Some sv"
      and ing: "ingresses s req = Some ig" by blast
  let ?s1 = "store (snd (reconcile_run P req [] s))"
  let ?items = "listedPods m0 s"
  let ?x = "observedStatus P (initPhase m0) d (serviceForModelServe m0) ?items"
  let ?m1 = "m0\<lparr>Status := fst ?x\<rparr>"
  let ?cmk = "(Namespace (Meta m0), Name (Meta m0) @ ''-stripprefix'')"
  note r1 = Reconcile_children_present [OF Some key dep svc ing, of P]
  have parent1: "modelserves ?s1 req = Some ?m1" by (simp add: r1(2))
  have key1: "key_of (Meta ?m1) = req" using key by simp
  have dep1: "deployments ?s1 req = Some d" by (simp add: r1(3) dep)
  have svc1: "services ?s1 req = Some sv" by (simp add: r1(4) svc)
  have ing1: "ingresses ?s1 req = Some ig" by (simp add: r1(5) ing)
  have cm1: "configmaps ?s1 ?cmk \<noteq> None" by (simp add: r1(7) split: option.splits)
  have ph1: "Phase (fst ?x) \<noteq> []" by (rule observedStatus_Phase_nonempty) simp
  then have init1: "initPhase ?m1 = ?m1" by simp
  have items1: "listedPods ?m1 ?s1 = ?items" by (rule listedPods_cong) (simp_all add: r1(6))
  have svm: "serviceForModelServe ?m1 = serviceForModelServe m0"
    by (simp add: serviceForModelServe_def)
  have m1: "?m1 = (initPhase m0)\<lparr>Status := fst ?x\<rparr>" by (simp add: initPhase_def)
  let ?x2 = "observedStatus P' ?m1 d (serviceForModelServe m0) ?items"
  have fx2: "fst ?x2 = fst ?x" unfolding m1 by (rule observedStatus_idem)
  note r2 = Reconcile_children_present [OF parent1 key1 dep1 svc1 ing1, of P',
              unfolded init1 items1 svm]
  let ?s2 = "store (snd (reconcile_run P' req [] ?s1))"
  have "modelserves ?s2 = (modelserves ?s1)(req \<mapsto> ?m1)"
    using r2(2) by (simp add: fx2)
  then have a: "modelserves ?s2 = modelserves ?s1" using parent1 by (simp add: fun_upd_idem)
  have b: "configmaps ?s2 = configmaps ?s1"
    using cm1 r2(7) by (auto split: option.splits)
  have same: "?s2 = ?s1"
    by (rule cluster.equality) (simp_all add: a b r2(3-6))
  have creates: "\<not> list_ex is_Create (calls (snd (reconcile_run P' req [] ?s1)))"
    using cm1 r2(10) by simp
  have writes: "Phase (fst ?x) \<noteq> ''Pending''
      \<Longrightarrow> \<not> list_ex is_StatusUpdate (calls (snd (reconcile_run P' req [] ?s1)))"
    using r2(9) ph1 observedStatus_quiet [of P "initPhase m0" d "serviceForModelServe m0" ?items P']
    by (simp add: m1 [symmetric])
  from same creates writes parent1 show ?thesis by simp
qed

text \<open>
  C3 (amended). If a reconcile that meets no fault returns without error and without
  asking for a requeue (it found every child, or the object is absent), then a second one,
  with no change to the store in between, creates no child resource and leaves every
  stored object as it is, status included.
\<close>

theorem second_run_quiescent:
  assumes wf: "case modelserves s req of None \<Rightarrow> True | Some m0 \<Rightarrow> key_of (Meta m0) = req"
      and first: "fst (reconcile_run P req [] s) = (Result False, None)"
  shows "\<not> list_ex is_Create (calls (snd (reconcile_run P' req [] (store (snd (reconcile_run P req [] s))))))
       \<and> store (snd (reconcile_run P' req [] (store (snd (reconcile_run P req [] s)))))
           = store (snd (reconcile_run P req [] s))"
  using rerun_after_no_requeue [OF wf first, of P'] by blast

text \<open>That the status is written only when a field has changed does not hold of the
  code in one state. The branch for a workload without an available replica sets
  \<open>Pending\<close> and \<open>needsStatusUpdate\<close> without comparing with the phase it replaces,
  where the branch for \<open>Running\<close> and the three observed fields compare first. With the
  phase \<open>Pending\<close> and no available replica, every run sends a status update.\<close>

lemma Pending_always_rewritten:
  assumes parent: "modelserves s req = Some m0" and wf: "key_of (Meta m0) = req"
      and dep: "deployments s req = Some d" and svc: "services s req = Some sv"
      and ing: "ingresses s req = Some ig"
      and idle: "\<not> 0 < sint (deployment_AvailableReplicas d)"
      and ph: "Phase (Status m0) = ''Pending''"
  shows "list_ex is_StatusUpdate (calls (snd (reconcile_run P req [] s)))"
proof -
  have init: "initPhase m0 = m0" using ph by simp
  have "Phase (fst (observedFields m0 d (serviceForModelServe m0))) = ''Pending''"
    using ph by (simp add: observedFields_frame)
  then have "snd (observedStatus P m0 d (serviceForModelServe m0) (listedPods m0 s))"
    using idle
    by (cases "observedFields m0 d (serviceForModelServe m0)")
       (simp add: observedStatus_def markPending_def)
  then show ?thesis
    using Reconcile_children_present(9) [OF parent wf dep svc ing, of P]
    by (simp add: init)
qed

section \<open>The order of the phases\<close>

lemma remdups_adj_snoc:
  "xs \<noteq> [] \<Longrightarrow> remdups_adj (xs @ [y]) = (if last xs = y then remdups_adj xs else remdups_adj xs @ [y])"
  by (simp add: remdups_adj_append'')

lemma remdups_adj_last_eq: "remdups_adj xs = ys \<Longrightarrow> ys \<noteq> [] \<Longrightarrow> last xs = last ys"
  by (metis last_remdups_adj)

lemma children_Reconciled:
  assumes parent: "modelserves s req = Some m0" and wf: "key_of (Meta m0) = req"
  shows "min 3 (Suc (children req s)) \<le> children req (store (snd (reconcile_run P req [] s)))"
proof (cases "deployments s req")
  case None
  note r = Reconcile_deployment_missing(3) [OF parent wf None, of P]
  show ?thesis using None by (simp add: children_def r)
next
  case (Some d)
  show ?thesis
  proof (cases "services s req = None \<or> ingresses s req = None")
    case True
    note r = Reconcile_child_missing(3) [OF parent wf Some True, of P]
      Reconcile_child_missing_creates [OF parent wf Some True, of P]
    show ?thesis using Some True by (auto simp: children_def r split: option.splits)
  next
    case False
    then obtain sv ig where c: "services s req = Some sv" "ingresses s req = Some ig" by auto
    note r = Reconcile_children_present(3,4,5) [OF parent wf Some c, of P]
    show ?thesis using Some c by (simp add: children_def r)
  qed
qed

lemma lifecycle_Reconciled:
  assumes lc: "lifecycle req up (s, tr)"
  shows "lifecycle req up (store (snd (reconcile_run P req [] s)), tr @ calls (snd (reconcile_run P req [] s)))"
    and "map_option (Phase \<circ> Status) (modelserves (store (snd (reconcile_run P req [] s))) req)
           = Some (if childrenReady req s then ''Running'' else ''Downloading'')"
proof -
  let ?c = "snd (reconcile_run P req [] s)"
  let ?goal = "lifecycle req up (store ?c, tr @ calls ?c)
     \<and> map_option (Phase \<circ> Status) (modelserves (store ?c) req)
           = Some (if childrenReady req s then ''Running'' else ''Downloading'')"
  from lc obtain m0 where parent: "modelserves s req = Some m0" and wf: "key_of (Meta m0) = req"
    by (auto simp: lifecycle_def split: option.splits)
  from lc parent have upc: "case deployments s req of
      None \<Rightarrow> True | Some d \<Rightarrow> up \<or> \<not> 0 < sint (deployment_AvailableReplicas d)"
    by (simp add: lifecycle_def)
  from lc parent consider
      (fresh) "Phase (Status m0) = []" "deployments s req = None" "phases_written tr = []"
    | (downloading) d where "Phase (Status m0) = ''Downloading''" "deployments s req = Some d"
        "remdups_adj (phases_written tr) = [''Pending'', ''Downloading'']"
    | (running) d sv ig where "Phase (Status m0) = ''Running''" "deployments s req = Some d"
        "0 < sint (deployment_AvailableReplicas d)"
        "remdups_adj (phases_written tr) = [''Pending'', ''Downloading'', ''Running'']"
        "services s req = Some sv" "ingresses s req = Some ig"
    by (auto simp: lifecycle_def childrenReady_def split: option.splits)
  then have ?goal
  proof cases
    case fresh
    note r = Reconcile_deployment_missing [OF parent wf fresh(2), of P]
      Reconcile_deployment_missing_frame [OF parent wf fresh(2), of P]
    show ?thesis
      using wf upc fresh by (simp add: lifecycle_def childrenReady_def r(2,3,4))
  next
    case downloading
    then have ne: "phases_written tr \<noteq> []" by auto
    have lst: "last (phases_written tr) = ''Downloading''"
      using remdups_adj_last_eq [OF downloading(3)] by simp
    have init: "initPhase m0 = m0" using downloading(1) by simp
    show ?thesis
    proof (cases "services s req = None \<or> ingresses s req = None")
      case True
      note r = Reconcile_child_missing [OF parent wf downloading(2) True, of P]
      have nr: "\<not> childrenReady req s" using True by (auto simp: childrenReady_def)
      show ?thesis
        using wf upc downloading nr by (simp add: lifecycle_def r(2,3,4) init)
    next
      case False
      then obtain sv ig where ch: "services s req = Some sv" "ingresses s req = Some ig" by auto
      note r = Reconcile_children_present [OF parent wf downloading(2) ch, of P, unfolded init]
      let ?x = "observedStatus P m0 d (serviceForModelServe m0) (listedPods m0 s)"
      have ph: "Phase (fst ?x) = (if 0 < sint (deployment_AvailableReplicas d)
                                  then ''Running'' else ''Downloading'')"
        using downloading(1) by (simp add: observedStatus_Phase)
      have rd: "childrenReady req s = (0 < sint (deployment_AvailableReplicas d))"
        using downloading(2) ch by (simp add: childrenReady_def)
      have rd': "childrenReady req (store ?c) = (0 < sint (deployment_AvailableReplicas d))"
        using downloading(2) ch by (simp add: childrenReady_def r(3,4,5))
      show ?thesis
      proof (cases "snd ?x")
        case False
        from observedStatus_unchanged [OF False] downloading(1)
        have "Phase (fst ?x) = ''Downloading''" by simp
        with False wf upc downloading ph rd show ?thesis
          by (simp add: lifecycle_def r(2,3,8) split: if_splits)
      next
        case True
        with wf upc downloading ne lst ph rd rd' show ?thesis
          by (simp add: lifecycle_def r(2,3,8) remdups_adj_snoc)
      qed
    qed
  next
    case running
    then have ne: "phases_written tr \<noteq> []" by auto
    have lst: "last (phases_written tr) = ''Running''"
      using remdups_adj_last_eq [OF running(4)] by simp
    have init: "initPhase m0 = m0" using running(1) by simp
    note r = Reconcile_children_present [OF parent wf running(2,5,6), of P, unfolded init]
    let ?x = "observedStatus P m0 d (serviceForModelServe m0) (listedPods m0 s)"
    have ph: "Phase (fst ?x) = ''Running''"
      using running(3) by (simp add: observedStatus_Phase)
    have rd: "childrenReady req s"
      using running by (simp add: childrenReady_def)
    have rd': "childrenReady req (store ?c)"
      using running by (simp add: childrenReady_def r(3,4,5))
    from ph rd rd' wf upc running ne lst show ?thesis
      by (simp add: lifecycle_def r(2,3,8) remdups_adj_snoc)
  qed
  then show "lifecycle req up (store ?c, tr @ calls ?c)"
    and "map_option (Phase \<circ> Status) (modelserves (store ?c) req)
           = Some (if childrenReady req s then ''Running'' else ''Downloading'')"
    by simp_all
qed

lemma lifecycle_Available:
  assumes "lifecycle req up (s, tr)" and "if 0 < sint n then up' else \<not> up"
  shows "lifecycle req up' (reportAvailable req n s, tr)"
  using assms
  by (auto simp: lifecycle_def childrenReady_def reportAvailable_def split: option.splits if_splits)

lemma lifecycle_PodsChanged:
  assumes "lifecycle req up (s, tr)"
  shows "lifecycle req up (s\<lparr>pods := ps\<rparr>, tr)"
  using assms by (auto simp: lifecycle_def childrenReady_def split: option.splits)

lemma children_events [simp]:
  "children req (reportAvailable req n s) = children req s"
  "children req (s\<lparr>pods := ps\<rparr>) = children req s"
  by (auto simp: children_def reportAvailable_def split: option.splits)

lemma lifecycle_history:
  assumes "lifecycle req up acc" and "steady up evs"
  shows "(\<exists>up'. lifecycle req up' (history P req evs acc))
       \<and> min 3 (children req (fst acc) + reconciles evs)
            \<le> children req (fst (history P req evs acc))"
  using assms
proof (induction P req evs acc arbitrary: up rule: history.induct)
  case (1 P req acc)
  then show ?case by auto
next
  case (2 P req t evs s tr)
  let ?c = "snd (reconcile_run (P\<lparr>time_now := t\<rparr>) req [] s)"
  from "2.prems"(1) obtain m0 where parent: "modelserves s req = Some m0"
      and wf: "key_of (Meta m0) = req"
    by (auto simp: lifecycle_def split: option.splits)
  note step = children_Reconciled [OF parent wf, of "P\<lparr>time_now := t\<rparr>"]
  from lifecycle_Reconciled(1) [OF "2.prems"(1), of "P\<lparr>time_now := t\<rparr>"] "2.prems"(2)
  have ih: "(\<exists>up'. lifecycle req up' (history P req evs (store ?c, tr @ calls ?c)))
       \<and> min 3 (children req (store ?c) + reconciles evs)
            \<le> children req (fst (history P req evs (store ?c, tr @ calls ?c)))"
    using "2.IH" [of ?c up] by simp
  from step have mono: "min 3 (children req s + Suc (reconciles evs))
                   \<le> min 3 (children req (store ?c) + reconciles evs)"
    by arith
  from ih have a: "\<exists>up'. lifecycle req up' (history P req evs (store ?c, tr @ calls ?c))"
    by blast
  from ih have "min 3 (children req (store ?c) + reconciles evs)
            \<le> children req (fst (history P req evs (store ?c, tr @ calls ?c)))"
    by blast
  with mono have b: "min 3 (children req s + Suc (reconciles evs))
            \<le> children req (fst (history P req evs (store ?c, tr @ calls ?c)))"
    by (rule order_trans)
  from a b show ?case by (simp add: Let_def)
next
  case (3 P req n evs s tr)
  show ?case
  proof (cases "0 < sint n")
    case True
    with "3.prems" have "lifecycle req True (reportAvailable req n s, tr)" and "steady True evs"
      by (auto intro: lifecycle_Available)
    from "3.IH" [OF this] show ?thesis by simp
  next
    case False
    with "3.prems" have "lifecycle req False (reportAvailable req n s, tr)" and "steady False evs"
      by (auto intro: lifecycle_Available)
    from "3.IH" [OF this] show ?thesis by simp
  qed
next
  case (4 P req ps evs s tr)
  from lifecycle_PodsChanged [OF "4.prems"(1), of ps] "4.prems"(2)
  have "lifecycle req up (s\<lparr>pods := ps\<rparr>, tr)" and "steady up evs" by simp_all
  from "4.IH" [OF this] show ?case by simp
qed

lemma history_append:
  "history P req (evs @ evs') acc = history P req evs' (history P req evs acc)"
  by (induction P req evs acc rule: history.induct) (simp_all add: Let_def)

lemma phase_order_fresh:
  assumes "modelserves s req = Some m0" and "key_of (Meta m0) = req"
      and "Phase (Status m0) = []" and "deployments s req = None"
      and "steady False evs"
  shows "remdups_adj (phases_written (snd (history P req evs (s, []))))
           \<in> {[], [''Pending'', ''Downloading''], [''Pending'', ''Downloading'', ''Running'']}"
    and "remdups_adj (phases_written (snd (history P req (evs @ [Reconciled t]) (s, []))))
           = (if childrenReady req (fst (history P req evs (s, [])))
              then [''Pending'', ''Downloading'', ''Running'']
              else [''Pending'', ''Downloading''])"
    and "3 \<le> reconciles evs \<Longrightarrow>
           deployments (fst (history P req evs (s, []))) req \<noteq> None
           \<and> services (fst (history P req evs (s, []))) req \<noteq> None
           \<and> ingresses (fst (history P req evs (s, []))) req \<noteq> None"
proof -
  have "lifecycle req False (s, [])" using assms(1-4) by (simp add: lifecycle_def)
  note h = lifecycle_history [OF this assms(5), of P]
  from h show "remdups_adj (phases_written (snd (history P req evs (s, []))))
           \<in> {[], [''Pending'', ''Downloading''], [''Pending'', ''Downloading'', ''Running'']}"
    by (auto simp: lifecycle_def split: option.splits)
  obtain s1 tr1 where acc: "history P req evs (s, []) = (s1, tr1)"
    by (cases "history P req evs (s, [])")
  from h acc obtain up' where lc: "lifecycle req up' (s1, tr1)" by auto
  note r = lifecycle_Reconciled [OF lc, of "P\<lparr>time_now := t\<rparr>"]
  show "remdups_adj (phases_written (snd (history P req (evs @ [Reconciled t]) (s, []))))
           = (if childrenReady req (fst (history P req evs (s, [])))
              then [''Pending'', ''Downloading'', ''Running'']
              else [''Pending'', ''Downloading''])"
    using r by (auto simp: history_append acc Let_def lifecycle_def split: option.splits if_splits)
  show "3 \<le> reconciles evs \<Longrightarrow>
           deployments (fst (history P req evs (s, []))) req \<noteq> None
           \<and> services (fst (history P req evs (s, []))) req \<noteq> None
           \<and> ingresses (fst (history P req evs (s, []))) req \<noteq> None"
    using h by (auto simp: children_def split: if_splits)
qed

text \<open>
  C6 (amended). Take a fresh object (no phase) for which no workload exists yet, and any
  history of reconciles that meet no fault, of pod changes and of availability reports in
  which the workload, once available, does not go back to zero. The phases written to the
  status are, in order and up to repetition, a prefix of Pending, Downloading, Running.
  After each reconcile they are exactly Pending, Downloading, or, when that reconcile
  found an available replica of the workload, the network endpoint and the route,
  Pending, Downloading, Running. After three reconciles the workload, the network endpoint
  and the route exist. And whatever the faults, a reconcile that finds the phase
  \<open>Running\<close> and the workload with an available replica neither stores nor writes the
  phase \<open>Pending\<close>.
\<close>

theorem phase_order:
  "(modelserves s req = Some m0 \<and> key_of (Meta m0) = req \<and> Phase (Status m0) = []
      \<and> deployments s req = None \<and> steady False evs
    \<longrightarrow> remdups_adj (phases_written (snd (history P req evs (s, []))))
          \<in> {[], [''Pending'', ''Downloading''], [''Pending'', ''Downloading'', ''Running'']}
       \<and> remdups_adj (phases_written (snd (history P req (evs @ [Reconciled t]) (s, []))))
           = (if childrenReady req (fst (history P req evs (s, [])))
              then [''Pending'', ''Downloading'', ''Running'']
              else [''Pending'', ''Downloading''])
       \<and> (3 \<le> reconciles evs
            \<longrightarrow> deployments (fst (history P req evs (s, []))) req \<noteq> None
               \<and> services (fst (history P req evs (s, []))) req \<noteq> None
               \<and> ingresses (fst (history P req evs (s, []))) req \<noteq> None))
   \<and> (modelserves s' req' = Some m1 \<and> key_of (Meta m1) = req' \<and> Phase (Status m1) = ''Running''
      \<and> deployments s' req' = Some d \<and> 0 < sint (deployment_AvailableReplicas d)
    \<longrightarrow> (\<exists>m'. modelserves (store (snd (reconcile_run P' req' fs s'))) req' = Some m'
              \<and> Phase (Status m') \<noteq> ''Pending'')
       \<and> ''Pending'' \<notin> set (phases_written (calls (snd (reconcile_run P' req' fs s')))))"
  using phase_order_fresh(1) [of s req m0 evs P] phase_order_fresh(2) [of s req m0 evs P t]
    phase_order_fresh(3) [of s req m0 evs P] Running_not_Pending [of s' req' m1 d P' fs]
  by blast

section \<open>The demo request, run by run\<close>

lemma builders_ignore_Status1 [simp]:
  "deploymentForModelServe P (m\<lparr>Status := st\<rparr>) = deploymentForModelServe P m"
proof -
  have "Meta (m\<lparr>Status := st\<rparr>) = Meta m" and "Spec (m\<lparr>Status := st\<rparr>) = Spec m"
    by simp_all
  then show ?thesis unfolding deploymentForModelServe_def by (simp only:)
qed

lemma builders_ignore_Status2 [simp]:
  "serviceForModelServe (m\<lparr>Status := st\<rparr>) = serviceForModelServe m"
  "ingressForModelServe (m\<lparr>Status := st\<rparr>) = ingressForModelServe m"
  "stripPrefixMiddleware (m\<lparr>Status := st\<rparr>) = stripPrefixMiddleware m"
  by (simp_all add: serviceForModelServe_def
        ingressForModelServe_def stripPrefixMiddleware_def)

lemma getEnvOrDefault_clock: "getEnvOrDefault (P\<lparr>time_now := t\<rparr>) k d = getEnvOrDefault P k d"
  by (simp add: getEnvOrDefault_def)

lemma deployment_ignores_clock [simp]:
  "deploymentForModelServe (P\<lparr>time_now := t\<rparr>) m = deploymentForModelServe P m"
  unfolding deploymentForModelServe_def by (simp only: getEnvOrDefault_clock)

lemma demo_simps [simp]:
  "Name (Meta demo) = ''demo''" "Namespace (Meta demo) = ''default''"
  "Status demo = emptyStatus" "key_of (Meta demo) = demo_key"
  by (simp_all add: demo_def key_of_def demo_key_def)

lemma stub_clock: "stub_platform\<lparr>time_now := 1000\<rparr> = stub_platform"
  by (simp add: stub_platform_def)

lemmas scenario_defs = demoCluster_def emptyCluster_def downloadingCluster_def
  deployedCluster_def readyCluster_def servingCluster_def servingStatus_def demoPod_def
  emptyStatus_def demo_key_def survivingCluster_def

lemmas eval_defs = initPhase_def afterInit_def afterMiddleware_def listedPods_def
  matchesLabels_def labelsForModelServe_def observedStatus_def observedFields_def
  markRunning_def markPending_def recordPodName_def Let_def

lemmas run_defs = reconcile_run_def Reconcile_def createStripPrefixMiddleware_def
  reconcileDeployment_def reconcileService_def reconcileIngress_def
  client_Get_def client_Create_def client_Status_Update_def client_List_Pods_def
  next_fault_def record_call_def IsNotFound_def Let_def
  NewNotFound_def NewAlreadyExists_def qualifiedResource_def

lemma scenario_parents:
  "modelserves demoCluster demo_key = Some demo"
  "modelserves downloadingCluster demo_key = Some (demo\<lparr>Status := emptyStatus
          \<lparr>Phase := ''Downloading'', Message := ''Downloading model from MinIO''\<rparr>\<rparr>)"
  "modelserves (downloadingCluster\<lparr>services := [demo_key \<mapsto> serviceForModelServe demo]\<rparr>) demo_key
     = Some (demo\<lparr>Status := emptyStatus
          \<lparr>Phase := ''Downloading'', Message := ''Downloading model from MinIO''\<rparr>\<rparr>)"
  "modelserves readyCluster demo_key = Some (demo\<lparr>Status := emptyStatus
          \<lparr>Phase := ''Downloading'', Message := ''Downloading model from MinIO''\<rparr>\<rparr>)"
  "modelserves (servingCluster t) demo_key = Some (demo\<lparr>Status := servingStatus t\<rparr>)"
  by (simp_all add: scenario_defs)

lemma scenario_children:
  "deployments downloadingCluster demo_key = Some (deploymentForModelServe stub_platform demo)"
  "services downloadingCluster demo_key = None"
  "deployments (downloadingCluster\<lparr>services := [demo_key \<mapsto> serviceForModelServe demo]\<rparr>) demo_key
     = Some (deploymentForModelServe stub_platform demo)"
  "ingresses (downloadingCluster\<lparr>services := [demo_key \<mapsto> serviceForModelServe demo]\<rparr>) demo_key
     = None"
  "deployments readyCluster demo_key
     = Some ((deploymentForModelServe stub_platform demo)\<lparr>deployment_AvailableReplicas := 1\<rparr>)"
  "services readyCluster demo_key = Some (serviceForModelServe demo)"
  "ingresses readyCluster demo_key = Some (ingressForModelServe demo)"
  "deployments (servingCluster t) demo_key
     = Some ((deploymentForModelServe stub_platform demo)\<lparr>deployment_AvailableReplicas := 1\<rparr>)"
  "services (servingCluster t) demo_key = Some (serviceForModelServe demo)"
  "ingresses (servingCluster t) demo_key = Some (ingressForModelServe demo)"
  by (simp_all add: downloadingCluster_def deployedCluster_def readyCluster_def
        servingCluster_def)

text \<open>The first run initialises the phase, creates the middleware and the deployment; the
  second creates the service, the third the ingress; the fourth, once a pod runs and a
  replica is available, writes the phase \<open>Running\<close>.\<close>

lemma run1:
  "fst (reconcile_run (stub_platform\<lparr>time_now := t\<rparr>) demo_key [] demoCluster) = (Result True, None)"
  "phases_written (calls (snd (reconcile_run (stub_platform\<lparr>time_now := t\<rparr>) demo_key [] demoCluster)))
     = [''Pending'', ''Downloading'']"
proof -
  have p: "modelserves demoCluster demo_key = Some demo" by (simp add: scenario_defs)
  have d: "deployments demoCluster demo_key = None" by (simp add: scenario_defs)
  note r = Reconcile_deployment_missing [OF p demo_simps(4) d]
  show "fst (reconcile_run (stub_platform\<lparr>time_now := t\<rparr>) demo_key [] demoCluster) = (Result True, None)"
    by (rule r(1))
  show "phases_written (calls (snd (reconcile_run (stub_platform\<lparr>time_now := t\<rparr>) demo_key [] demoCluster)))
     = [''Pending'', ''Downloading'']"
    by (simp add: r(4) emptyStatus_def)
qed

lemma run1_store:
  "store (snd (reconcile_run (stub_platform\<lparr>time_now := t\<rparr>) demo_key [] demoCluster))
     = downloadingCluster"
proof -
  have p: "modelserves demoCluster demo_key = Some demo" by (simp add: scenario_defs)
  have d: "deployments demoCluster demo_key = None" by (simp add: scenario_defs)
  show ?thesis
    unfolding Reconcile_nofault [OF p demo_simps(4)]
    by (simp add:
          reconcileDeployment_nofault [where stored = "demo\<lparr>Status := emptyStatus
            \<lparr>Phase := ''Pending'', Message := ''Initializing model server''\<rparr>\<rparr>"]
          eval_defs emptyStatus_def demoCluster_def emptyCluster_def downloadingCluster_def)
qed

lemma run2:
  "fst (reconcile_run (stub_platform\<lparr>time_now := t\<rparr>) demo_key [] downloadingCluster)
     = (Result True, None)"
  "phases_written (calls (snd (reconcile_run (stub_platform\<lparr>time_now := t\<rparr>) demo_key []
      downloadingCluster))) = []"
  "list_ex is_Create (calls (snd (reconcile_run (stub_platform\<lparr>time_now := t\<rparr>) demo_key []
      downloadingCluster)))"
  using Reconcile_child_missing(1,4,5)
          [OF scenario_parents(2) _ scenario_children(1), of "stub_platform\<lparr>time_now := t\<rparr>"]
        scenario_children(2)
  by (simp_all add: emptyStatus_def)

lemma run2_store:
  "store (snd (reconcile_run (stub_platform\<lparr>time_now := t\<rparr>) demo_key [] downloadingCluster))
     = downloadingCluster\<lparr>services := [demo_key \<mapsto> serviceForModelServe demo]\<rparr>"
  unfolding Reconcile_nofault [OF scenario_parents(2), simplified]
  by (simp add: reconcileDeployment_nofault [where stored = "demo\<lparr>Status := emptyStatus
            \<lparr>Phase := ''Downloading'', Message := ''Downloading model from MinIO''\<rparr>\<rparr>"]
        reconcileService_nofault
        eval_defs emptyStatus_def downloadingCluster_def)

lemma run3:
  "fst (reconcile_run (stub_platform\<lparr>time_now := t\<rparr>) demo_key []
      (downloadingCluster\<lparr>services := [demo_key \<mapsto> serviceForModelServe demo]\<rparr>))
     = (Result True, None)"
  "phases_written (calls (snd (reconcile_run (stub_platform\<lparr>time_now := t\<rparr>) demo_key []
      (downloadingCluster\<lparr>services := [demo_key \<mapsto> serviceForModelServe demo]\<rparr>)))) = []"
  using Reconcile_child_missing(1,4)
          [OF scenario_parents(3) _ scenario_children(3), of "stub_platform\<lparr>time_now := t\<rparr>"]
        scenario_children(4)
  by (simp_all add: emptyStatus_def)

lemma run3_store:
  "store (snd (reconcile_run (stub_platform\<lparr>time_now := t\<rparr>) demo_key []
      (downloadingCluster\<lparr>services := [demo_key \<mapsto> serviceForModelServe demo]\<rparr>)))
     = deployedCluster"
  unfolding Reconcile_nofault [OF scenario_parents(3), simplified]
  by (simp add: reconcileDeployment_nofault [where stored = "demo\<lparr>Status := emptyStatus
            \<lparr>Phase := ''Downloading'', Message := ''Downloading model from MinIO''\<rparr>\<rparr>"]
        reconcileService_nofault reconcileIngress_nofault
        eval_defs emptyStatus_def downloadingCluster_def deployedCluster_def)

lemma becomes_ready:
  "reportAvailable demo_key 1 (deployedCluster\<lparr>pods := [demoPod]\<rparr>) = readyCluster"
  by (simp add: reportAvailable_def readyCluster_def deployedCluster_def downloadingCluster_def)

lemma run4:
  "fst (reconcile_run (stub_platform\<lparr>time_now := t\<rparr>) demo_key [] readyCluster)
     = (Result False, None)"
  "phases_written (calls (snd (reconcile_run (stub_platform\<lparr>time_now := t\<rparr>) demo_key []
      readyCluster))) = [''Running'']"
  using Reconcile_children_present(1,8)
          [OF scenario_parents(4) _ scenario_children(5,6,7), of "stub_platform\<lparr>time_now := t\<rparr>"]
  by (simp_all add: eval_defs emptyStatus_def readyCluster_def demoPod_def)

lemma run4_store:
  "store (snd (reconcile_run (stub_platform\<lparr>time_now := t\<rparr>) demo_key [] readyCluster))
     = servingCluster t"
  unfolding Reconcile_nofault [OF scenario_parents(4), simplified]
  by (simp add: reconcileDeployment_nofault [where stored = "demo\<lparr>Status := emptyStatus
            \<lparr>Phase := ''Downloading'', Message := ''Downloading model from MinIO''\<rparr>\<rparr>"]
        reconcileService_nofault reconcileIngress_nofault
        reconcileStatus_nofault [where stored = "demo\<lparr>Status := emptyStatus
            \<lparr>Phase := ''Downloading'', Message := ''Downloading model from MinIO''\<rparr>\<rparr>"]
        eval_defs emptyStatus_def downloadingCluster_def deployedCluster_def readyCluster_def
        servingCluster_def servingStatus_def demoPod_def stub_platform_def)

lemma demo_reaches_serving:
  "fst (history stub_platform demo_key
          [Reconciled 1, Reconciled 2, Reconciled 3, PodsChanged [demoPod], Available 1,
           Reconciled 4] (demoCluster, [])) = servingCluster 4"
  "phases_written (snd (history stub_platform demo_key
          [Reconciled 1, Reconciled 2, Reconciled 3, PodsChanged [demoPod], Available 1,
           Reconciled 4] (demoCluster, []))) = [''Pending'', ''Downloading'', ''Running'']"
  by (simp_all add: Let_def run1_store run2_store run3_store becomes_ready run4_store
        run1 run2 run3 run4)

lemma demo_becomes_ready:
  "fst (history stub_platform demo_key
          [Reconciled 1, Reconciled 2, Reconciled 3, PodsChanged [demoPod], Available 1]
          (demoCluster, [])) = readyCluster"
  by (simp add: Let_def run1_store run2_store run3_store becomes_ready)

text \<open>A new parent that finds the children of an earlier object, ready: the run writes
  \<open>Pending\<close> and then \<open>Running\<close>.\<close>

lemma surviving_run:
  "phases_written (calls (snd (reconcile_run stub_platform demo_key [] survivingCluster)))
     = [''Pending'', ''Running'']"
proof -
  have p: "modelserves survivingCluster demo_key = Some demo"
    by (simp add: survivingCluster_def)
  have c: "deployments survivingCluster demo_key
             = Some ((deploymentForModelServe stub_platform demo)\<lparr>deployment_AvailableReplicas := 1\<rparr>)"
      "services survivingCluster demo_key = Some (serviceForModelServe demo)"
      "ingresses survivingCluster demo_key = Some (ingressForModelServe demo)"
    by (simp_all add: survivingCluster_def scenario_children)
  show ?thesis
    using Reconcile_children_present(8) [OF p _ c, of stub_platform]
    by (simp add: eval_defs emptyStatus_def survivingCluster_def readyCluster_def demoPod_def)
qed

text \<open>Scaling to zero and back.\<close>

lemma scale_down:
  "reportAvailable demo_key 0 (servingCluster t)
     = (servingCluster t)\<lparr>deployments := [demo_key \<mapsto> (deploymentForModelServe stub_platform demo)
                                               \<lparr>deployment_AvailableReplicas := 0\<rparr>]\<rparr>"
  by (simp add: reportAvailable_def servingCluster_def readyCluster_def)

lemma run5_store:
  "store (snd (reconcile_run (stub_platform\<lparr>time_now := t'\<rparr>) demo_key []
      ((servingCluster t)\<lparr>deployments := [demo_key \<mapsto> (deploymentForModelServe stub_platform demo)
                                               \<lparr>deployment_AvailableReplicas := 0\<rparr>]\<rparr>)))
     = idleCluster t"
proof -
  have p: "modelserves ((servingCluster t)\<lparr>deployments :=
             [demo_key \<mapsto> (deploymentForModelServe stub_platform demo)
                                 \<lparr>deployment_AvailableReplicas := 0\<rparr>]\<rparr>) demo_key
           = Some (demo\<lparr>Status := servingStatus t\<rparr>)"
    by (simp add: scenario_parents(5))
  show ?thesis
    unfolding Reconcile_nofault [OF p, simplified]
    by (simp add: reconcileDeployment_nofault [where stored = "demo\<lparr>Status := servingStatus t\<rparr>"]
          reconcileService_nofault reconcileIngress_nofault
          reconcileStatus_nofault [where stored = "demo\<lparr>Status := servingStatus t\<rparr>"]
          eval_defs emptyStatus_def downloadingCluster_def deployedCluster_def readyCluster_def
          servingCluster_def servingStatus_def idleCluster_def demoPod_def)
qed

lemma scale_up:
  "reportAvailable demo_key 1 (idleCluster t)
     = (idleCluster t)\<lparr>deployments := [demo_key \<mapsto> (deploymentForModelServe stub_platform demo)
                                            \<lparr>deployment_AvailableReplicas := 1\<rparr>]\<rparr>"
  by (simp add: reportAvailable_def idleCluster_def)

lemma run6_store:
  "store (snd (reconcile_run (stub_platform\<lparr>time_now := t'\<rparr>) demo_key []
      ((idleCluster t)\<lparr>deployments := [demo_key \<mapsto> (deploymentForModelServe stub_platform demo)
                                            \<lparr>deployment_AvailableReplicas := 1\<rparr>]\<rparr>)))
     = servingCluster t'"
proof -
  let ?st = "(servingStatus t)\<lparr>AvailableReplicas := 0, Phase := ''Pending'',
                                 Message := ''Waiting for pod to be ready''\<rparr>"
  have p: "modelserves ((idleCluster t)\<lparr>deployments :=
             [demo_key \<mapsto> (deploymentForModelServe stub_platform demo)
                                 \<lparr>deployment_AvailableReplicas := 1\<rparr>]\<rparr>) demo_key
           = Some (demo\<lparr>Status := ?st\<rparr>)"
    by (simp add: idleCluster_def)
  show ?thesis
    unfolding Reconcile_nofault [OF p, simplified]
    by (simp add: reconcileDeployment_nofault [where stored = "demo\<lparr>Status := ?st\<rparr>"]
          reconcileService_nofault reconcileIngress_nofault
          reconcileStatus_nofault [where stored = "demo\<lparr>Status := ?st\<rparr>"]
          eval_defs emptyStatus_def downloadingCluster_def deployedCluster_def readyCluster_def
          servingCluster_def servingStatus_def idleCluster_def demoPod_def stub_platform_def)
qed

text \<open>With the phase \<open>Pending\<close> and nothing to change, the status is written all the
  same: the branch that sets \<open>Pending\<close> sets \<open>needsStatusUpdate\<close> without looking at
  the phase it replaces, unlike the branch that sets \<open>Running\<close>.\<close>

lemma Pending_status_rewritten:
  "fst (reconcile_run stub_platform demo_key [] (idleCluster 4)) = (Result False, None)"
  "store (snd (reconcile_run stub_platform demo_key [] (idleCluster 4))) = idleCluster 4"
  "list_ex is_StatusUpdate (calls (snd (reconcile_run stub_platform demo_key [] (idleCluster 4))))"
proof -
  let ?st = "(servingStatus 4)\<lparr>AvailableReplicas := 0, Phase := ''Pending'',
                                 Message := ''Waiting for pod to be ready''\<rparr>"
  have p: "modelserves (idleCluster 4) demo_key = Some (demo\<lparr>Status := ?st\<rparr>)"
    by (simp add: idleCluster_def)
  have run: "reconcile_run stub_platform demo_key [] (idleCluster 4)
      = reconcileDeployment stub_platform (initPhase (demo\<lparr>Status := ?st\<rparr>))
          (afterMiddleware (initPhase (demo\<lparr>Status := ?st\<rparr>))
             (afterInit demo_key (demo\<lparr>Status := ?st\<rparr>) (idleCluster 4)))"
    by (rule Reconcile_nofault [OF p]) simp
  note ev = reconcileDeployment_nofault [where stored = "demo\<lparr>Status := ?st\<rparr>"]
          reconcileService_nofault reconcileIngress_nofault
          reconcileStatus_nofault [where stored = "demo\<lparr>Status := ?st\<rparr>"]
          eval_defs emptyStatus_def downloadingCluster_def deployedCluster_def readyCluster_def
          servingCluster_def servingStatus_def idleCluster_def demoPod_def
  show "fst (reconcile_run stub_platform demo_key [] (idleCluster 4)) = (Result False, None)"
    unfolding run by (simp add: ev)
  show "store (snd (reconcile_run stub_platform demo_key [] (idleCluster 4))) = idleCluster 4"
    unfolding run by (simp add: ev)
  show "list_ex is_StatusUpdate (calls (snd (reconcile_run stub_platform demo_key [] (idleCluster 4))))"
    unfolding run by (simp add: ev)
qed

text \<open>A stale read: the deployment exists, the lookup says it does not, and the store
  rejects the create with "already exists".\<close>

lemma race:
  "fst (reconcile_run stub_platform demo_key
          [None, None, Some (APIError NotFound ''stale read'')] downloadingCluster)
     = (Result False,
        Some (APIError AlreadyExists ''deployments.apps \"demo\" already exists''))"
  "(Create Deployments demo_key,
    Some (APIError AlreadyExists ''deployments.apps \"demo\" already exists''))
     \<in> set (calls (snd (reconcile_run stub_platform demo_key
          [None, None, Some (APIError NotFound ''stale read'')] downloadingCluster)))"
  "map_option (Phase \<circ> Status) (modelserves (store (snd (reconcile_run stub_platform demo_key
          [None, None, Some (APIError NotFound ''stale read'')] downloadingCluster))) demo_key)
     = Some ''Failed''"
  by (simp_all add: run_defs downloadingCluster_def emptyStatus_def demo_key_def)

subsection \<open>The claims at the demo request\<close>

text \<open>
  C2, as claimed, fails: in this run the create of the workload is rejected because the
  deployment already exists, and the reconciler returns the error and stores the phase
  \<open>Failed\<close>.
\<close>

theorem AlreadyExists_fails_the_reconcile:
  "(Create Deployments demo_key,
    Some (APIError AlreadyExists ''deployments.apps \"demo\" already exists''))
     \<in> set (calls (snd (reconcile_run stub_platform demo_key
          [None, None, Some (APIError NotFound ''stale read'')] downloadingCluster)))
   \<and> snd (fst (reconcile_run stub_platform demo_key
          [None, None, Some (APIError NotFound ''stale read'')] downloadingCluster))
       = Some (APIError AlreadyExists ''deployments.apps \"demo\" already exists'')
   \<and> map_option (Phase \<circ> Status) (modelserves (store (snd (reconcile_run stub_platform demo_key
          [None, None, Some (APIError NotFound ''stale read'')] downloadingCluster))) demo_key)
       = Some ''Failed''"
  by (simp add: race)

text \<open>The amended C2 at the same run: its hypothesis holds there.\<close>

theorem rejected_create_is_propagated_witness:
  "(Create Deployments demo_key,
    Some (APIError AlreadyExists ''deployments.apps \"demo\" already exists''))
     \<in> set (calls (snd (reconcile_run stub_platform demo_key
          [None, None, Some (APIError NotFound ''stale read'')] downloadingCluster)))
   \<and> snd (fst (reconcile_run stub_platform demo_key
          [None, None, Some (APIError NotFound ''stale read'')] downloadingCluster))
       = Some (APIError AlreadyExists ''deployments.apps \"demo\" already exists'')
   \<and> \<not> Requeue (fst (fst (reconcile_run stub_platform demo_key
          [None, None, Some (APIError NotFound ''stale read'')] downloadingCluster)))
   \<and> (\<exists>m x. last (calls (snd (reconcile_run stub_platform demo_key
          [None, None, Some (APIError NotFound ''stale read'')] downloadingCluster)))
              = (StatusUpdate m, x)
          \<and> Phase (Status m) = ''Failed''
          \<and> Message (Status m)
              = ''Failed to create deployment: deployments.apps \"demo\" already exists'')"
  using rejected_create_is_propagated [OF race(2)] race(2) by auto

text \<open>
  C3, as claimed, fails: the first run on the fresh demo request creates the deployment
  and asks for a requeue, and the second run, on the store as the first left it, creates
  the service.
\<close>

theorem second_run_creates_service:
  "fst (reconcile_run stub_platform demo_key [] demoCluster) = (Result True, None)
   \<and> list_ex is_Create (calls (snd (reconcile_run stub_platform demo_key []
         (store (snd (reconcile_run stub_platform demo_key [] demoCluster))))))"
  using run1(1) [of 1000] run1_store [of 1000] run2(3) [of 1000]
  by (simp add: stub_clock)

text \<open>The amended C3 at the serving cluster: the first run returns without requeue; the
  second creates nothing and changes nothing.\<close>

theorem second_run_quiescent_witness:
  "(case modelserves (servingCluster 4) demo_key of
      None \<Rightarrow> True | Some m0 \<Rightarrow> key_of (Meta m0) = demo_key)
   \<and> fst (reconcile_run stub_platform demo_key [] (servingCluster 4)) = (Result False, None)
   \<and> \<not> list_ex is_Create (calls (snd (reconcile_run stub_platform demo_key []
          (store (snd (reconcile_run stub_platform demo_key [] (servingCluster 4)))))))
   \<and> store (snd (reconcile_run stub_platform demo_key []
          (store (snd (reconcile_run stub_platform demo_key [] (servingCluster 4))))))
       = store (snd (reconcile_run stub_platform demo_key [] (servingCluster 4)))"
proof -
  have wf: "case modelserves (servingCluster 4) demo_key of
      None \<Rightarrow> True | Some m0 \<Rightarrow> key_of (Meta m0) = demo_key"
    by (simp add: scenario_parents(5))
  note r = Reconcile_children_present(1)
             [OF scenario_parents(5) _ scenario_children(8,9,10), of 4 stub_platform, simplified]
  have first: "fst (reconcile_run stub_platform demo_key [] (servingCluster 4)) = (Result False, None)"
    by (rule r)
  from second_run_quiescent [OF wf first, of stub_platform] wf first
  show ?thesis by simp
qed

text \<open>
  C5, as claimed, fails: the demo request reaches \<open>Running\<close> at clock value 4, which is
  stored as \<open>startedAt\<close>; the workload then reports zero replicas, a reconcile sets
  \<open>Pending\<close>, the workload reports one replica, and the reconcile at clock value 6
  overwrites \<open>startedAt\<close> with 6.
\<close>

theorem StartedAt_overwritten:
  "fst (history stub_platform demo_key
          [Reconciled 1, Reconciled 2, Reconciled 3, PodsChanged [demoPod], Available 1,
           Reconciled 4] (demoCluster, [])) = servingCluster 4
   \<and> map_option (StartedAt \<circ> Status) (modelserves (servingCluster 4) demo_key) = Some (Some 4)
   \<and> map_option (StartedAt \<circ> Status)
        (modelserves (fst (history stub_platform demo_key
           [Available 0, Reconciled 5, Available 1, Reconciled 6] (servingCluster 4, []))) demo_key)
       = Some (Some 6)"
proof (intro conjI)
  show "fst (history stub_platform demo_key
          [Reconciled 1, Reconciled 2, Reconciled 3, PodsChanged [demoPod], Available 1,
           Reconciled 4] (demoCluster, [])) = servingCluster 4"
    by (rule demo_reaches_serving(1))
  show "map_option (StartedAt \<circ> Status) (modelserves (servingCluster 4) demo_key) = Some (Some 4)"
    by (simp add: scenario_parents(5) servingStatus_def)
  show "map_option (StartedAt \<circ> Status)
        (modelserves (fst (history stub_platform demo_key
           [Available 0, Reconciled 5, Available 1, Reconciled 6] (servingCluster 4, []))) demo_key)
       = Some (Some 6)"
    by (simp add: Let_def scale_down run5_store scale_up run6_store
          scenario_parents(5) servingStatus_def)
qed

text \<open>The amended C5 at the run that takes the demo request into \<open>Running\<close> at clock
  value 4.\<close>

theorem StartedAt_written_on_entering_Running_witness:
  "modelserves readyCluster demo_key = Some (demo\<lparr>Status := emptyStatus
          \<lparr>Phase := ''Downloading'', Message := ''Downloading model from MinIO''\<rparr>\<rparr>)
   \<and> key_of (Meta (demo\<lparr>Status := emptyStatus
          \<lparr>Phase := ''Downloading'', Message := ''Downloading model from MinIO''\<rparr>\<rparr>)) = demo_key
   \<and> (\<exists>m'. modelserves (store (snd (reconcile_run (stub_platform\<lparr>time_now := 4\<rparr>) demo_key []
                 readyCluster))) demo_key = Some m'
          \<and> Phase (Status m') = ''Running'' \<and> StartedAt (Status m') = Some 4)"
proof -
  let ?m0 = "demo\<lparr>Status := emptyStatus
          \<lparr>Phase := ''Downloading'', Message := ''Downloading model from MinIO''\<rparr>\<rparr>"
  have key: "key_of (Meta ?m0) = demo_key" by simp
  from StartedAt_written_on_entering_Running [OF scenario_parents(4) key,
         of "stub_platform\<lparr>time_now := 4\<rparr>" "[]"]
  obtain m' where m': "modelserves (store (snd (reconcile_run (stub_platform\<lparr>time_now := 4\<rparr>)
                          demo_key [] readyCluster))) demo_key = Some m'"
    and st: "StartedAt (Status m') =
               (if Phase (Status m') = ''Running'' \<and> Phase (Status ?m0) \<noteq> ''Running''
                then Some (time_now (stub_platform\<lparr>time_now := 4\<rparr>)) else StartedAt (Status ?m0))"
    by blast
  from m' have "m' = demo\<lparr>Status := servingStatus 4\<rparr>"
    by (simp add: run4_store scenario_parents(5))
  with m' st scenario_parents(4) key show ?thesis
    by (simp add: servingStatus_def)
qed

text \<open>
  C6, as claimed, fails: the parent is fresh, the workload, the network endpoint and the
  route of an earlier object of the same name exist and the workload is ready; the
  reconcile writes \<open>Pending\<close> and then \<open>Running\<close>, and \<open>Downloading\<close> is never
  observed.
\<close>

theorem Downloading_skipped:
  "modelserves survivingCluster demo_key = Some demo \<and> key_of (Meta demo) = demo_key
   \<and> Phase (Status demo) = []
   \<and> phases_written (calls (snd (reconcile_run stub_platform demo_key [] survivingCluster)))
       = [''Pending'', ''Running'']"
proof (intro conjI)
  show "modelserves survivingCluster demo_key = Some demo"
    by (simp add: survivingCluster_def)
  show "key_of (Meta demo) = demo_key" by simp
  show "Phase (Status demo) = []" by (simp add: emptyStatus_def)
  show "phases_written (calls (snd (reconcile_run stub_platform demo_key [] survivingCluster)))
       = [''Pending'', ''Running'']"
    by (rule surviving_run)
qed

text \<open>The amended C6 at the demo request: after the first reconcile the phases are
  Pending, Downloading; after three reconciles, a running pod and an available replica,
  the fourth reconcile completes them with Running; and a run on the serving cluster that
  meets a fault does not write \<open>Pending\<close>.\<close>

theorem phase_order_witness:
  "modelserves demoCluster demo_key = Some demo \<and> key_of (Meta demo) = demo_key
   \<and> Phase (Status demo) = [] \<and> deployments demoCluster demo_key = None
   \<and> steady False [Reconciled 1, Reconciled 2, Reconciled 3, PodsChanged [demoPod], Available 1]
   \<and> 3 \<le> reconciles [Reconciled 1, Reconciled 2, Reconciled 3, PodsChanged [demoPod], Available 1]
   \<and> childrenReady demo_key (fst (history stub_platform demo_key
        [Reconciled 1, Reconciled 2, Reconciled 3, PodsChanged [demoPod], Available 1]
        (demoCluster, [])))
   \<and> remdups_adj (phases_written (snd (history stub_platform demo_key
        ([Reconciled 1, Reconciled 2, Reconciled 3, PodsChanged [demoPod], Available 1]
         @ [Reconciled 4]) (demoCluster, []))))
       = [''Pending'', ''Downloading'', ''Running'']
   \<and> remdups_adj (phases_written (snd (history stub_platform demo_key ([] @ [Reconciled 1])
        (demoCluster, [])))) = [''Pending'', ''Downloading'']
   \<and> modelserves (servingCluster 4) demo_key = Some (demo\<lparr>Status := servingStatus 4\<rparr>)
   \<and> key_of (Meta (demo\<lparr>Status := servingStatus 4\<rparr>)) = demo_key
   \<and> Phase (Status (demo\<lparr>Status := servingStatus 4\<rparr>)) = ''Running''
   \<and> deployments (servingCluster 4) demo_key
       = Some ((deploymentForModelServe stub_platform demo)\<lparr>deployment_AvailableReplicas := 1\<rparr>)
   \<and> 0 < sint (deployment_AvailableReplicas
                ((deploymentForModelServe stub_platform demo)\<lparr>deployment_AvailableReplicas := 1\<rparr>))
   \<and> (\<exists>m'. modelserves (store (snd (reconcile_run stub_platform demo_key
                 [None, None, Some (APIError NotFound ''stale read'')] (servingCluster 4)))) demo_key
               = Some m' \<and> Phase (Status m') \<noteq> ''Pending'')
   \<and> ''Pending'' \<notin> set (phases_written (calls (snd (reconcile_run stub_platform demo_key
                 [None, None, Some (APIError NotFound ''stale read'')] (servingCluster 4)))))"
proof -
  let ?evs = "[Reconciled 1, Reconciled 2, Reconciled 3, PodsChanged [demoPod], Available 1]"
  have a: "modelserves demoCluster demo_key = Some demo \<and> key_of (Meta demo) = demo_key
      \<and> Phase (Status demo) = [] \<and> deployments demoCluster demo_key = None"
    by (simp add: scenario_parents(1) emptyStatus_def demoCluster_def emptyCluster_def)
  have st: "steady False ?evs" "steady False []" "3 \<le> reconciles ?evs" by simp_all
  have rd: "childrenReady demo_key (fst (history stub_platform demo_key ?evs (demoCluster, [])))"
    unfolding demo_becomes_ready by (simp add: childrenReady_def scenario_children)
  have nr: "\<not> childrenReady demo_key (fst (history stub_platform demo_key [] (demoCluster, [])))"
    by (simp add: childrenReady_def demoCluster_def emptyCluster_def)
  have b: "modelserves (servingCluster 4) demo_key = Some (demo\<lparr>Status := servingStatus 4\<rparr>)
      \<and> key_of (Meta (demo\<lparr>Status := servingStatus 4\<rparr>)) = demo_key
      \<and> Phase (Status (demo\<lparr>Status := servingStatus 4\<rparr>)) = ''Running''
      \<and> deployments (servingCluster 4) demo_key
          = Some ((deploymentForModelServe stub_platform demo)\<lparr>deployment_AvailableReplicas := 1\<rparr>)
      \<and> 0 < sint (deployment_AvailableReplicas
                ((deploymentForModelServe stub_platform demo)\<lparr>deployment_AvailableReplicas := 1\<rparr>))"
    by (simp add: scenario_parents(5) scenario_children(8) servingStatus_def)
  note t1 = phase_order [of demoCluster demo_key demo ?evs stub_platform 4
         "servingCluster 4" demo_key "demo\<lparr>Status := servingStatus 4\<rparr>"
         "(deploymentForModelServe stub_platform demo)\<lparr>deployment_AvailableReplicas := 1\<rparr>"
         stub_platform "[None, None, Some (APIError NotFound ''stale read'')]"]
  note t2 = phase_order [of demoCluster demo_key demo "[]" stub_platform 1
         "servingCluster 4" demo_key "demo\<lparr>Status := servingStatus 4\<rparr>"
         "(deploymentForModelServe stub_platform demo)\<lparr>deployment_AvailableReplicas := 1\<rparr>"
         stub_platform "[None, None, Some (APIError NotFound ''stale read'')]"]
  from t1 a st(1) rd have c1: "remdups_adj (phases_written (snd (history stub_platform demo_key
        (?evs @ [Reconciled 4]) (demoCluster, []))))
       = [''Pending'', ''Downloading'', ''Running'']"
    by presburger
  from t2 a st(2) nr have c2: "remdups_adj (phases_written (snd (history stub_platform demo_key
        ([] @ [Reconciled 1]) (demoCluster, [])))) = [''Pending'', ''Downloading'']"
    by presburger
  from t1 a b st(1) have c3:
    "(\<exists>m'. modelserves (store (snd (reconcile_run stub_platform demo_key
                 [None, None, Some (APIError NotFound ''stale read'')] (servingCluster 4)))) demo_key
               = Some m' \<and> Phase (Status m') \<noteq> ''Pending'')
     \<and> ''Pending'' \<notin> set (phases_written (calls (snd (reconcile_run stub_platform demo_key
                 [None, None, Some (APIError NotFound ''stale read'')] (servingCluster 4)))))"
    by blast
  from a st(1,3) rd c1 c2 b c3 show ?thesis by blast
qed

text \<open>
  C8, as claimed, fails: with the workload ready, the reconcile of the demo request stores
  the gateway URL \<open>http://localhost/demo\<close>, without the final slash of the claimed form.
\<close>

theorem gatewayURL_without_trailing_slash:
  "map_option (GatewayURL \<circ> Status)
     (modelserves (store (snd (reconcile_run stub_platform demo_key [] readyCluster))) demo_key)
     = Some ''http://localhost/demo''
   \<and> map_option (Phase \<circ> Status)
     (modelserves (store (snd (reconcile_run stub_platform demo_key [] readyCluster))) demo_key)
     = Some ''Running''
   \<and> ''http://localhost/demo'' \<noteq> ''http://localhost/demo/''"
  using run4_store [of 1000]
  by (simp add: stub_clock scenario_parents(5) servingStatus_def)

text \<open>The amended C8 at the same run.\<close>

theorem gatewayURL_recorded_witness:
  "modelserves readyCluster demo_key = Some (demo\<lparr>Status := emptyStatus
          \<lparr>Phase := ''Downloading'', Message := ''Downloading model from MinIO''\<rparr>\<rparr>)
   \<and> key_of (Meta (demo\<lparr>Status := emptyStatus
          \<lparr>Phase := ''Downloading'', Message := ''Downloading model from MinIO''\<rparr>\<rparr>)) = demo_key
   \<and> deployments readyCluster demo_key
       = Some ((deploymentForModelServe stub_platform demo)\<lparr>deployment_AvailableReplicas := 1\<rparr>)
   \<and> services readyCluster demo_key = Some (serviceForModelServe demo)
   \<and> ingresses readyCluster demo_key = Some (ingressForModelServe demo)
   \<and> fst (reconcile_run stub_platform demo_key [] readyCluster) = (Result False, None)
   \<and> (\<exists>m'. modelserves (store (snd (reconcile_run stub_platform demo_key [] readyCluster)))
                 demo_key = Some m'
          \<and> GatewayURL (Status m') = ''http://localhost/demo''
          \<and> Phase (Status m') = ''Running'')"
proof -
  let ?m0 = "demo\<lparr>Status := emptyStatus
          \<lparr>Phase := ''Downloading'', Message := ''Downloading model from MinIO''\<rparr>\<rparr>"
  have key: "key_of (Meta ?m0) = demo_key" by simp
  from gatewayURL_recorded [OF scenario_parents(4) key scenario_children(5,6,7), of stub_platform]
       scenario_parents(4) key scenario_children(5,6,7)
  show ?thesis by simp
qed

text \<open>C10 at the first run on the demo request, which sends two status updates.\<close>

theorem Reconcile_writes_status_only_witness:
  "list_all (parent_write_ok (modelserves demoCluster demo_key))
     (calls (snd (reconcile_run stub_platform demo_key [] demoCluster)))
   \<and> map_option Meta (modelserves (store (snd (reconcile_run stub_platform demo_key []
        demoCluster))) demo_key) = Some (Meta demo)
   \<and> map_option Spec (modelserves (store (snd (reconcile_run stub_platform demo_key []
        demoCluster))) demo_key) = Some (Spec demo)
   \<and> list_ex is_StatusUpdate (calls (snd (reconcile_run stub_platform demo_key [] demoCluster)))"
proof -
  have "''Pending'' \<in> set (phases_written (calls (snd (reconcile_run stub_platform demo_key []
                                  demoCluster))))"
    using run1(2) [of 1000] by (simp add: stub_clock)
  from phases_written_D [OF this]
  have w: "list_ex is_StatusUpdate (calls (snd (reconcile_run stub_platform demo_key []
                  demoCluster)))"
    by (auto simp: list_ex_iff intro: bexI [where x = "(StatusUpdate m, None)" for m])
  note t = Reconcile_writes_status_only [of demoCluster demo_key stub_platform "[]"]
  from t have c: "list_all (parent_write_ok (modelserves demoCluster demo_key))
     (calls (snd (reconcile_run stub_platform demo_key [] demoCluster)))"
    by blast
  from t have m: "map_option Meta (modelserves (store (snd (reconcile_run stub_platform demo_key []
        demoCluster))) demo_key) = map_option Meta (modelserves demoCluster demo_key)"
    by blast
  from t have s: "map_option Spec (modelserves (store (snd (reconcile_run stub_platform demo_key []
        demoCluster))) demo_key) = map_option Spec (modelserves demoCluster demo_key)"
    by blast
  from c m s w show ?thesis by (simp add: scenario_parents(1))
qed

end
